(* ===== verification/Prelude.thy ===== *)
theory Prelude
  imports Main "HOL-Library.Sublist" "HOL-Library.Word" "HOL-Library.Char_ord"
    "HOL-Library.List_Lexorder"
begin

text \<open>
  What the components share: the exceptions the sources throw and the state-and-exception type of
  the operations that can throw, the members of \<open>std::string\<close> the code calls (\<open>find\<close>, \<open>substr\<close>,
  \<open>std::to_string\<close>, \<open>std::stoi\<close>, \<open>std::stoul\<close>, the \<open>cctype\<close> classifiers), the generic lemmas
  about them, and three small interfaces (locales) that several components interpret: a codec
  with its round trip, a sanitizer with its idempotence, and a machine with an invariant.
\<close>

named_theorems str_simps \<open>equations of the string operations\<close>
named_theorems path_simps \<open>equations of the path operations\<close>
named_theorems io_simps \<open>equations of the state-and-exception operations\<close>

section \<open>Exceptions and effects\<close>

text \<open>
  The exceptions that reach a handler or leave one.  The text of a \<open>filesystem_error\<close> is
  implementation-defined; its argument names the library call that raised it.
\<close>

datatype exn =
    Invalid_argument string
  | Out_of_range string
  | Runtime_error string
  | Filesystem_error string
  | Bad_optional_access
  | UrlParseException string
  | Bad_function_call

type_synonym 'a result = "exn + 'a"

type_synonym ('s, 'a) io = "'s \<Rightarrow> 'a result \<times> 's"

text \<open>\<open>e.what()\<close> of a caught exception.\<close>

fun what :: "exn \<Rightarrow> string" where
  "what (Invalid_argument s) = s"
| "what (Out_of_range s) = s"
| "what (Runtime_error s) = s"
| "what (Filesystem_error s) = s"
| "what Bad_optional_access = ''bad optional access''"
| "what (UrlParseException s) = s"
| "what Bad_function_call = ''bad_function_call''"

definition io_return :: "'a \<Rightarrow> ('s, 'a) io" where
  "io_return x = (\<lambda>s. (Inr x, s))"

definition io_throw :: "exn \<Rightarrow> ('s, 'a) io" where
  "io_throw e = (\<lambda>s. (Inl e, s))"

definition io_bind :: "('s, 'a) io \<Rightarrow> ('a \<Rightarrow> ('s, 'b) io) \<Rightarrow> ('s, 'b) io" where
  "io_bind m f = (\<lambda>s. case m s of (Inl e, s') \<Rightarrow> (Inl e, s') | (Inr x, s') \<Rightarrow> f x s')"

text \<open>\<open>try { m } catch (e) { h }\<close>: the state changes made before the throw stay.\<close>

definition io_catch :: "('s, 'a) io \<Rightarrow> (exn \<Rightarrow> ('s, 'a) io) \<Rightarrow> ('s, 'a) io" where
  "io_catch m h = (\<lambda>s. case m s of (Inl e, s') \<Rightarrow> h e s' | (Inr x, s') \<Rightarrow> (Inr x, s'))"

text \<open>The \<open>std::error_code\<close> overloads: the error is a value.\<close>

definition with_ec :: "('s, 'a) io \<Rightarrow> ('s, 'a result) io" where
  "with_ec m = (\<lambda>s. case m s of (r, s') \<Rightarrow> (Inr r, s'))"

text \<open>
  What an operation guarantees when started in a state with \<open>P\<close>: \<open>Q\<close> of the result and the final
  state when it returns, \<open>R\<close> of the exception and the final state when it throws.
\<close>

definition triple :: "('s \<Rightarrow> bool) \<Rightarrow> ('s, 'a) io \<Rightarrow> ('a \<Rightarrow> 's \<Rightarrow> bool) \<Rightarrow> (exn \<Rightarrow> 's \<Rightarrow> bool) \<Rightarrow> bool" where
  "triple P m Q R \<longleftrightarrow>
     (\<forall>s. P s \<longrightarrow> (case m s of (Inl e, s') \<Rightarrow> R e s' | (Inr x, s') \<Rightarrow> Q x s'))"

section \<open>Characters and strings\<close>

text \<open>
  A \<open>char\<close> is a byte; \<open>std::string\<close> is a byte string.  The \<open>cctype\<close> functions are those of the
  \<open>"C"\<close> locale.
\<close>

abbreviation ch_code :: "char \<Rightarrow> nat" where
  "ch_code c \<equiv> of_char c"

definition is_digit :: "char \<Rightarrow> bool" where
  "is_digit c \<longleftrightarrow> 48 \<le> ch_code c \<and> ch_code c \<le> 57"

definition isxdigit :: "char \<Rightarrow> bool" where
  "isxdigit c \<longleftrightarrow> is_digit c \<or> (65 \<le> ch_code c \<and> ch_code c \<le> 70)
     \<or> (97 \<le> ch_code c \<and> ch_code c \<le> 102)"

definition isspace :: "char \<Rightarrow> bool" where
  "isspace c \<longleftrightarrow> ch_code c = 32 \<or> (9 \<le> ch_code c \<and> ch_code c \<le> 13)"

definition tolower :: "char \<Rightarrow> char" where
  "tolower c = (if 65 \<le> ch_code c \<and> ch_code c \<le> 90 then char_of (ch_code c + 32) else c)"

text \<open>
  \<open>s.find(p)\<close>: the first position at which \<open>p\<close> occurs; \<open>npos\<close> is \<open>None\<close>.  \<open>s.find(p, pos)\<close>
  starts at \<open>pos\<close> and answers \<open>npos\<close> when \<open>pos\<close> is past the end.
\<close>

fun find_sub :: "string \<Rightarrow> string \<Rightarrow> nat option" where
  "find_sub p [] = (if p = [] then Some 0 else None)"
| "find_sub p (c # cs) = (if prefix p (c # cs) then Some 0 else map_option Suc (find_sub p cs))"

definition find_from :: "string \<Rightarrow> string \<Rightarrow> nat \<Rightarrow> nat option" where
  "find_from p s pos =
     (if pos \<le> length s then map_option (\<lambda>i. pos + i) (find_sub p (drop pos s)) else None)"

abbreviation find_char :: "char \<Rightarrow> string \<Rightarrow> nat option" where
  "find_char c s \<equiv> find_sub [c] s"

text \<open>\<open>s.substr(pos, n)\<close> for \<open>pos \<le> s.size()\<close>.\<close>

definition substr :: "string \<Rightarrow> nat \<Rightarrow> nat \<Rightarrow> string" where
  "substr s pos n = take n (drop pos s)"

definition contains :: "string \<Rightarrow> string \<Rightarrow> bool" where
  "contains p s \<longleftrightarrow> find_sub p s \<noteq> None"

text \<open>\<open>std::to_string\<close> on integers.\<close>

definition digit_char :: "nat \<Rightarrow> char" where
  "digit_char d = char_of (48 + d)"

fun to_string_nat :: "nat \<Rightarrow> string" where
  "to_string_nat n =
     (if n < 10 then [digit_char n] else to_string_nat (n div 10) @ [digit_char (n mod 10)])"

declare to_string_nat.simps [simp del]

definition to_string_int :: "int \<Rightarrow> string" where
  "to_string_int i =
     (if i < 0 then CHR ''-'' # to_string_nat (nat (- i)) else to_string_nat (nat i))"

text \<open>
  \<open>strtol\<close> in base 10: leading white space, an optional sign, then the longest run of digits;
  what follows the digits is ignored.  \<open>None\<close> when there is no digit.
\<close>

fun digits_value :: "nat \<Rightarrow> string \<Rightarrow> nat" where
  "digits_value acc [] = acc"
| "digits_value acc (c # cs) = digits_value (10 * acc + (ch_code c - 48)) cs"

definition strtol_digits :: "string \<Rightarrow> nat option" where
  "strtol_digits s =
     (let ds = takeWhile is_digit s in if ds = [] then None else Some (digits_value 0 ds))"

definition strtol :: "string \<Rightarrow> int option" where
  "strtol s =
     (case dropWhile isspace s of
        [] \<Rightarrow> None
      | c # cs \<Rightarrow>
          if c = CHR ''-'' then map_option (\<lambda>n. - int n) (strtol_digits cs)
          else if c = CHR ''+'' then map_option int (strtol_digits cs)
          else map_option int (strtol_digits (c # cs)))"

text \<open>\<open>std::stoi\<close>: \<open>invalid_argument\<close> without digits, \<open>out_of_range\<close> outside 32 bits.\<close>

definition stoi :: "string \<Rightarrow> int result" where
  "stoi s =
     (case strtol s of
        None \<Rightarrow> Inl (Invalid_argument ''stoi'')
      | Some i \<Rightarrow>
          if - (2 ^ 31) \<le> i \<and> i < 2 ^ 31 then Inr i else Inl (Out_of_range ''stoi''))"

text \<open>\<open>std::stol\<close>: the same for a 64-bit \<open>long\<close>.\<close>

definition stol :: "string \<Rightarrow> int result" where
  "stol s =
     (case strtol s of
        None \<Rightarrow> Inl (Invalid_argument ''stol'')
      | Some i \<Rightarrow>
          if - (2 ^ 63) \<le> i \<and> i < 2 ^ 63 then Inr i else Inl (Out_of_range ''stol''))"

text \<open>\<open>std::stoul\<close>: a 64-bit \<open>unsigned long\<close>; a minus sign negates modulo \<open>2\<^sup>6\<^sup>4\<close>.\<close>

definition stoul :: "string \<Rightarrow> nat result" where
  "stoul s =
     (case strtol s of
        None \<Rightarrow> Inl (Invalid_argument ''stoul'')
      | Some i \<Rightarrow>
          if \<bar>i\<bar> < 2 ^ 64 then Inr (nat (i mod 2 ^ 64)) else Inl (Out_of_range ''stoul''))"

section \<open>Interfaces several components share\<close>

text \<open>An encoder and a decoder that undoes it on the valid values.\<close>

locale codec =
  fixes enc :: "'a \<Rightarrow> 'b"
    and dec :: "'b \<Rightarrow> 'a option"
    and valid :: "'a \<Rightarrow> bool"
  assumes dec_enc: "valid x \<Longrightarrow> dec (enc x) = Some x"
begin

lemma enc_inj_on: "inj_on enc {x. valid x}"
  by (rule inj_onI) (metis dec_enc mem_Collect_eq option.inject)

lemma enc_eq_iff: "valid x \<Longrightarrow> valid y \<Longrightarrow> enc x = enc y \<longleftrightarrow> x = y"
  using enc_inj_on by (auto simp: inj_on_def)

lemma map_dec_enc: "\<forall>x \<in> set xs. valid x \<Longrightarrow> those (map (dec \<circ> enc) xs) = Some xs"
  by (induction xs) (auto simp: dec_enc)

end

text \<open>A cleaning function whose results are clean and that leaves clean values alone.\<close>

locale sanitizer =
  fixes clean :: "'a \<Rightarrow> 'a"
    and ok :: "'a \<Rightarrow> bool"
  assumes clean_ok: "ok (clean x)"
    and ok_clean: "ok x \<Longrightarrow> clean x = x"
begin

lemma clean_idem: "clean (clean x) = clean x"
  by (simp add: clean_ok ok_clean)

lemma clean_fixpoint: "clean x = x \<longleftrightarrow> ok x"
  using clean_ok [of x] ok_clean [of x] by auto

end

text \<open>A machine whose every step keeps an invariant, so every run keeps it.\<close>

locale invariant_machine =
  fixes step :: "'l \<Rightarrow> 's \<Rightarrow> 's"
    and invar :: "'s \<Rightarrow> bool"
  assumes step_invar: "invar s \<Longrightarrow> invar (step l s)"
begin

lemma run_invar: "invar s \<Longrightarrow> invar (fold step ls s)"
  by (induction ls arbitrary: s) (auto intro: step_invar)

lemma run_invar_at: "invar s \<Longrightarrow> invar (fold step (take n ls) s)"
  by (rule run_invar)

end

section \<open>Lemmas\<close>

subsection \<open>Counting in a list\<close>

lemma count_list_update:
  "i < length xs \<Longrightarrow> count_list (xs[i := x]) y + (if xs ! i = y then 1 else 0) = count_list xs y + (if x = y then 1 else 0)"
proof (induction xs arbitrary: i)
  case (Cons z zs)
  then show ?case
  proof (cases i)
    case (Suc k)
    with Cons.IH [of k] Cons.prems show ?thesis by (auto split: if_splits)
  qed simp
qed simp

lemma sum_list_update_less:
  "i < length xs \<Longrightarrow> y < xs ! i \<Longrightarrow> sum_list (xs[i := y]) < (sum_list xs :: nat)"
  by (induction xs arbitrary: i) (auto split: nat.splits)

subsection \<open>Effects\<close>

lemma io_return_apply [io_simps]: "io_return x s = (Inr x, s)"
  by (simp add: io_return_def)

lemma io_throw_apply [io_simps]: "io_throw e s = (Inl e, s)"
  by (simp add: io_throw_def)

lemma io_bind_Inr [io_simps]: "m s = (Inr x, s') \<Longrightarrow> io_bind m f s = f x s'"
  by (simp add: io_bind_def)

lemma io_bind_Inl [io_simps]: "m s = (Inl e, s') \<Longrightarrow> io_bind m f s = (Inl e, s')"
  by (simp add: io_bind_def)

lemma io_catch_Inr [io_simps]: "m s = (Inr x, s') \<Longrightarrow> io_catch m h s = (Inr x, s')"
  by (simp add: io_catch_def)

lemma io_catch_Inl [io_simps]: "m s = (Inl e, s') \<Longrightarrow> io_catch m h s = h e s'"
  by (simp add: io_catch_def)

lemma with_ec_apply [io_simps]: "m s = (r, s') \<Longrightarrow> with_ec m s = (Inr r, s')"
  by (simp add: with_ec_def)

named_theorems triples \<open>rules that decompose a triple\<close>

lemma tripleI:
  "(\<And>s r s'. P s \<Longrightarrow> m s = (r, s') \<Longrightarrow> (case r of Inl e \<Rightarrow> R e s' | Inr x \<Rightarrow> Q x s')) \<Longrightarrow> triple P m Q R"
  by (auto simp: triple_def split: prod.split sum.split)

lemma triple_Inr: "triple P m Q R \<Longrightarrow> P s \<Longrightarrow> m s = (Inr x, s') \<Longrightarrow> Q x s'"
  by (fastforce simp: triple_def)

lemma triple_Inl: "triple P m Q R \<Longrightarrow> P s \<Longrightarrow> m s = (Inl e, s') \<Longrightarrow> R e s'"
  by (fastforce simp: triple_def)

lemma triple_return [triples]: "(\<And>s. P s \<Longrightarrow> Q x s) \<Longrightarrow> triple P (io_return x) Q R"
  by (simp add: triple_def io_return_def)

lemma triple_throw [triples]: "(\<And>s. P s \<Longrightarrow> R e s) \<Longrightarrow> triple P (io_throw e) Q R"
  by (simp add: triple_def io_throw_def)

lemma triple_bind [triples]:
  "triple P m B R \<Longrightarrow> (\<And>x. triple (B x) (f x) Q R) \<Longrightarrow> triple P (io_bind m f) Q R"
proof (rule tripleI)
  fix s r s'
  assume m: "triple P m B R" and f: "\<And>x. triple (B x) (f x) Q R" and "P s" "io_bind m f s = (r, s')"
  then show "case r of Inl e \<Rightarrow> R e s' | Inr x \<Rightarrow> Q x s'"
    by (cases "m s"; cases "fst (m s)"; cases r)
      (auto simp: io_bind_def dest: triple_Inr [OF m] triple_Inl [OF m] triple_Inr [OF f] triple_Inl [OF f])
qed

lemma triple_catch [triples]:
  "triple P m Q B \<Longrightarrow> (\<And>e. triple (B e) (h e) Q R) \<Longrightarrow> triple P (io_catch m h) Q R"
proof (rule tripleI)
  fix s r s'
  assume m: "triple P m Q B" and h: "\<And>e. triple (B e) (h e) Q R" and "P s" "io_catch m h s = (r, s')"
  then show "case r of Inl e \<Rightarrow> R e s' | Inr x \<Rightarrow> Q x s'"
    by (cases "m s"; cases "fst (m s)"; cases r)
      (auto simp: io_catch_def dest: triple_Inr [OF m] triple_Inl [OF m] triple_Inr [OF h] triple_Inl [OF h])
qed

lemma triple_with_ec [triples]:
  "triple P m (\<lambda>x. Q (Inr x)) (\<lambda>e. Q (Inl e)) \<Longrightarrow> triple P (with_ec m) Q R"
proof (rule tripleI)
  fix s r s'
  assume m: "triple P m (\<lambda>x. Q (Inr x)) (\<lambda>e. Q (Inl e))" and "P s" "with_ec m s = (r, s')"
  then show "case r of Inl e \<Rightarrow> R e s' | Inr x \<Rightarrow> Q x s'"
    by (cases "m s"; cases "fst (m s)") (auto simp: with_ec_def dest: triple_Inr [OF m] triple_Inl [OF m])
qed

lemma triple_if [triples]:
  "(b \<Longrightarrow> triple P m Q R) \<Longrightarrow> (\<not> b \<Longrightarrow> triple P n Q R) \<Longrightarrow> triple P (if b then m else n) Q R"
  by simp

lemma triple_weaken:
  "triple P m Q R \<Longrightarrow> (\<And>s. P' s \<Longrightarrow> P s) \<Longrightarrow> (\<And>x s. Q x s \<Longrightarrow> Q' x s) \<Longrightarrow>
     (\<And>e s. R e s \<Longrightarrow> R' e s) \<Longrightarrow> triple P' m Q' R'"
  by (rule tripleI) (fastforce split: sum.split dest: triple_Inr triple_Inl)

subsection \<open>Searching\<close>

lemma find_sub_Some_prefix: "find_sub p s = Some i \<Longrightarrow> prefix p (drop i s)"
  by (induction s arbitrary: i) (auto split: if_splits)

lemma find_sub_Some_le: "find_sub p s = Some i \<Longrightarrow> i + length p \<le> length s"
  by (induction s arbitrary: i) (auto split: if_splits dest: prefix_length_le)

lemma find_sub_Some_first: "find_sub p s = Some i \<Longrightarrow> j < i \<Longrightarrow> \<not> prefix p (drop j s)"
proof (induction s arbitrary: i j)
  case (Cons c cs)
  then show ?case by (cases j) (auto split: if_splits)
qed (auto split: if_splits)

lemma find_sub_None: "find_sub p s = None \<Longrightarrow> \<not> prefix p (drop j s)"
proof (induction s arbitrary: j)
  case (Cons c cs)
  then show ?case by (cases j) (auto split: if_splits)
qed (auto split: if_splits)

lemma find_sub_SomeI:
  "prefix p (drop i s) \<Longrightarrow> i \<le> length s \<Longrightarrow> (\<And>j. j < i \<Longrightarrow> \<not> prefix p (drop j s)) \<Longrightarrow>
     find_sub p s = Some i"
proof (induction s arbitrary: i)
  case Nil
  then show ?case by simp
next
  case (Cons c cs)
  show ?case
  proof (cases i)
    case 0
    with Cons.prems show ?thesis by simp
  next
    case (Suc k)
    have "find_sub p cs = Some k"
    proof (rule Cons.IH)
      show "\<not> prefix p (drop j cs)" if "j < k" for j
        using Cons.prems(3) [of "Suc j"] that Suc by simp
    qed (use Cons.prems Suc in auto)
    with Cons.prems(3) [of 0] Suc show ?thesis by simp
  qed
qed

lemma find_sub_NoneI: "(\<And>j. j \<le> length s \<Longrightarrow> \<not> prefix p (drop j s)) \<Longrightarrow> find_sub p s = None"
  by (metis find_sub_Some_le find_sub_Some_prefix add_leD1 not_None_eq)

lemma contains_iff: "contains p s \<longleftrightarrow> sublist p s"
proof
  assume "contains p s"
  then obtain i where "find_sub p s = Some i"
    by (auto simp: contains_def)
  then obtain t where "drop i s = p @ t"
    using find_sub_Some_prefix [of p s i] by (auto simp: prefix_def)
  then have "s = take i s @ p @ t"
    by (metis append_take_drop_id)
  then show "sublist p s" by (auto simp: sublist_def)
next
  assume "sublist p s"
  then obtain a b where s: "s = a @ p @ b"
    by (auto simp: sublist_def)
  then have "prefix p (drop (length a) s)"
    by simp
  then show "contains p s"
    using find_sub_None [of p s "length a"] by (auto simp: contains_def)
qed

lemma find_char_eq [str_simps]:
  "find_char c s = (if c \<in> set s then Some (length (takeWhile (\<lambda>x. x \<noteq> c) s)) else None)"
  by (induction s) auto

lemma find_sub_append_new:
  assumes "find_sub p (u @ p) = Some (length u)"
  shows "find_sub p (u @ p @ t) = Some (length u)"
proof (rule find_sub_SomeI)
  fix j assume j: "j < length u"
  show "\<not> prefix p (drop j (u @ p @ t))"
  proof
    assume pr: "prefix p (drop j (u @ p @ t))"
    have d: "drop j (u @ p @ t) = drop j (u @ p) @ t"
      using j by simp
    have "length p \<le> length (drop j (u @ p))"
      using j by simp
    with pr d have "prefix p (drop j (u @ p))"
      by (metis prefix_length_prefix prefixI)
    with find_sub_Some_first [OF assms j] show False by contradiction
  qed
qed simp_all

lemma takeWhile_until [str_simps]:
  "c \<notin> set xs \<Longrightarrow> takeWhile (\<lambda>x. x \<noteq> c) (xs @ c # ys) = xs"
  by (induction xs) auto

lemma takeWhile_absent [str_simps]: "c \<notin> set xs \<Longrightarrow> takeWhile (\<lambda>x. x \<noteq> c) xs = xs"
  by (induction xs) auto

lemma set_map_filter: "set (List.map_filter f xs) = {y. \<exists>x \<in> set xs. f x = Some y}"
  by (force simp: map_filter_def)

lemma dropWhile_until:
  "c \<in> set xs \<Longrightarrow> dropWhile (\<lambda>x. x \<noteq> c) xs = c # tl (dropWhile (\<lambda>x. x \<noteq> c) xs)"
  by (induction xs) auto

lemma substr_all [str_simps]: "length s \<le> pos + n \<Longrightarrow> substr s pos n = drop pos s"
  by (simp add: substr_def)

subsection \<open>Decimal numerals\<close>

lemma digit_char_code: "d < 10 \<Longrightarrow> ch_code (digit_char d) = 48 + d"
  by (simp add: digit_char_def of_char_of)

lemma is_digit_digit_char: "d < 10 \<Longrightarrow> is_digit (digit_char d)"
  by (simp add: is_digit_def digit_char_code)

lemma to_string_nat_digits: "c \<in> set (to_string_nat n) \<Longrightarrow> is_digit c"
  by (induction n rule: to_string_nat.induct)
    (subst (asm) (2) to_string_nat.simps, auto split: if_splits simp: is_digit_digit_char)

lemma to_string_nat_nonempty [simp]: "to_string_nat n \<noteq> []"
  by (subst to_string_nat.simps) simp

lemma digits_value_snoc: "digits_value acc (xs @ [c]) = 10 * digits_value acc xs + (ch_code c - 48)"
  by (induction xs arbitrary: acc) auto

lemma digits_value_to_string: "digits_value 0 (to_string_nat n) = n"
proof (induction n rule: to_string_nat.induct)
  case (1 n)
  show ?case
  proof (cases "n < 10")
    case True
    then show ?thesis by (simp add: to_string_nat.simps [of n] digit_char_code)
  next
    case False
    with "1" show ?thesis
      by (simp add: to_string_nat.simps [of n] digits_value_snoc digit_char_code)
  qed
qed

lemma strtol_digits_to_string:
  assumes "rest = [] \<or> \<not> is_digit (hd rest)"
  shows "strtol_digits (to_string_nat n @ rest) = Some n"
proof -
  have "takeWhile is_digit rest = []"
    using assms by (cases rest) auto
  then have "takeWhile is_digit (to_string_nat n @ rest) = to_string_nat n"
    by (simp add: takeWhile_append2 to_string_nat_digits)
  then show ?thesis
    by (simp add: strtol_digits_def Let_def digits_value_to_string)
qed

lemma is_digit_not_space_sign:
  "is_digit c \<Longrightarrow> \<not> isspace c \<and> c \<noteq> CHR ''-'' \<and> c \<noteq> CHR ''+''"
  by (auto simp: is_digit_def isspace_def)

lemma strtol_to_string_nat:
  assumes "rest = [] \<or> \<not> is_digit (hd rest)"
  shows "strtol (to_string_nat n @ rest) = Some (int n)"
proof -
  obtain c cs where c: "to_string_nat n = c # cs"
    by (cases "to_string_nat n") auto
  then have "is_digit c"
    using to_string_nat_digits [of c n] by simp
  with c strtol_digits_to_string [OF assms, of n] is_digit_not_space_sign [of c] show ?thesis
    by (simp add: strtol_def)
qed

lemma stoi_to_string_nat:
  "n < 2 ^ 31 \<Longrightarrow> rest = [] \<or> \<not> is_digit (hd rest) \<Longrightarrow> stoi (to_string_nat n @ rest) = Inr (int n)"
  by (simp add: stoi_def strtol_to_string_nat del: of_nat_power)

lemma stol_to_string_nat:
  "n < 2 ^ 63 \<Longrightarrow> rest = [] \<or> \<not> is_digit (hd rest) \<Longrightarrow> stol (to_string_nat n @ rest) = Inr (int n)"
  by (simp add: stol_def strtol_to_string_nat del: of_nat_power)

lemma stoul_to_string_nat: "n < 2 ^ 64 \<Longrightarrow> stoul (to_string_nat n) = Inr n"
  using strtol_to_string_nat [of "[]" n] by (simp add: stoul_def)

lemma to_string_nat_inject: "to_string_nat m = to_string_nat n \<longleftrightarrow> m = n"
  by (metis digits_value_to_string)

interpretation decimal: codec to_string_nat "\<lambda>s. map_option nat (strtol s)" "\<lambda>_. True"
  by unfold_locales (use strtol_to_string_nat [of "[]"] in simp)

end
