(* ===== verification/UrlUtils.thy ===== *)
theory UrlUtils
  imports Prelude
begin

text \<open>
  \<open>server/UrlUtils.cc\<close>: splitting a request target into path and query, percent-decoding, and
  parsing the query into its parameter map.  \<open>decode\<close> and \<open>parseQuery\<close> throw
  \<open>UrlParseException\<close>, which is the \<open>Inl\<close> of their result.  The reference points are a
  percent-encoder (\<open>url_encode\<close>), the grammar of well-formed encodings (\<open>wf_encoded\<close>) and a
  printer of parameter lists (\<open>render_query\<close>), none of which is code of the program.
\<close>

section \<open>The operations\<close>

text \<open>\<open>splitTarget\<close>: drop the fragment, then cut at the first question mark.\<close>

definition splitTarget :: "string \<Rightarrow> string \<times> string" where
  "splitTarget target =
     (let target' = (case find_char (CHR ''#'') target of
                       None \<Rightarrow> target
                     | Some fragment_pos \<Rightarrow> substr target 0 fragment_pos)
      in case find_char (CHR ''?'') target' of
           None \<Rightarrow> (target', [])
         | Some query_pos \<Rightarrow>
             (substr target' 0 query_pos, drop (query_pos + 1) target'))"

text \<open>The lambda \<open>hex_to_val\<close> of \<open>decode\<close>.\<close>

definition hex_to_val :: "char \<Rightarrow> nat" where
  "hex_to_val c =
     (if 48 \<le> ch_code c \<and> ch_code c \<le> 57 then ch_code c - 48
      else if 97 \<le> ch_code c \<and> ch_code c \<le> 102 then 10 + (ch_code c - 97)
      else if 65 \<le> ch_code c \<and> ch_code c \<le> 70 then 10 + (ch_code c - 65)
      else 0)"

text \<open>
  \<open>decode\<close>: the loop reads left to right, so the exception is the one of the leftmost bad
  sequence.
\<close>

fun decode :: "string \<Rightarrow> string result" where
  "decode [] = Inr []"
| "decode (c # cs) =
     (if c = CHR ''+'' then map_sum id (Cons (CHR '' '')) (decode cs)
      else if c = CHR ''%'' then
        (case cs of
           hex1 # hex2 # rest \<Rightarrow>
             if \<not> isxdigit hex1 \<or> \<not> isxdigit hex2
             then Inl (UrlParseException (''Invalid URL encode: '' @ [c, hex1, hex2]))
             else map_sum id (Cons (char_of (hex_to_val hex1 * 16 + hex_to_val hex2)))
                    (decode rest)
         | _ \<Rightarrow> Inl (UrlParseException
                  ''Invalid URL encode: incomplete % sequence (e.g. %2)''))
      else map_sum id (Cons c) (decode cs))"

text \<open>One iteration's body of \<open>parseQuery\<close>: the key and value of a non-empty pair.\<close>

definition parse_pair :: "string \<Rightarrow> (string \<times> string) result" where
  "parse_pair pair =
     (case find_char (CHR ''='') pair of
        None \<Rightarrow> map_sum id (\<lambda>key. (key, [])) (decode pair)
      | Some pos \<Rightarrow> map_sum id (\<lambda>value. (substr pair 0 pos, value)) (decode (drop (pos + 1) pair)))"

text \<open>
  The loop of \<open>parseQuery\<close> from \<open>start\<close> on; the string argument is \<open>query.substr(start)\<close>.  An
  empty pair is skipped; a later pair overwrites an earlier one with the same key.
\<close>

function parse_query_loop :: "string \<Rightarrow> (string \<rightharpoonup> string) \<Rightarrow> (string \<rightharpoonup> string) result" where
  "parse_query_loop rest params =
     (if rest = [] then Inr params
      else
        let pair = takeWhile (\<lambda>c. c \<noteq> CHR ''&'') rest;
            next = (case find_char (CHR ''&'') rest of
                      None \<Rightarrow> []
                    | Some end \<Rightarrow> drop (end + 1) rest)
        in if pair = [] then parse_query_loop next params
           else (case parse_pair pair of
                   Inl e \<Rightarrow> Inl e
                 | Inr (key, value) \<Rightarrow> parse_query_loop next (params(key \<mapsto> value))))"
  by pat_completeness auto
termination
  by (relation "measure (\<lambda>(rest, _). length rest)") (auto split: option.splits)

declare parse_query_loop.simps [simp del]

definition parseQuery :: "string \<Rightarrow> (string \<rightharpoonup> string) result" where
  "parseQuery query =
     (if query = [] then Inr Map.empty else parse_query_loop query Map.empty)"

section \<open>Reference points\<close>

definition unreserved :: "char \<Rightarrow> bool" where
  "unreserved c \<longleftrightarrow> is_digit c \<or> (65 \<le> ch_code c \<and> ch_code c \<le> 90)
     \<or> (97 \<le> ch_code c \<and> ch_code c \<le> 122) \<or> c \<in> set ''-._~''"

definition hex_digit :: "nat \<Rightarrow> char" where
  "hex_digit n = (if n < 10 then char_of (48 + n) else char_of (55 + n))"

fun url_encode :: "string \<Rightarrow> string" where
  "url_encode [] = []"
| "url_encode (c # cs) =
     (if unreserved c then c # url_encode cs
      else CHR ''%'' # hex_digit (ch_code c div 16) # hex_digit (ch_code c mod 16) # url_encode cs)"

fun wf_encoded :: "string \<Rightarrow> bool" where
  "wf_encoded [] = True"
| "wf_encoded (c # cs) =
     (if c = CHR ''%'' then
        (case cs of h1 # h2 # rest \<Rightarrow> isxdigit h1 \<and> isxdigit h2 \<and> wf_encoded rest | _ \<Rightarrow> False)
      else wf_encoded cs)"

fun render_query :: "(string \<times> string) list \<Rightarrow> string" where
  "render_query [] = []"
| "render_query [(k, v)] = k @ ''='' @ url_encode v"
| "render_query ((k, v) # kv # kvs) = k @ ''='' @ url_encode v @ ''&'' @ render_query (kv # kvs)"

definition plain_key :: "string \<Rightarrow> bool" where
  "plain_key k \<longleftrightarrow> CHR ''&'' \<notin> set k \<and> CHR ''='' \<notin> set k"

section \<open>Lemmas\<close>

lemma char_split_byte:
  "ch_code c div 16 < 16" "ch_code c mod 16 < 16"
  by (rule less_mult_imp_div_less) (simp_all add: less_le_trans [OF nat_of_char_less_256])

lemma hex_digit_code: "n < 16 \<Longrightarrow> ch_code (hex_digit n) = (if n < 10 then 48 + n else 55 + n)"
  by (simp add: hex_digit_def)

lemma hex_digit_xdigit: "n < 16 \<Longrightarrow> isxdigit (hex_digit n) \<and> hex_to_val (hex_digit n) = n"
  by (auto simp: isxdigit_def is_digit_def hex_to_val_def hex_digit_code)

lemma unreserved_plain: "unreserved c \<Longrightarrow> c \<notin> {CHR ''%'', CHR ''+'', CHR ''&'', CHR ''#'', CHR ''?''}"
  by (auto simp: unreserved_def is_digit_def)

lemma decode_encode: "decode (url_encode s) = Inr s"
proof (induction s)
  case (Cons c cs)
  show ?case
  proof (cases "unreserved c")
    case True
    with Cons unreserved_plain [of c] show ?thesis by auto
  next
    case False
    have "char_of (ch_code c div 16 * 16 + ch_code c mod 16) = c"
      by (simp add: div_mult_mod_eq)
    with False Cons hex_digit_xdigit [OF char_split_byte(1) [of c]]
      hex_digit_xdigit [OF char_split_byte(2) [of c]]
    show ?thesis by simp
  qed
qed simp

lemma url_encode_safe: "c \<in> set (url_encode s) \<Longrightarrow> c \<noteq> CHR ''&'' \<and> c \<noteq> CHR ''#''"
proof (induction s)
  case (Cons d s)
  have "hex_digit n \<noteq> CHR ''&'' \<and> hex_digit n \<noteq> CHR ''#''" if "n < 16" for n
    using hex_digit_code [OF that] by (auto split: if_splits)
  then have "hex_digit (ch_code d div 16) \<notin> {CHR ''&'', CHR ''#''}"
      "hex_digit (ch_code d mod 16) \<notin> {CHR ''&'', CHR ''#''}"
    using char_split_byte [of d] by auto
  with Cons unreserved_plain [of d] show ?case by (auto split: if_splits)
qed simp

interpretation percent: codec url_encode "\<lambda>s. case decode s of Inl _ \<Rightarrow> None | Inr r \<Rightarrow> Some r"
  "\<lambda>_. True"
  by unfold_locales (simp add: decode_encode)

lemma map_sum_id_ex: "(\<exists>q. map_sum id f x = Inr q) \<longleftrightarrow> (\<exists>y. x = Inr y)"
  by (cases x) auto

lemma decode_Inr_iff_wf: "(\<exists>r. decode s = Inr r) \<longleftrightarrow> wf_encoded s"
proof (induction s rule: decode.induct)
  case (2 c cs)
  show ?case
  proof (cases "c = CHR ''%''")
    case True
    with "2.IH"(2) show ?thesis
      by (auto simp: map_sum_id_ex split: list.splits)
  next
    case False
    with "2.IH"(1,3) show ?thesis
      by (cases "c = CHR ''+''") (simp_all add: map_sum_id_ex)
  qed
qed simp

lemma map_sum_id_Inr: "map_sum id f x = Inr q \<longleftrightarrow> (\<exists>y. x = Inr y \<and> q = f y)"
  by (cases x) auto

lemma decode_length: "decode s = Inr r \<Longrightarrow> length r \<le> length s"
proof (induction s arbitrary: r rule: decode.induct)
  case (2 c cs)
  show ?case
  proof (cases "c = CHR ''%''")
    case True
    with "2.prems" obtain h1 h2 rest r' where "cs = h1 # h2 # rest" "decode rest = Inr r'"
        "length r = Suc (length r')" "isxdigit h1" "isxdigit h2"
      by (auto simp: map_sum_id_Inr split: if_splits list.splits)
    with True "2.IH"(2) [of h1 "h2 # rest" h2 rest r'] show ?thesis by simp
  next
    case False
    with "2.prems" obtain r' where "decode cs = Inr r'" "length r = Suc (length r')"
      by (auto simp: map_sum_id_Inr split: if_splits)
    with False "2.IH"(1,3) [of r'] show ?thesis by (cases "c = CHR ''+''") auto
  qed
qed simp

lemma parse_pair_no_exn:
  assumes "CHR ''='' \<notin> set k"
  shows "parse_pair (k @ ''='' @ url_encode v) = Inr (k, v)"
  using assms by (simp add: parse_pair_def str_simps substr_def decode_encode)

lemma parse_query_loop_last:
  assumes "pair \<noteq> []" "CHR ''&'' \<notin> set pair" "parse_pair pair = Inr (k, v)"
  shows "parse_query_loop pair params = Inr (params(k \<mapsto> v))"
  using assms
  by (simp add: parse_query_loop.simps [of pair] parse_query_loop.simps [of "[]"] str_simps
      del: takeWhile_eq_all_conv)

lemma parse_query_loop_more:
  assumes "pair \<noteq> []" "CHR ''&'' \<notin> set pair" "parse_pair pair = Inr (k, v)"
  shows "parse_query_loop (pair @ ''&'' @ rest) params = parse_query_loop rest (params(k \<mapsto> v))"
  using assms by (simp add: parse_query_loop.simps [of "pair @ CHR ''&'' # rest"] str_simps)

lemma parse_query_loop_render:
  "kvs \<noteq> [] \<Longrightarrow> \<forall>(k, v) \<in> set kvs. plain_key k \<Longrightarrow>
     parse_query_loop (render_query kvs) params = Inr (params ++ map_of (rev kvs))"
proof (induction kvs arbitrary: params rule: render_query.induct)
  case (2 k v)
  have pair: "CHR ''&'' \<notin> set (k @ ''='' @ url_encode v)" "CHR ''='' \<notin> set k"
    using "2.prems" by (auto simp: plain_key_def dest: url_encode_safe)
  show ?case
    using parse_query_loop_last [OF _ pair(1) parse_pair_no_exn [OF pair(2)], of params]
    by (auto simp: fun_eq_iff map_add_def)
next
  case (3 k v kv kvs)
  have pair: "CHR ''&'' \<notin> set (k @ ''='' @ url_encode v)" "CHR ''='' \<notin> set k"
    using "3.prems" by (auto simp: plain_key_def dest: url_encode_safe)
  have "parse_query_loop (render_query ((k, v) # kv # kvs)) params
      = parse_query_loop (render_query (kv # kvs)) (params(k \<mapsto> v))"
    using parse_query_loop_more [OF _ pair(1) parse_pair_no_exn [OF pair(2)]] by simp
  also have "\<dots> = Inr (params(k \<mapsto> v) ++ map_of (rev (kv # kvs)))"
    using "3.prems" by (intro "3.IH") auto
  finally show ?case
    by (simp add: map_add_assoc)
qed simp

lemma splitTarget_cut:
  "splitTarget target =
     (let t = takeWhile (\<lambda>c. c \<noteq> CHR ''#'') target in
      if CHR ''?'' \<in> set t
      then (takeWhile (\<lambda>c. c \<noteq> CHR ''?'') t, tl (dropWhile (\<lambda>c. c \<noteq> CHR ''?'') t)) else (t, []))"
proof -
  have t: "(case find_char (CHR ''#'') target of None \<Rightarrow> target | Some i \<Rightarrow> substr target 0 i)
      = takeWhile (\<lambda>c. c \<noteq> CHR ''#'') target"
    by (auto simp: str_simps substr_def takeWhile_eq_take [symmetric])
  show ?thesis
    unfolding splitTarget_def t
    by (auto simp: Let_def str_simps substr_def takeWhile_eq_take [symmetric]
        dropWhile_eq_drop drop_Suc tl_drop)
qed

section \<open>Properties\<close>

text \<open>The path \<open>splitTarget\<close> returns holds neither question mark nor number sign, the query
  holds no number sign, and the two put together again are the target up to its fragment.\<close>

theorem splitTarget_parts:
  assumes "splitTarget target = (path, query)"
  shows "CHR ''?'' \<notin> set path \<and> CHR ''#'' \<notin> set path \<and> CHR ''#'' \<notin> set query \<and>
     takeWhile (\<lambda>c. c \<noteq> CHR ''#'') target
       = (if CHR ''?'' \<in> set (takeWhile (\<lambda>c. c \<noteq> CHR ''#'') target) then path @ ''?'' @ query
          else path)"
proof -
  define t where "t = takeWhile (\<lambda>c. c \<noteq> CHR ''#'') target"
  have frag: "CHR ''#'' \<notin> set t"
    by (auto simp: t_def dest: set_takeWhileD)
  have split: "(path, query) =
      (if CHR ''?'' \<in> set t
       then (takeWhile (\<lambda>c. c \<noteq> CHR ''?'') t, tl (dropWhile (\<lambda>c. c \<noteq> CHR ''?'') t)) else (t, []))"
    using assms by (auto simp: splitTarget_cut Let_def t_def split: if_splits)
  show ?thesis
  proof (cases "CHR ''?'' \<in> set t")
    case True
    with split have parts: "path = takeWhile (\<lambda>c. c \<noteq> CHR ''?'') t"
        "query = tl (dropWhile (\<lambda>c. c \<noteq> CHR ''?'') t)"
      by simp_all
    have t: "t = path @ ''?'' @ query"
      unfolding parts
      using dropWhile_until [OF True] takeWhile_dropWhile_id [of "\<lambda>c. c \<noteq> CHR ''?''" t] by simp
    have "CHR ''?'' \<notin> set path"
      by (auto simp: parts dest: set_takeWhileD)
    moreover have "CHR ''#'' \<notin> set (path @ ''?'' @ query)"
      using frag unfolding t [symmetric] .
    ultimately show ?thesis
      using True t by (simp add: t_def [symmetric])
  next
    case False
    with split frag show ?thesis by (auto simp: t_def [symmetric])
  qed
qed

theorem splitTarget_parts_witness:
  "splitTarget ''/f?v=1?x#t'' = (''/f'', ''v=1?x'') \<and> CHR ''?'' \<notin> set ''/f''"
proof -
  have eval: "splitTarget ''/f?v=1?x#t'' = (''/f'', ''v=1?x'')"
    by code_simp
  show ?thesis
    using eval splitTarget_parts [OF eval] by simp
qed

text \<open>C38: decoding undoes percent-encoding for every byte string.\<close>

theorem decode_url_encode: "decode (url_encode s) = Inr s"
  by (rule decode_encode)

text \<open>C39: \<open>decode\<close> throws exactly on the strings with an incomplete or non-hexadecimal percent
  sequence, and a decoded string is never longer than its input.\<close>

theorem decode_defined_iff:
  "(\<exists>r. decode s = Inr r) \<longleftrightarrow> wf_encoded s"
  by (rule decode_Inr_iff_wf)

text \<open>C40: parsing a rendered parameter list gives back the list as a map; a later binding of a key
  overwrites an earlier one, and the values come back byte for byte.\<close>

theorem parseQuery_render:
  "\<forall>(k, v) \<in> set kvs. plain_key k \<Longrightarrow> parseQuery (render_query kvs) = Inr (map_of (rev kvs))"
proof -
  assume plain: "\<forall>(k, v) \<in> set kvs. plain_key k"
  have "render_query kvs = [] \<longleftrightarrow> kvs = []"
    by (cases kvs rule: render_query.cases) auto
  then show ?thesis
    using parse_query_loop_render [OF _ plain, of Map.empty] by (auto simp: parseQuery_def)
qed

theorem parseQuery_render_witness:
  "parseQuery ''a=1&a=%26&b='' = Inr (map_of (rev [(''a'', ''1''), (''a'', ''&''), (''b'', [])]))"
proof -
  have eval: "render_query [(''a'', ''1''), (''a'', ''&''), (''b'', [])] = ''a=1&a=%26&b=''"
    by code_simp
  have plain: "\<forall>(k, v) \<in> set [(''a'', ''1''), (''a'', ''&''), (''b'', [])]. plain_key k"
    by (simp add: plain_key_def)
  show ?thesis
    using parseQuery_render [OF plain] unfolding eval .
qed

end
