(* ===== verification/Utils.thy ===== *)
theory Utils
  imports UrlUtils
begin

unbundle bit_operations_syntax

text \<open>
  \<open>common/util.h\<close> and \<open>common/Timestamp\<close>: the hexadecimal digits, a second percent-decoder, the
  names of the HTTP verbs, and the 64-bit byte-order conversions, at their widths.  An \<open>assert\<close>
  that fails is \<open>None\<close>.  The 32-bit conversions call \<open>htonl\<close> and \<open>ntohl\<close> of the platform and are
  not modelled.
\<close>

section \<open>The operations\<close>

definition ToHex :: "8 word \<Rightarrow> 8 word" where
  "ToHex x = (if x > 9 then x + 55 else x + 48)"

definition FromHex :: "8 word \<Rightarrow> 8 word option" where
  "FromHex x =
     (if x \<ge> 65 \<and> x \<le> 90 then Some (x - 65 + 10)
      else if x \<ge> 97 \<and> x \<le> 122 then Some (x - 97 + 10)
      else if x \<ge> 48 \<and> x \<le> 57 then Some (x - 48)
      else None)"

abbreviation byte_of :: "char \<Rightarrow> 8 word" where
  "byte_of c \<equiv> of_char c"

text \<open>\<open>high * 16 + low\<close> is an \<open>int\<close>, and \<open>+=\<close> on the string keeps its low eight bits.\<close>

fun UrlDecode :: "string \<Rightarrow> string option" where
  "UrlDecode [] = Some []"
| "UrlDecode (c # cs) =
     (if c = CHR ''+'' then map_option (Cons (CHR '' '')) (UrlDecode cs)
      else if c = CHR ''%'' then
        (case cs of
           a # b # rest \<Rightarrow>
             (case (FromHex (byte_of a), FromHex (byte_of b)) of
                (Some high, Some low) \<Rightarrow>
                  map_option (Cons (char_of (unat high * 16 + unat low))) (UrlDecode rest)
              | _ \<Rightarrow> None)
         | _ \<Rightarrow> None)
      else map_option (Cons c) (UrlDecode cs))"

text \<open>\<open>http::verb\<close>: the verbs the code names, and the remaining ones by number.\<close>

datatype verb = Verb_get | Verb_post | Verb_put | Verb_delete | Verb_head | Verb_other nat

fun VerbToString :: "verb \<Rightarrow> string" where
  "VerbToString Verb_get = ''GET''"
| "VerbToString Verb_post = ''POST''"
| "VerbToString Verb_put = ''PUT''"
| "VerbToString Verb_delete = ''DELETE''"
| "VerbToString Verb_head = ''HEAD''"
| "VerbToString (Verb_other _) = ''UNKNOWN''"

text \<open>The two loops \<open>for (int i = 0; i < 8; ++i)\<close>.\<close>

text \<open>\<open>htonl\<close> and \<open>ntohl\<close> reverse the four bytes on a little-endian host.\<close>

definition swap32 :: "32 word \<Rightarrow> 32 word" where
  "swap32 val = fold (\<lambda>i res. push_bit 8 res OR (drop_bit (i * 8) val AND 0xFF)) [0..<4] 0"

definition host_to_net32 :: "32 word \<Rightarrow> 32 word" where
  "host_to_net32 val = swap32 val"

definition net_to_host32 :: "32 word \<Rightarrow> 32 word" where
  "net_to_host32 val = swap32 val"

definition host_to_net64 :: "64 word \<Rightarrow> 64 word" where
  "host_to_net64 val =
     fold (\<lambda>i res. push_bit 8 res OR (drop_bit (i * 8) val AND 0xFF)) [0..<8] 0"

definition net_to_host64 :: "64 word \<Rightarrow> 64 word" where
  "net_to_host64 val =
     fold (\<lambda>i res. push_bit 8 res OR (drop_bit ((7 - i) * 8) val AND 0xFF)) [0..<8] 0"

text \<open>\<open>time_t\<close> is a 64-bit integer; both casts keep the bits.\<close>

definition time_to_net :: "64 word \<Rightarrow> 64 word" where
  "time_to_net val = host_to_net64 val"

definition net_to_time :: "64 word \<Rightarrow> 64 word" where
  "net_to_time val = net_to_host64 val"

text \<open>\<open>Timestamp::now\<close> on the seconds and microseconds \<open>gettimeofday\<close> reports.\<close>

definition kMicroSecondsPerSecond :: int where
  "kMicroSecondsPerSecond = 1000 * 1000"

definition Timestamp_now :: "int \<Rightarrow> int \<Rightarrow> int" where
  "Timestamp_now tv_sec tv_usec = tv_sec * kMicroSecondsPerSecond + tv_usec"

section \<open>Lemmas\<close>

lemma upt_8: "[0..<8] = [0, 1, 2, 3, 4, 5, 6, 7::nat]"
  by (simp add: upt_rec)

lemma and_ff: "x AND 0xFF = take_bit 8 x" for x :: "'a :: len word"
  by (simp add: take_bit_eq_mask mask_eq_exp_minus_1)

lemma upt_4: "[0..<4] = [0, 1, 2, 3]"
  by (simp add: upt_rec)

lemmas byte_order_unfold = upt_8 and_ff upt_4

text \<open>Bit \<open>n\<close> of the swapped value is the bit at the same place of the mirrored byte.\<close>

lemma bit_host_to_net64:
  "bit (host_to_net64 v) n \<longleftrightarrow> n < 64 \<and> bit v (8 * (7 - n div 8) + n mod 8)"
proof (cases "n < 64")
  case True
  define q r where "q = n div 8" and "r = n mod 8"
  have n: "n = 8 * q + r" "r < 8" "q < 8"
    using True by (auto simp: q_def r_def)
  then consider "q = 0" | "q = 1" | "q = 2" | "q = 3" | "q = 4" | "q = 5" | "q = 6" | "q = 7"
    by linarith
  then have "bit (host_to_net64 v) (8 * q + r) = bit v (8 * (7 - q) + r)"
    using n(2) by cases (auto simp: host_to_net64_def byte_order_unfold bit_simps)
  then show ?thesis
    using True by (simp add: q_def r_def)
next
  case False
  then show ?thesis
    by (auto simp: host_to_net64_def byte_order_unfold bit_simps)
qed

lemma bit_swap32: "bit (swap32 v) n \<longleftrightarrow> n < 32 \<and> bit v (8 * (3 - n div 8) + n mod 8)"
proof (cases "n < 32")
  case True
  define q r where "q = n div 8" and "r = n mod 8"
  have n: "n = 8 * q + r" "r < 8" "q < 4"
    using True by (auto simp: q_def r_def)
  then consider "q = 0" | "q = 1" | "q = 2" | "q = 3"
    by linarith
  then have "bit (swap32 v) (8 * q + r) = bit v (8 * (3 - q) + r)"
    using n(2) by cases (auto simp: swap32_def byte_order_unfold bit_simps)
  then show ?thesis
    using True by (simp add: q_def r_def)
next
  case False
  then show ?thesis by (auto simp: swap32_def byte_order_unfold bit_simps)
qed

lemma net_host_32: "net_to_host32 (host_to_net32 v) = v"
proof (rule bit_word_eqI)
  fix n assume "n < LENGTH(32)"
  then have n: "n < 32" by simp
  then have "8 * (3 - n div 8) + n mod 8 < 32" "(8 * (3 - n div 8) + n mod 8) div 8 = 3 - n div 8"
    by auto
  with n show "bit (net_to_host32 (host_to_net32 v)) n = bit v n"
    by (simp add: net_to_host32_def host_to_net32_def bit_swap32)
qed

interpretation byte_swap32: codec host_to_net32 "\<lambda>w. Some (net_to_host32 w)" "\<lambda>_. True"
  by unfold_locales (simp add: net_host_32)

lemma shift_in_byte:
  "push_bit 8 (drop_bit (m + 8) v) OR take_bit 8 (drop_bit m v) = drop_bit m v" for v :: "64 word"
  by (rule bit_word_eqI) (auto simp: bit_simps not_le)

lemma net_to_host64_id: "net_to_host64 v = v"
proof -
  have top: "drop_bit (56 + 8) v = 0"
    by (rule bit_word_eqI) (auto simp: bit_simps dest: bit_imp_le_length)
  show ?thesis
    using top shift_in_byte [of 56 v] shift_in_byte [of 48 v] shift_in_byte [of 40 v]
      shift_in_byte [of 32 v] shift_in_byte [of 24 v] shift_in_byte [of 16 v]
      shift_in_byte [of 8 v] shift_in_byte [of 0 v]
    by (simp add: net_to_host64_def byte_order_unfold)
qed

lemma host_to_net64_invol: "host_to_net64 (host_to_net64 v) = v"
proof (rule bit_word_eqI)
  fix n assume "n < LENGTH(64)"
  then have n: "n < 64" by simp
  then have "8 * (7 - n div 8) + n mod 8 < 64" "(8 * (7 - n div 8) + n mod 8) div 8 = 7 - n div 8"
    by auto
  with n show "bit (host_to_net64 (host_to_net64 v)) n = bit v n"
    by (simp add: bit_host_to_net64)
qed

interpretation byte_swap: codec host_to_net64 "\<lambda>w. Some (host_to_net64 w)" "\<lambda>_. True"
  by unfold_locales (simp add: host_to_net64_invol)

lemma byte_of_nat: "byte_of c = word_of_nat (ch_code c)"
  by (rule of_nat_of_char [symmetric])

lemma word8_le_iff: "n < 256 \<Longrightarrow> m < 256 \<Longrightarrow> (word_of_nat n :: 8 word) \<le> word_of_nat m \<longleftrightarrow> n \<le> m"
  by (simp add: word_le_nat_alt unat_of_nat)

lemma FromHex_isxdigit:
  assumes "isxdigit c"
  shows "\<exists>d. FromHex (byte_of c) = Some d \<and> unat d = hex_to_val c"
proof -
  define n where "n = ch_code c"
  have n: "n < 256" by (simp add: n_def)
  have le: "word_of_nat n \<le> (numeral k :: 8 word) \<longleftrightarrow> n \<le> numeral k"
      "(numeral k :: 8 word) \<le> word_of_nat n \<longleftrightarrow> numeral k \<le> n" if "numeral k < (256::nat)" for k
    using word8_le_iff [OF n that] word8_le_iff [OF that n] by simp_all
  have sub: "word_of_nat n - numeral k = (word_of_nat (n - numeral k) :: 8 word)" if "numeral k \<le> n" for k
    using that by simp
  show ?thesis
    using assms n
    by (auto simp: FromHex_def hex_to_val_def byte_of_nat isxdigit_def is_digit_def n_def [symmetric]
        le unat_of_nat unat_word_ariths sub simp del: of_nat_diff)
qed

lemma UrlDecode_agrees: "decode s = Inr r \<Longrightarrow> UrlDecode s = Some r"
proof (induction s arbitrary: r rule: decode.induct)
  case (2 c cs)
  show ?case
  proof (cases "c = CHR ''%''")
    case True
    with "2.prems" obtain h1 h2 rest r' where cs: "cs = h1 # h2 # rest" "isxdigit h1" "isxdigit h2"
        and r: "decode rest = Inr r'" "r = char_of (hex_to_val h1 * 16 + hex_to_val h2) # r'"
      by (auto simp: map_sum_id_Inr split: if_splits list.splits)
    have "UrlDecode rest = Some r'"
      using "2.IH"(2) [of h1 "h2 # rest" h2 rest r'] True cs r by simp
    with True cs r FromHex_isxdigit [OF cs(2)] FromHex_isxdigit [OF cs(3)] show ?thesis
      by auto
  next
    case False
    with "2.prems" obtain r' where r: "decode cs = Inr r'"
        "r = (if c = CHR ''+'' then CHR '' '' else c) # r'"
      by (auto simp: map_sum_id_Inr split: if_splits)
    with False "2.IH"(1,3) [of r'] show ?thesis by (cases "c = CHR ''+''") auto
  qed
qed simp

section \<open>Properties\<close>

text \<open>\<open>host_to_net64\<close> reverses the eight bytes of its argument, so applying it twice gives the
  value back.\<close>

theorem host_to_net64_involution:
  "host_to_net64 (host_to_net64 v) = v \<and>
   (bit (host_to_net64 v) n \<longleftrightarrow> n < 64 \<and> bit v (8 * (7 - n div 8) + n mod 8))"
  by (simp add: host_to_net64_invol bit_host_to_net64)

text \<open>\<open>net_to_host64\<close> is the identity, so it does not undo \<open>host_to_net64\<close>, and a time sent
  with \<open>time_to_net\<close> is read back by \<open>net_to_time\<close> only when its bytes are a palindrome.\<close>

theorem net_to_host64_identity:
  "net_to_host64 v = v \<and> (net_to_time (time_to_net t) = t \<longleftrightarrow> host_to_net64 t = t) \<and>
   net_to_time (time_to_net 1) = 0x0100000000000000"
proof -
  have "host_to_net64 1 = 0x0100000000000000"
    by (simp add: host_to_net64_def byte_order_unfold)
  then show ?thesis
    by (simp add: net_to_time_def time_to_net_def net_to_host64_id)
qed

text \<open>The percent-decoder of \<open>common/util.h\<close> agrees with \<open>UrlUtils::decode\<close> wherever the
  latter does not throw; on a sequence such as \<open>%GZ\<close> it returns a byte where \<open>decode\<close> throws.\<close>

theorem UrlDecode_extends_decode:
  "(\<forall>r. decode s = Inr r \<longrightarrow> UrlDecode s = Some r) \<and>
   (\<nexists>r. decode ''%GZ'' = Inr r) \<and> UrlDecode ''%GZ'' = Some [char_of (16 * 16 + 35 :: nat)]"
proof -
  have "UrlDecode ''%GZ'' = Some [char_of (16 * 16 + 35 :: nat)]"
    by (simp add: FromHex_def)
  moreover have "\<nexists>r. decode ''%GZ'' = Inr r"
    by (simp add: isxdigit_def is_digit_def)
  ultimately show ?thesis
    by (simp add: UrlDecode_agrees del: UrlDecode.simps decode.simps)
qed

theorem UrlDecode_extends_decode_witness:
  "decode ''a+%2Fb'' = Inr ''a /b'' \<and> UrlDecode ''a+%2Fb'' = Some ''a /b''"
proof -
  have "decode ''a+%2Fb'' = Inr ''a /b''"
    by code_simp
  then show ?thesis
    using UrlDecode_extends_decode [of "''a+%2Fb''"] by blast
qed

end
