(* ===== verification/LevelDB.thy ===== *)
theory LevelDB
  imports Prelude
begin

text \<open>
  The interface of LevelDB as the metadata store uses it.  LevelDB is a library the repository
  only calls, so its operations are a parameter (\<open>leveldb_api\<close>) of every definition that calls
  them, and what the store relies on is the locale \<open>leveldb\<close>: the documented behaviour of \<open>Get\<close>,
  \<open>Put\<close>, \<open>Write\<close> and of iterators over keys in bytewise order.  The loops over an iterator share
  one definition, \<open>while_valid\<close>, whose laws are proved once inside the locale.  The log-structured
  reference store at the end shows that the contract can be met.
\<close>

section \<open>The operations the code calls\<close>

datatype write_op = Put string string | Delete string

record ('db, 'it) leveldb_api =
  db_Get :: "'db \<Rightarrow> string \<Rightarrow> string option"
  db_Put :: "'db \<Rightarrow> string \<Rightarrow> string \<Rightarrow> bool \<times> 'db"
  db_Write :: "'db \<Rightarrow> write_op list \<Rightarrow> bool \<times> 'db"
  db_NewIterator :: "'db \<Rightarrow> 'it"
  it_Seek :: "'it \<Rightarrow> string \<Rightarrow> 'it"
  it_SeekToFirst :: "'it \<Rightarrow> 'it"
  it_SeekToLast :: "'it \<Rightarrow> 'it"
  it_Next :: "'it \<Rightarrow> 'it"
  it_Prev :: "'it \<Rightarrow> 'it"
  it_Valid :: "'it \<Rightarrow> bool"
  it_key :: "'it \<Rightarrow> string"
  it_value :: "'it \<Rightarrow> string"

text \<open>
  \<open>while (it->Valid()) body\<close>, where the body moves the iterator itself, or does not, and answers \<open>True\<close> to
  leave the loop.  The iterator is a parameter, so the loop may not end: \<open>None\<close>.  A loop
  \<open>for (; it->Valid(); move(it)) body\<close> is the one whose body is followed by the move.
\<close>

partial_function (option) while_valid ::
  "('db, 'it) leveldb_api \<Rightarrow> ('it \<Rightarrow> 'acc \<Rightarrow> bool \<times> 'it \<times> 'acc) \<Rightarrow> 'it \<Rightarrow> 'acc \<Rightarrow> 'acc option" where
  "while_valid D body it acc =
     (if it_Valid D it
      then (case body it acc of
              (stop, it', acc') \<Rightarrow> if stop then Some acc' else while_valid D body it' acc')
      else Some acc)"

definition for_valid ::
  "('db, 'it) leveldb_api \<Rightarrow> ('it \<Rightarrow> 'it) \<Rightarrow> (string \<Rightarrow> string \<Rightarrow> 'acc \<Rightarrow> bool \<times> 'acc) \<Rightarrow>
     'it \<Rightarrow> 'acc \<Rightarrow> 'acc option" where
  "for_valid D move body = while_valid D (\<lambda>it acc.
     case body (it_key D it) (it_value D it) acc of (stop, acc') \<Rightarrow> (stop, move it, acc'))"

section \<open>The contract\<close>

text \<open>The effect of a write batch on the contents: its operations in order.\<close>

fun apply_op :: "write_op \<Rightarrow> (string \<rightharpoonup> string) \<Rightarrow> (string \<rightharpoonup> string)" where
  "apply_op (Put k v) m = m(k \<mapsto> v)"
| "apply_op (Delete k) m = m(k := None)"

definition apply_batch :: "write_op list \<Rightarrow> (string \<rightharpoonup> string) \<Rightarrow> (string \<rightharpoonup> string)" where
  "apply_batch ops m = fold apply_op ops m"

text \<open>The loop over the entries still ahead of the iterator.\<close>

fun scan :: "(string \<Rightarrow> string \<Rightarrow> 'acc \<Rightarrow> bool \<times> 'acc) \<Rightarrow> (string \<times> string) list \<Rightarrow> 'acc \<Rightarrow> 'acc" where
  "scan body [] acc = acc"
| "scan body ((k, v) # es) acc =
     (case body k v acc of (stop, acc') \<Rightarrow> if stop then acc' else scan body es acc')"

text \<open>
  \<open>entries\<close> lists the database in key order, \<open>view\<close> is the snapshot an iterator walks and \<open>cursor\<close>
  its position there, equal to the length when the iterator is not valid.  A write that reports
  failure has been applied completely or not at all.
\<close>

locale leveldb =
  fixes D :: "('db, 'it) leveldb_api"
    and entries :: "'db \<Rightarrow> (string \<times> string) list"
    and view :: "'it \<Rightarrow> (string \<times> string) list"
    and cursor :: "'it \<Rightarrow> nat"
  assumes entries_sorted: "sorted_wrt (<) (map fst (entries db))"
    and get: "db_Get D db k = map_of (entries db) k"
    and put: "map_of (entries (snd (db_Put D db k v)))
        \<in> (if fst (db_Put D db k v) then {} else {map_of (entries db)})
          \<union> {(map_of (entries db))(k \<mapsto> v)}"
    and write_batch: "map_of (entries (snd (db_Write D db ops)))
        \<in> (if fst (db_Write D db ops) then {} else {map_of (entries db)})
          \<union> {apply_batch ops (map_of (entries db))}"
    and view_new: "view (db_NewIterator D db) = entries db"
    and view_move: "view (it_Seek D it k) = view it" "view (it_SeekToFirst D it) = view it"
      "view (it_SeekToLast D it) = view it" "view (it_Next D it) = view it"
      "view (it_Prev D it) = view it"
    and valid: "it_Valid D it \<longleftrightarrow> cursor it < length (view it)"
    and seek: "cursor (it_Seek D it k) = length (takeWhile (\<lambda>e. fst e < k) (view it))"
    and seek_first: "cursor (it_SeekToFirst D it) = 0"
    and seek_last: "cursor (it_SeekToLast D it) = length (view it) - 1"
    and next_cursor: "it_Valid D it \<Longrightarrow> cursor (it_Next D it) = Suc (cursor it)"
    and prev_cursor: "it_Valid D it \<Longrightarrow>
      cursor (it_Prev D it) = (if cursor it = 0 then length (view it) else cursor it - 1)"
    and key_at: "it_Valid D it \<Longrightarrow> it_key D it = fst (view it ! cursor it)"
    and value_at: "it_Valid D it \<Longrightarrow> it_value D it = snd (view it ! cursor it)"
begin

abbreviation contents :: "'db \<Rightarrow> (string \<rightharpoonup> string)" where
  "contents db \<equiv> map_of (entries db)"

lemma write_ok: "db_Write D db ops = (True, db') \<Longrightarrow> contents db' = apply_batch ops (contents db)"
  using write_batch [of db ops] by simp

lemma write_fail: "db_Write D db ops = (False, db') \<Longrightarrow>
    contents db' = contents db \<or> contents db' = apply_batch ops (contents db)"
  using write_batch [of db ops] by auto

lemma put_ok: "db_Put D db k v = (True, db') \<Longrightarrow> contents db' = (contents db)(k \<mapsto> v)"
  using put [of db k v] by simp

text \<open>
  A body that does \<open>turn\<close> to the accumulator and moves forward, unless it leaves the loop: the loop ends
  and scans the rest of the snapshot.
\<close>

definition moves :: "('it \<Rightarrow> 'it) \<Rightarrow> ('it \<Rightarrow> 'acc \<Rightarrow> bool \<times> 'it \<times> 'acc) \<Rightarrow> (string \<Rightarrow> string \<Rightarrow> 'acc \<Rightarrow> bool \<times> 'acc) \<Rightarrow> bool" where
  "moves move body turn \<longleftrightarrow> (\<forall>it acc. it_Valid D it \<longrightarrow>
     (case body it acc of (stop, it', acc') \<Rightarrow>
        turn (it_key D it) (it_value D it) acc = (stop, acc') \<and> (stop \<or> it' = move it)))"

lemma movesD:
  assumes "moves move body turn" "it_Valid D it"
  obtains stop it' acc' where "body it acc = (stop, it', acc')" "turn (it_key D it) (it_value D it) acc = (stop, acc')"
    "\<not> stop \<Longrightarrow> it' = move it"
proof -
  obtain stop it' acc' where b: "body it acc = (stop, it', acc')" by (cases "body it acc")
  have "turn (it_key D it) (it_value D it) acc = (stop, acc') \<and> (stop \<or> it' = move it)"
    using assms(1) [unfolded moves_def, rule_format, OF assms(2), of acc] b by simp
  with b show thesis using that [of stop it' acc'] by blast
qed

lemma while_valid_next:
  assumes "moves (it_Next D) body turn"
  shows "while_valid D body it acc = Some (scan turn (drop (cursor it) (view it)) acc)"
proof (induction "length (view it) - cursor it" arbitrary: it acc)
  case 0
  then show ?case
    by (simp add: while_valid.simps [of D body it] valid)
next
  case (Suc n)
  then have v: "it_Valid D it" and lt: "cursor it < length (view it)"
    by (auto simp: valid)
  have "n = length (view (it_Next D it)) - cursor (it_Next D it)"
    using Suc.hyps(2) v by (simp add: view_move next_cursor)
  note IH = Suc.hyps(1) [OF this]
  have d: "drop (cursor it) (view it)
      = (it_key D it, it_value D it) # drop (Suc (cursor it)) (view it)"
    using lt v by (simp add: key_at value_at Cons_nth_drop_Suc)
  show ?case
    by (rule movesD [OF assms v, of acc])
      (use v in \<open>simp add: while_valid.simps [of D body it] d IH view_move next_cursor\<close>)
qed

text \<open>The same backwards: the loop scans the snapshot from the iterator down to its start.\<close>

lemma while_valid_prev:
  assumes "moves (it_Prev D) body turn"
  shows "it_Valid D it \<Longrightarrow>
     while_valid D body it acc = Some (scan turn (rev (take (Suc (cursor it)) (view it))) acc)"
proof (induction "cursor it" arbitrary: it acc)
  case 0
  then have lt: "0 < length (view it)" and nv: "\<not> it_Valid D (it_Prev D it)"
    by (auto simp: valid prev_cursor view_move)
  have t: "take (Suc 0) (view it) = [(it_key D it, it_value D it)]"
    using lt 0 by (simp add: key_at value_at take_Suc_conv_app_nth)
  show ?case
    by (rule movesD [OF assms 0(2), of acc])
      (use 0 nv t in \<open>simp add: while_valid.simps [of D body it] while_valid.simps [of D body "it_Prev D it"]\<close>)
next
  case (Suc n)
  have c: "n = cursor (it_Prev D it)" and v': "it_Valid D (it_Prev D it)"
    using Suc.hyps(2) Suc.prems by (simp_all add: prev_cursor valid view_move)
  note IH = Suc.hyps(1) [OF c v']
  have t: "take (Suc (cursor it)) (view it) = take (cursor it) (view it) @ [(it_key D it, it_value D it)]"
    using Suc.prems by (simp add: key_at value_at take_Suc_conv_app_nth valid)
  show ?case
    by (rule movesD [OF assms Suc.prems, of acc])
      (use Suc.prems Suc.hyps(2) c t in \<open>simp add: while_valid.simps [of D body it] IH view_move\<close>)
qed

lemma for_valid_next: "for_valid D (it_Next D) body it acc = Some (scan body (drop (cursor it) (view it)) acc)"
  unfolding for_valid_def by (rule while_valid_next) (auto simp: moves_def split: prod.splits)

end

section \<open>A store that meets the contract\<close>

text \<open>The state is the log of all operations; the entries are its replay in key order.\<close>

fun ins_entry :: "string \<Rightarrow> string \<Rightarrow> (string \<times> string) list \<Rightarrow> (string \<times> string) list" where
  "ins_entry k v [] = [(k, v)]"
| "ins_entry k v ((k', v') # es) =
     (if k < k' then (k, v) # (k', v') # es
      else if k = k' then (k, v) # es else (k', v') # ins_entry k v es)"

definition del_entry :: "string \<Rightarrow> (string \<times> string) list \<Rightarrow> (string \<times> string) list" where
  "del_entry k es = filter (\<lambda>e. fst e \<noteq> k) es"

fun replay_op :: "write_op \<Rightarrow> (string \<times> string) list \<Rightarrow> (string \<times> string) list" where
  "replay_op (Put k v) es = ins_entry k v es"
| "replay_op (Delete k) es = del_entry k es"

definition log_entries :: "write_op list \<Rightarrow> (string \<times> string) list" where
  "log_entries ops = fold replay_op ops []"

definition log_db :: "(write_op list, (string \<times> string) list \<times> nat) leveldb_api" where
  "log_db = \<lparr>
     db_Get = (\<lambda>db k. map_of (log_entries db) k),
     db_Put = (\<lambda>db k v. (True, db @ [Put k v])),
     db_Write = (\<lambda>db ops. (True, db @ ops)),
     db_NewIterator = (\<lambda>db. (log_entries db, length (log_entries db))),
     it_Seek = (\<lambda>(es, _) k. (es, length (takeWhile (\<lambda>e. fst e < k) es))),
     it_SeekToFirst = (\<lambda>(es, _). (es, 0)),
     it_SeekToLast = (\<lambda>(es, _). (es, length es - 1)),
     it_Next = (\<lambda>(es, i). (es, Suc i)),
     it_Prev = (\<lambda>(es, i). (es, if i = 0 then length es else i - 1)),
     it_Valid = (\<lambda>(es, i). i < length es),
     it_key = (\<lambda>(es, i). fst (es ! i)),
     it_value = (\<lambda>(es, i). snd (es ! i)) \<rparr>"

lemma set_ins_entry: "fst ` set (ins_entry k v es) = insert k (fst ` set es)"
  by (induction k v es rule: ins_entry.induct) auto

lemma ins_entry_sorted: "sorted_wrt (<) (map fst es) \<Longrightarrow> sorted_wrt (<) (map fst (ins_entry k v es))"
proof (induction k v es rule: ins_entry.induct)
  case (2 k v k' v' es)
  have "x \<in> insert k (fst ` set es)" if "x \<in> fst ` set (ins_entry k v es)" for x
    using that by (simp add: set_ins_entry)
  with 2 show ?case by (fastforce dest: less_trans)
qed simp

lemma ins_entry_map_of: "map_of (ins_entry k v es) = (map_of es)(k \<mapsto> v)"
  by (induction k v es rule: ins_entry.induct) (auto simp: fun_eq_iff)

lemma del_entry_map_of: "map_of (del_entry k es) = (map_of es)(k := None)"
  by (induction es) (auto simp: del_entry_def fun_eq_iff)

lemma del_entry_sorted: "sorted_wrt (<) (map fst es) \<Longrightarrow> sorted_wrt (<) (map fst (del_entry k es))"
  by (induction es) (auto simp: del_entry_def)

lemma replay_op_sorted: "sorted_wrt (<) (map fst es) \<Longrightarrow> sorted_wrt (<) (map fst (replay_op p es))"
  by (cases p) (auto intro: ins_entry_sorted del_entry_sorted)

interpretation replay: invariant_machine replay_op "\<lambda>es. sorted_wrt (<) (map fst es)"
  by unfold_locales (rule replay_op_sorted)

lemma log_entries_sorted: "sorted_wrt (<) (map fst (log_entries ops))"
  unfolding log_entries_def by (rule replay.run_invar) simp

lemma replay_op_map_of: "map_of (replay_op p es) = apply_op p (map_of es)"
  by (cases p) (auto simp: ins_entry_map_of del_entry_map_of)

lemma log_entries_append: "map_of (log_entries (db @ ops)) = apply_batch ops (map_of (log_entries db))"
proof -
  have "map_of (fold replay_op ops es) = fold apply_op ops (map_of es)" for es
    by (induction ops arbitrary: es) (simp_all add: replay_op_map_of)
  then show ?thesis
    by (simp add: log_entries_def apply_batch_def)
qed

interpretation log_store: leveldb log_db log_entries fst snd
  by unfold_locales
    (auto simp: log_db_def log_entries_sorted log_entries_append apply_batch_def
      log_entries_append [of _ "[_]"])

end
