(* ===== verification/Json.thy ===== *)
theory Json
  imports Prelude Complex_Main
begin

text \<open>
  JSON values as the metadata store exchanges them with nlohmann/json.  The library's \<open>dump\<close> and
  \<open>parse\<close> are a parameter (\<open>json_api\<close>); the store relies on the locale \<open>json_codec\<close>: what was
  dumped parses back.  An object is the list of its members in key order, which is how the
  library's \<open>std::map\<close> holds them (\<open>canonical\<close>).  \<open>dump\<close> is partial because the library throws on
  strings that are not UTF-8.  A floating-point number is the rational it stands for, and only
  the doubles are promised to come back.  A reference printer and parser show that the contract can be met.
\<close>

datatype json =
    JNull
  | JBool bool
  | JInt int
  | JNum rat
  | JStr string
  | JArr "json list"
  | JObj "(string \<times> json) list"

record json_api =
  json_dump :: "json \<Rightarrow> string option"
  json_parse :: "string \<Rightarrow> json option"

text \<open>The finite values of \<open>double\<close>.\<close>

definition is_double :: "rat \<Rightarrow> bool" where
  "is_double q \<longleftrightarrow> (\<exists>m e. \<bar>m\<bar> < 2 ^ 53 \<and> - 1074 \<le> e \<and> e \<le> 971 \<and> q = of_int m * 2 powi e)"

fun canonical :: "json \<Rightarrow> bool" where
  "canonical (JArr xs) \<longleftrightarrow> (\<forall>x \<in> set xs. canonical x)"
| "canonical (JObj ms) \<longleftrightarrow> sorted_wrt (<) (map fst ms) \<and> (\<forall>m \<in> set ms. canonical (snd m))"
| "canonical (JNum q) \<longleftrightarrow> is_double q"
| "canonical _ \<longleftrightarrow> True"

text \<open>Values whose texts are ASCII, hence UTF-8: \<open>dump\<close> does not throw on them.\<close>

definition ascii :: "string \<Rightarrow> bool" where
  "ascii s \<longleftrightarrow> (\<forall>c \<in> set s. ch_code c < 128)"

fun ascii_json :: "json \<Rightarrow> bool" where
  "ascii_json (JStr s) \<longleftrightarrow> ascii s"
| "ascii_json (JArr xs) \<longleftrightarrow> (\<forall>x \<in> set xs. ascii_json x)"
| "ascii_json (JObj ms) \<longleftrightarrow> (\<forall>m \<in> set ms. ascii (fst m) \<and> ascii_json (snd m))"
| "ascii_json _ \<longleftrightarrow> True"

locale json_codec =
  fixes J :: json_api
  assumes parse_dump: "canonical j \<Longrightarrow> json_dump J j = Some s \<Longrightarrow> json_parse J s = Some j"
    and dump_ascii: "ascii_json j \<Longrightarrow> json_dump J j \<noteq> None"
    and parse_empty: "json_parse J [] = None"
    and parse_object: "json_parse J s = Some (JObj ms) \<Longrightarrow> CHR ''{'' \<in> set s"
begin

lemma dump_nonempty: "canonical j \<Longrightarrow> json_dump J j = Some s \<Longrightarrow> s \<noteq> []"
  using parse_dump parse_empty by fastforce

lemma dump_inject:
  "canonical j \<Longrightarrow> canonical k \<Longrightarrow> json_dump J j = Some s \<Longrightarrow> json_dump J k = Some s \<Longrightarrow> j = k"
  by (metis option.inject parse_dump)

end

section \<open>Reading members\<close>

text \<open>\<open>j.at(key)\<close> and \<open>get\<close> at the types the metadata uses; \<open>None\<close> is the library's exception.\<close>

fun json_at :: "json \<Rightarrow> string \<Rightarrow> json option" where
  "json_at (JObj ms) k = map_of ms k"
| "json_at _ k = None"

fun get_string :: "json \<Rightarrow> string option" where
  "get_string (JStr s) = Some s"
| "get_string _ = None"

text \<open>\<open>get_arithmetic_value\<close>, for the 64-bit types and enumerations: a floating-point number is truncated
  towards zero.  The narrower integers take a boolean as well.  The caller reduces the number to its
  width; for a floating-point number beyond it the conversion of C++ is undefined.\<close>

definition truncate_rat :: "rat \<Rightarrow> int" where
  "truncate_rat q = (if 0 \<le> q then \<lfloor>q\<rfloor> else \<lceil>q\<rceil>)"

fun get_int :: "json \<Rightarrow> int option" where
  "get_int (JInt i) = Some i"
| "get_int (JNum q) = Some (truncate_rat q)"
| "get_int _ = None"

fun get_small_int :: "json \<Rightarrow> int option" where
  "get_small_int (JBool b) = Some (of_bool b)"
| "get_small_int j = get_int j"

fun get_bool :: "json \<Rightarrow> bool option" where
  "get_bool (JBool b) = Some b"
| "get_bool _ = None"

fun get_list :: "(json \<Rightarrow> 'a option) \<Rightarrow> json \<Rightarrow> 'a list option" where
  "get_list f (JArr xs) = those (map f xs)"
| "get_list f _ = None"

lemma get_list_map: "(\<And>x. x \<in> set xs \<Longrightarrow> f (g x) = Some (h x)) \<Longrightarrow>
    get_list f (JArr (map g xs)) = Some (map h xs)"
  by (induction xs) auto

section \<open>A codec that meets the contract\<close>

definition ref_string :: "string \<Rightarrow> string" where
  "ref_string s = to_string_nat (length s) @ '':'' @ s"

fun ref_dump :: "json \<Rightarrow> string" where
  "ref_dump JNull = ''n''"
| "ref_dump (JBool b) = (if b then ''t'' else ''f'')"
| "ref_dump (JInt i) = (if i < 0 then ''m'' else ''i'') @ to_string_nat (nat \<bar>i\<bar>) @ '';''"
| "ref_dump (JNum q) = (case quotient_of q of (a, b) \<Rightarrow>
     ''q'' @ (if a < 0 then ''m'' else ''i'') @ to_string_nat (nat \<bar>a\<bar>) @ '';'' @ to_string_nat (nat b) @ '';'')"
| "ref_dump (JStr s) = ''s'' @ ref_string s"
| "ref_dump (JArr xs) = ''a'' @ concat (map ref_dump xs) @ '']''"
| "ref_dump (JObj ms) = ''{'' @ concat (map (\<lambda>m. ''k'' @ ref_string (fst m) @ ref_dump (snd m)) ms) @ ''}''"

definition read_nat :: "string \<Rightarrow> (nat \<times> string) option" where
  "read_nat s =
     (case dropWhile is_digit s of
        [] \<Rightarrow> None
      | _ # rest \<Rightarrow> Some (digits_value 0 (takeWhile is_digit s), rest))"

definition read_string :: "string \<Rightarrow> (string \<times> string) option" where
  "read_string s = map_option (\<lambda>(n, rest). (take n rest, drop n rest)) (read_nat s)"

definition read_rat :: "string \<Rightarrow> (rat \<times> string) option" where
  "read_rat s =
     (case s of
        [] \<Rightarrow> None
      | c # s' \<Rightarrow>
          (case read_nat s' of
             None \<Rightarrow> None
           | Some (a, r) \<Rightarrow>
               (case read_nat r of
                  None \<Rightarrow> None
                | Some (b, r') \<Rightarrow> Some (Fract (if c = CHR ''m'' then - int a else int a) (int b), r'))))"

fun read_value :: "nat \<Rightarrow> string \<Rightarrow> (json \<times> string) option"
  and read_items :: "nat \<Rightarrow> string \<Rightarrow> (json list \<times> string) option"
  and read_members :: "nat \<Rightarrow> string \<Rightarrow> ((string \<times> json) list \<times> string) option" where
  "read_value 0 s = None"
| "read_value (Suc n) [] = None"
| "read_value (Suc n) (c # s) =
     (if c = CHR ''n'' then Some (JNull, s)
      else if c = CHR ''t'' then Some (JBool True, s)
      else if c = CHR ''f'' then Some (JBool False, s)
      else if c = CHR ''i'' then map_option (apfst (\<lambda>k. JInt (int k))) (read_nat s)
      else if c = CHR ''m'' then map_option (apfst (\<lambda>k. JInt (- int k))) (read_nat s)
      else if c = CHR ''q'' then map_option (apfst JNum) (read_rat s)
      else if c = CHR ''s'' then map_option (apfst JStr) (read_string s)
      else if c = CHR ''a'' then map_option (apfst JArr) (read_items n s)
      else if c = CHR ''{'' then map_option (apfst JObj) (read_members n s)
      else None)"
| "read_items 0 s = None"
| "read_items (Suc n) s =
     (case s of
        [] \<Rightarrow> None
      | c # s' \<Rightarrow>
          if c = CHR '']'' then Some ([], s')
          else (case read_value n s of
                  None \<Rightarrow> None
                | Some (x, r) \<Rightarrow> map_option (apfst (Cons x)) (read_items n r)))"
| "read_members 0 s = None"
| "read_members (Suc n) s =
     (case s of
        [] \<Rightarrow> None
      | c # s' \<Rightarrow>
          if c = CHR ''}'' then Some ([], s')
          else (case read_string s' of
                  None \<Rightarrow> None
                | Some (k, r) \<Rightarrow>
                    (case read_value n r of
                       None \<Rightarrow> None
                     | Some (x, r') \<Rightarrow> map_option (apfst (Cons (k, x))) (read_members n r'))))"

definition ref_json :: json_api where
  "ref_json = \<lparr>json_dump = (\<lambda>j. Some (ref_dump j)),
     json_parse = (\<lambda>s. case read_value (length s) s of Some (j, []) \<Rightarrow> Some j | _ \<Rightarrow> None)\<rparr>"

lemma read_nat_to_string: "\<not> is_digit c \<Longrightarrow> read_nat (to_string_nat n @ c # rest) = Some (n, rest)"
  by (simp add: read_nat_def dropWhile_append2 takeWhile_append2 to_string_nat_digits
      digits_value_to_string)

lemma read_string_ref: "read_string (ref_string s @ rest) = Some (s, rest)"
  by (simp add: read_string_def ref_string_def read_nat_to_string is_digit_def)

lemma read_rat_dump:
  assumes "quotient_of q = (a, b)"
  shows "read_rat ((if a < 0 then ''m'' else ''i'') @ to_string_nat (nat \<bar>a\<bar>) @ '';'' @ to_string_nat (nat b) @ '';'' @ rest)
    = Some (q, rest)"
proof -
  have "0 < b" "Fract a b = q"
    using assms quotient_of_denom_pos quotient_of_div by (auto simp: Fract_of_int_quotient)
  then show ?thesis
    by (auto simp: read_rat_def read_nat_to_string is_digit_def)
qed

lemma ref_dump_head: "ref_dump j \<noteq> [] \<and> hd (ref_dump j) \<noteq> CHR '']''"
  by (cases j) (auto split: prod.split)

lemma read_items_dump:
  assumes "\<And>x n rest. x \<in> set xs \<Longrightarrow> length (ref_dump x) \<le> n \<Longrightarrow>
      read_value n (ref_dump x @ rest) = Some (x, rest)"
    and "length (concat (map ref_dump xs)) < n"
  shows "read_items n (concat (map ref_dump xs) @ CHR '']'' # rest) = Some (xs, rest)"
  using assms
proof (induction xs arbitrary: n)
  case Nil
  then show ?case by (cases n) auto
next
  case (Cons x xs)
  obtain m where n: "n = Suc m"
    using Cons.prems(2) by (cases n) auto
  obtain c cs where h: "ref_dump x = c # cs" "c \<noteq> CHR '']''"
    using ref_dump_head [of x] by (cases "ref_dump x") auto
  have "read_value m (ref_dump x @ t) = Some (x, t)" for t
    using Cons.prems n by (intro Cons.prems(1)) auto
  moreover have "read_items m (concat (map ref_dump xs) @ CHR '']'' # rest) = Some (xs, rest)"
    using Cons.prems n h(1) by (intro Cons.IH) auto
  ultimately show ?case
    using n h by simp
qed

lemma read_members_dump:
  assumes "\<And>m n rest. m \<in> set ms \<Longrightarrow> length (ref_dump (snd m)) \<le> n \<Longrightarrow>
      read_value n (ref_dump (snd m) @ rest) = Some (snd m, rest)"
    and "length (concat (map (\<lambda>m. ''k'' @ ref_string (fst m) @ ref_dump (snd m)) ms)) < n"
  shows "read_members n (concat (map (\<lambda>m. ''k'' @ ref_string (fst m) @ ref_dump (snd m)) ms)
      @ CHR ''}'' # rest) = Some (ms, rest)"
  using assms
proof (induction ms arbitrary: n)
  case Nil
  then show ?case by (cases n) auto
next
  case (Cons e ms)
  obtain m where n: "n = Suc m"
    using Cons.prems(2) by (cases n) auto
  have "read_value m (ref_dump (snd e) @ t) = Some (snd e, t)" for t
    using Cons.prems n by (intro Cons.prems(1)) auto
  moreover have "read_members m (concat (map (\<lambda>m. ''k'' @ ref_string (fst m) @ ref_dump (snd m)) ms)
      @ CHR ''}'' # rest) = Some (ms, rest)"
    using Cons.prems n by (intro Cons.IH) auto
  ultimately show ?case
    using n by (simp add: read_string_ref)
qed

lemma read_value_dump:
  "length (ref_dump j) \<le> n \<Longrightarrow> read_value n (ref_dump j @ rest) = Some (j, rest)"
proof (induction j arbitrary: n rest)
  case (JInt i)
  then obtain m where "n = Suc m" by (cases n) auto
  then show ?case
    by (simp add: read_nat_to_string is_digit_def)
next
  case (JNum q)
  obtain a b where ab: "quotient_of q = (a, b)" by fastforce
  with JNum obtain m where "n = Suc m" by (cases n) auto
  then show ?case
    using read_rat_dump [OF ab, of rest] ab by simp
next
  case (JArr xs)
  then obtain m where n: "n = Suc m" by (cases n) auto
  have "read_items m (concat (map ref_dump xs) @ CHR '']'' # rest) = Some (xs, rest)"
    using JArr n by (intro read_items_dump) auto
  with n show ?case by simp
next
  case (JObj ms)
  then obtain m where n: "n = Suc m" by (cases n) auto
  have "read_members m (concat (map (\<lambda>m. ''k'' @ ref_string (fst m) @ ref_dump (snd m)) ms)
      @ CHR ''}'' # rest) = Some (ms, rest)"
    using JObj n by (intro read_members_dump) (auto simp: snds.simps)
  with n show ?case by simp
next
  case (JStr s)
  then obtain m where "n = Suc m" by (cases n) auto
  then show ?case by (simp add: read_string_ref)
qed (case_tac n; auto split: if_splits)+

lemma read_value_object: "read_value n s = Some (JObj ms, rest) \<Longrightarrow> CHR ''{'' \<in> set s"
  by (cases "(n, s)" rule: read_value.cases) (auto split: if_splits)

interpretation ref_codec: json_codec ref_json
proof unfold_locales
  fix j s
  assume "canonical j" "json_dump ref_json j = Some s"
  then show "json_parse ref_json s = Some j"
    using read_value_dump [of j _ "[]"] by (auto simp: ref_json_def)
next
  show "json_dump ref_json j \<noteq> None" for j
    by (simp add: ref_json_def)
next
  show "json_parse ref_json [] = None"
    by (simp add: ref_json_def)
next
  fix s ms
  assume "json_parse ref_json s = Some (JObj ms)"
  then show "CHR ''{'' \<in> set s"
    using read_value_object [of "length s" s]
    by (auto simp: ref_json_def split: option.splits list.splits)
qed

end
