(* ===== verification/MetaFile.thy ===== *)
theory MetaFile
  imports Json "HOL-Library.Monad_Syntax"
begin

text \<open>
  \<open>file/MetaFile.h\<close> and the configuration structs: the metadata record of a file, its shards and
  status, the system statistics, and the JSON conversions that
  \<open>NLOHMANN_DEFINE_TYPE_INTRUSIVE\<close> generates from the field lists.  Every integer has the width
  and the signedness of the source: a word, read with \<open>sint\<close> where the field is signed.
\<close>

type_synonym u64 = "64 word"
type_synonym u32 = "32 word"

section \<open>The data\<close>

text \<open>
  \<open>enum class FileStatus\<close>.  Reading an integer reduces it to the 32 bits of the underlying type and
  casts it to the enum without a check; a value with no enumerator is \<open>UNNAMED\<close>.
\<close>

datatype FileStatus = NORMAL | DELETED | CORRUPTED | SYNCING | LOCKED | UNNAMED int

fun status_code :: "FileStatus \<Rightarrow> int" where
  "status_code NORMAL = 0"
| "status_code DELETED = 1"
| "status_code CORRUPTED = 2"
| "status_code SYNCING = 3"
| "status_code LOCKED = 4"
| "status_code (UNNAMED i) = i"

definition status_of_code :: "int \<Rightarrow> FileStatus" where
  "status_of_code v =
     (let i = signed_take_bit 31 v
      in if i = 0 then NORMAL else if i = 1 then DELETED else if i = 2 then CORRUPTED
         else if i = 3 then SYNCING else if i = 4 then LOCKED else UNNAMED i)"

record FileShard =
  shard_index :: u32
  shard_id :: string
  shard_size :: u64
  shard_md5 :: string
  shard_path :: string

record MetaFile =
  md5 :: string
  path :: string
  name :: string
  domain :: string
  scene :: string
  src :: string
  fsize :: u64
  mtime :: u64
  status :: FileStatus
  is_sharded :: bool
  shard_std_size :: u64
  shard_count :: u32
  shards :: "FileShard list"
  uploaded_count :: u32
  uploaded_chunks :: "u32 list"
  peers :: "string list"

text \<open>\<open>MetaFile m;\<close>: the default member initialisers.\<close>

definition default_MetaFile :: MetaFile where
  "default_MetaFile = \<lparr>md5 = [], path = [], name = [], domain = [], scene = [], src = [],
     fsize = 0, mtime = 0, status = NORMAL, is_sharded = False, shard_std_size = 0,
     shard_count = 0, shards = [], uploaded_count = 0, uploaded_chunks = [], peers = []\<rparr>"

record SystemStat =
  file_count :: u64
  total_size :: u64

definition default_SystemStat :: SystemStat where
  "default_SystemStat = \<lparr>file_count = 0, total_size = 0\<rparr>"

record metaConfig =
  meta_group :: string
  peer_id :: string
  meta_domain :: string
  meta_allow_extensions :: "string list"
  enable_trim_filename :: bool
  enable_distinct_file :: bool

definition default_metaConfig :: metaConfig where
  "default_metaConfig = \<lparr>meta_group = ''group1'', peer_id = ''node_01'',
     meta_domain = ''http://192.168.88.131:8080'',
     meta_allow_extensions = [''.jpg'', ''.png'', ''.txt'', ''.pdf''],
     enable_trim_filename = True, enable_distinct_file = True\<rparr>"

section \<open>JSON conversions\<close>

text \<open>The members of a shard: \<open>index, shard_id, size, md5\<close>; its \<open>path\<close> is not in the list.\<close>

definition shard_to_json :: "FileShard \<Rightarrow> json" where
  "shard_to_json s = JObj [
     (''index'', JInt (uint (shard_index s))),
     (''md5'', JStr (shard_md5 s)),
     (''shard_id'', JStr (shard_id s)),
     (''size'', JInt (uint (shard_size s)))]"

definition shard_from_json :: "json \<Rightarrow> FileShard option" where
  "shard_from_json j =
     do {
       i \<leftarrow> Option.bind (json_at j ''index'') get_small_int;
       sid \<leftarrow> Option.bind (json_at j ''shard_id'') get_string;
       sz \<leftarrow> Option.bind (json_at j ''size'') get_int;
       m \<leftarrow> Option.bind (json_at j ''md5'') get_string;
       Some \<lparr>shard_index = word_of_int i, shard_id = sid, shard_size = word_of_int sz,
         shard_md5 = m, shard_path = []\<rparr>
     }"

definition to_json :: "MetaFile \<Rightarrow> json" where
  "to_json m = JObj [
     (''domain'', JStr (domain m)),
     (''is_sharded'', JBool (is_sharded m)),
     (''md5'', JStr (md5 m)),
     (''mtime'', JInt (sint (mtime m))),
     (''name'', JStr (name m)),
     (''path'', JStr (path m)),
     (''peers'', JArr (map JStr (peers m))),
     (''scene'', JStr (scene m)),
     (''shard_count'', JInt (uint (shard_count m))),
     (''shard_std_size'', JInt (uint (shard_std_size m))),
     (''shards'', JArr (map shard_to_json (shards m))),
     (''size'', JInt (sint (fsize m))),
     (''src'', JStr (src m)),
     (''status'', JInt (status_code (status m))),
     (''uploaded_chunks'', JArr (map (\<lambda>c. JInt (uint c)) (uploaded_chunks m))),
     (''uploaded_count'', JInt (sint (uploaded_count m)))]"

definition from_json :: "json \<Rightarrow> MetaFile option" where
  "from_json j =
     do {
       md5' \<leftarrow> Option.bind (json_at j ''md5'') get_string;
       path' \<leftarrow> Option.bind (json_at j ''path'') get_string;
       name' \<leftarrow> Option.bind (json_at j ''name'') get_string;
       domain' \<leftarrow> Option.bind (json_at j ''domain'') get_string;
       scene' \<leftarrow> Option.bind (json_at j ''scene'') get_string;
       src' \<leftarrow> Option.bind (json_at j ''src'') get_string;
       size' \<leftarrow> Option.bind (json_at j ''size'') get_int;
       mtime' \<leftarrow> Option.bind (json_at j ''mtime'') get_int;
       status' \<leftarrow> Option.bind (json_at j ''status'') get_int;
       sharded' \<leftarrow> Option.bind (json_at j ''is_sharded'') get_bool;
       std' \<leftarrow> Option.bind (json_at j ''shard_std_size'') get_int;
       count' \<leftarrow> Option.bind (json_at j ''shard_count'') get_small_int;
       shards' \<leftarrow> Option.bind (json_at j ''shards'') (get_list shard_from_json);
       up' \<leftarrow> Option.bind (json_at j ''uploaded_count'') get_small_int;
       chunks' \<leftarrow> Option.bind (json_at j ''uploaded_chunks'') (get_list get_small_int);
       peers' \<leftarrow> Option.bind (json_at j ''peers'') (get_list get_string);
       Some \<lparr>md5 = md5', path = path', name = name', domain = domain', scene = scene',
         src = src', fsize = word_of_int size', mtime = word_of_int mtime',
         status = status_of_code status', is_sharded = sharded',
         shard_std_size = word_of_int std', shard_count = word_of_int count',
         shards = shards', uploaded_count = word_of_int up',
         uploaded_chunks = map word_of_int chunks', peers = peers'\<rparr>
     }"

section \<open>Lemmas\<close>

text \<open>What a round trip keeps: everything but the path of each shard.\<close>

definition forget_shard_paths :: "MetaFile \<Rightarrow> MetaFile" where
  "forget_shard_paths m = m\<lparr>shards := map (shard_path_update (\<lambda>_. [])) (shards m)\<rparr>"

definition named_status :: "FileStatus \<Rightarrow> bool" where
  "named_status s \<longleftrightarrow> status_of_code (status_code s) = s"

lemma named_status_simps [simp]:
  "named_status NORMAL" "named_status DELETED" "named_status CORRUPTED" "named_status SYNCING"
  "named_status LOCKED"
  by (simp_all add: named_status_def status_of_code_def)

lemma shard_from_to_json: "shard_from_json (shard_to_json s) = Some (s\<lparr>shard_path := []\<rparr>)"
  by (cases s) (simp add: shard_from_json_def shard_to_json_def)

lemma get_list_shards:
  "get_list shard_from_json (JArr (map shard_to_json ss)) = Some (map (shard_path_update (\<lambda>_. [])) ss)"
  by (rule get_list_map) (rule shard_from_to_json)

lemma get_list_chunks:
  "get_list get_small_int (JArr (map (\<lambda>c. JInt (uint c)) cs)) = Some (map uint cs)"
  by (rule get_list_map) simp

lemma get_list_strings: "get_list get_string (JArr (map JStr ss)) = Some ss"
  using get_list_map [of ss get_string JStr "\<lambda>x. x"] by simp

lemma canonical_to_json: "canonical (to_json m)"
  by (auto simp: to_json_def shard_to_json_def)

lemma from_to_json:
  "named_status (status m) \<Longrightarrow> from_json (to_json m) = Some (forget_shard_paths m)"
  by (cases m) (simp add: from_json_def to_json_def forget_shard_paths_def get_list_shards
      get_list_chunks get_list_strings named_status_def comp_def
      del: get_list.simps)

end
