(* ===== verification/MetadataStore.thy ===== *)
theory MetadataStore
  imports LevelDB MetaFile
begin

text \<open>
  \<open>file/MetadataStore\<close>: the metadata index in LevelDB.  A file has three entries: its record under
  its MD5, its MD5 under \<open>PATH:\<close> and its path, and its MD5 under \<open>SCENE:\<close>, its scene, its time and
  its MD5; an uploaded shard has one entry under \<open>Shard:\<close>.  The statistics are cached beside the
  database.  The operations take the LevelDB and JSON parameters first.  The abstract view of the
  store is a catalogue, a map from MD5 to metadata; \<open>represents\<close> ties the database to it.  The
  lock is not part of the state: \<open>save_meta\<close> is split where it takes the lock, so that the two
  halves can interleave.
\<close>

section \<open>State and keys\<close>

record 'db metadata_store =
  db :: 'db
  config :: metaConfig
  cached_stat :: SystemStat

definition path_key :: "string \<Rightarrow> string" where
  "path_key p = ''PATH:'' @ p"

definition scene_prefix :: "string \<Rightarrow> string" where
  "scene_prefix dir = ''SCENE:'' @ dir @ '':''"

definition scene_key :: "string \<Rightarrow> u64 \<Rightarrow> string \<Rightarrow> string" where
  "scene_key sc t m = scene_prefix sc @ to_string_int (sint t) @ '':'' @ m"

definition shard_prefix :: "string \<Rightarrow> string" where
  "shard_prefix file_id = ''Shard:'' @ file_id @ '':''"

definition is_md5 :: "string \<Rightarrow> bool" where
  "is_md5 s \<longleftrightarrow> length s = 32"

section \<open>Operations\<close>

text \<open>The constructor, on the handle \<open>DB::Open\<close> gives.\<close>

definition MetadataStore_open :: "'db \<Rightarrow> metaConfig \<Rightarrow> 'db metadata_store" where
  "MetadataStore_open handle cfg = \<lparr>db = handle, config = cfg, cached_stat = default_SystemStat\<rparr>"

text \<open>The constructor: \<open>DB::Open\<close> answers a database or a status, whose text is given.\<close>

definition MetadataStore_new :: "string + 'db \<Rightarrow> metaConfig \<Rightarrow> 'db metadata_store result" where
  "MetadataStore_new opened cfg =
     (case opened of
        Inl msg \<Rightarrow> Inl (Runtime_error (''Failed to open LevelDB: '' @ msg))
      | Inr handle \<Rightarrow> Inr (MetadataStore_open handle cfg))"

text \<open>\<open>serialize\<close> answers the empty string when \<open>dump\<close> throws; \<open>deserialize\<close> rethrows: \<open>None\<close>.\<close>

definition serialize :: "json_api \<Rightarrow> MetaFile \<Rightarrow> string" where
  "serialize J meta = (case json_dump J (to_json meta) of None \<Rightarrow> [] | Some s \<Rightarrow> s)"

definition deserialize :: "json_api \<Rightarrow> string \<Rightarrow> MetaFile option" where
  "deserialize J s = Option.bind (json_parse J s) from_json"

text \<open>\<open>save_meta\<close> up to the lock: is the MD5 there already?\<close>

definition save_meta_check :: "('db, 'it) leveldb_api \<Rightarrow> MetaFile \<Rightarrow> 'db metadata_store \<Rightarrow> bool" where
  "save_meta_check D meta st \<longleftrightarrow> db_Get D (db st) (md5 meta) \<noteq> None"

definition save_batch :: "json_api \<Rightarrow> MetaFile \<Rightarrow> write_op list" where
  "save_batch J meta =
     [Put (md5 meta) (serialize J meta),
      Put (path_key (path meta)) (md5 meta),
      Put (scene_key (scene meta) (mtime meta) (md5 meta)) (md5 meta)]"

text \<open>\<open>save_meta\<close> under the lock.\<close>

definition save_meta_commit ::
  "('db, 'it) leveldb_api \<Rightarrow> json_api \<Rightarrow> MetaFile \<Rightarrow> 'db metadata_store \<Rightarrow> bool \<times> 'db metadata_store" where
  "save_meta_commit D J meta st =
     (case db_Write D (db st) (save_batch J meta) of
        (ok, db') \<Rightarrow>
          if ok
          then (True, st\<lparr>db := db', cached_stat :=
                 \<lparr>file_count = file_count (cached_stat st) + 1,
                  total_size = total_size (cached_stat st) + fsize meta\<rparr>\<rparr>)
          else (False, st\<lparr>db := db'\<rparr>))"

definition save_meta ::
  "('db, 'it) leveldb_api \<Rightarrow> json_api \<Rightarrow> MetaFile \<Rightarrow> 'db metadata_store \<Rightarrow> bool \<times> 'db metadata_store" where
  "save_meta D J meta st =
     (if save_meta_check D meta st then (True, st) else save_meta_commit D J meta st)"

definition get_meta ::
  "('db, 'it) leveldb_api \<Rightarrow> json_api \<Rightarrow> 'db metadata_store \<Rightarrow> string \<Rightarrow> MetaFile option" where
  "get_meta D J st key =
     (case (if is_md5 key then Some key else db_Get D (db st) (path_key key)) of
        None \<Rightarrow> None
      | Some target_md5 \<Rightarrow>
          (case db_Get D (db st) target_md5 of
             None \<Rightarrow> None
           | Some val \<Rightarrow> deserialize J val))"

definition exists_meta ::
  "('db, 'it) leveldb_api \<Rightarrow> json_api \<Rightarrow> 'db metadata_store \<Rightarrow> string \<Rightarrow> bool" where
  "exists_meta D J st file_id \<longleftrightarrow> get_meta D J st file_id \<noteq> None"

definition save_meta_shard ::
  "('db, 'it) leveldb_api \<Rightarrow> u32 \<Rightarrow> string \<Rightarrow> string \<Rightarrow> 'db metadata_store \<Rightarrow> bool \<times> 'db metadata_store" where
  "save_meta_shard D index file_md5 smd5 st =
     (let key = shard_prefix file_md5 @ to_string_nat (unat index);
          val = (if smd5 \<noteq> [] then smd5 else ''1'')
      in case db_Put D (db st) key val of (ok, db') \<Rightarrow> (ok, st\<lparr>db := db'\<rparr>))"

text \<open>The body of the loop of \<open>get_uploaded_shard\<close>; \<open>stoul\<close> narrows to 32 bits.\<close>

definition shard_body :: "string \<Rightarrow> string \<Rightarrow> string \<Rightarrow> u32 list \<Rightarrow> bool \<times> u32 list" where
  "shard_body pfx key val acc =
     (if take (length pfx) key \<noteq> pfx then (True, acc)
      else (case stoul (drop (length pfx) key) of
              Inl _ \<Rightarrow> (False, acc)
            | Inr n \<Rightarrow> (False, acc @ [word_of_nat n])))"

definition get_uploaded_shard ::
  "('db, 'it) leveldb_api \<Rightarrow> 'db metadata_store \<Rightarrow> string \<Rightarrow> u32 list option" where
  "get_uploaded_shard D st file_id =
     (if file_id = [] then Some []
      else
        let pfx = shard_prefix file_id
        in for_valid D (it_Next D) (shard_body pfx) (it_Seek D (db_NewIterator D (db st)) pfx) [])"

text \<open>\<open>deserialize\<close> is called outside a \<open>try\<close> here, so its exception leaves \<open>update_status\<close>.\<close>

definition update_status ::
  "('db, 'it) leveldb_api \<Rightarrow> json_api \<Rightarrow> string \<Rightarrow> FileStatus \<Rightarrow> ('db metadata_store, bool) io" where
  "update_status D J key new_status st =
     (case db_Get D (db st) key of
        None \<Rightarrow> (Inr False, st)
      | Some json_str \<Rightarrow>
          (case deserialize J json_str of
             None \<Rightarrow> (Inl (Runtime_error ''json''), st)
           | Some meta \<Rightarrow>
               (case db_Put D (db st) key (serialize J (meta\<lparr>status := new_status\<rparr>)) of
                  (ok, db') \<Rightarrow> (Inr ok, st\<lparr>db := db'\<rparr>))))"

definition delete_batch :: "string \<Rightarrow> MetaFile \<Rightarrow> write_op list" where
  "delete_batch key meta =
     [Delete key, Delete (path_key (path meta)), Delete (scene_key (scene meta) (mtime meta) key)]"

definition delete_meta ::
  "('db, 'it) leveldb_api \<Rightarrow> json_api \<Rightarrow> string \<Rightarrow> 'db metadata_store \<Rightarrow> bool \<times> 'db metadata_store" where
  "delete_meta D J key st =
     (case db_Get D (db st) key of
        None \<Rightarrow> (False, st)
      | Some json_str \<Rightarrow>
          (case deserialize J json_str of
             None \<Rightarrow> (False, st)
           | Some meta \<Rightarrow>
               (case db_Write D (db st) (delete_batch key meta) of
                  (ok, db') \<Rightarrow>
                    if ok
                    then (True, st\<lparr>db := db', cached_stat :=
                           \<lparr>file_count = file_count (cached_stat st) - 1,
                            total_size = total_size (cached_stat st) - fsize meta\<rparr>\<rparr>)
                    else (False, st\<lparr>db := db'\<rparr>))))"

definition update_meta ::
  "('db, 'it) leveldb_api \<Rightarrow> json_api \<Rightarrow> MetaFile \<Rightarrow> 'db metadata_store \<Rightarrow> bool \<times> 'db metadata_store" where
  "update_meta D J meta st = save_meta D J meta (snd (delete_meta D J (md5 meta) st))"

text \<open>
  \<open>list_dir\<close>: the start of the iterator, the body of the loop with the move of the iterator at its end
  (the state is the number skipped, the number fetched and the results), and the whole.  A negative
  limit is no limit.  The lock is in \<open>MetadataLock\<close>: here the second shared lock, which \<open>get_meta\<close> takes
  while \<open>list_dir\<close> holds one, is taken to be granted.
\<close>

definition next_string :: "string \<Rightarrow> string" where
  "next_string s = butlast s @ [char_of (ch_code (last s) + 1)]"

definition list_start :: "('db, 'it) leveldb_api \<Rightarrow> 'it \<Rightarrow> string \<Rightarrow> int \<Rightarrow> 'it" where
  "list_start D it0 pfx order =
     (if order = 1 then it_Seek D it0 pfx
      else
        let it1 = it_Seek D it0 pfx
        in if \<not> it_Valid D it1 then it_SeekToLast D it1
           else
             let it2 = it_Seek D it1 (next_string pfx)
             in if it_Valid D it2 then it_Prev D it2 else it_SeekToLast D it2)"

definition list_step ::
  "('db, 'it) leveldb_api \<Rightarrow> json_api \<Rightarrow> 'db metadata_store \<Rightarrow> string \<Rightarrow> int \<Rightarrow> int \<Rightarrow> int \<Rightarrow>
     'it \<Rightarrow> int \<times> int \<times> MetaFile list \<Rightarrow> bool \<times> 'it \<times> int \<times> int \<times> MetaFile list" where
  "list_step D J st pfx offset limit order it = (\<lambda>(skipped, fetched, results).
     if take (length pfx) (it_key D it) \<noteq> pfx then (True, it, skipped, fetched, results)
     else
       let (stop, skipped', fetched', results') =
             (if skipped < offset then (False, skipped + 1, fetched, results)
              else
                let (fetched', results') =
                      (case get_meta D J st (it_value D it) of
                         None \<Rightarrow> (fetched, results)
                       | Some meta \<Rightarrow> (fetched + 1, results @ [meta]))
                in (limit \<le> fetched' \<and> 0 < limit, skipped, fetched', results'));
           it' = (if order = 1 then it_Next D it else it_Prev D it)
       in (stop, it', skipped', fetched', results'))"

definition list_dir ::
  "('db, 'it) leveldb_api \<Rightarrow> json_api \<Rightarrow> 'db metadata_store \<Rightarrow> string \<Rightarrow> int \<Rightarrow> int \<Rightarrow> int \<Rightarrow>
     MetaFile list option" where
  "list_dir D J st dir offset limit order =
     (if offset < 0 \<or> limit = 0 then Some []
      else
        let pfx = scene_prefix dir;
            it = list_start D (db_NewIterator D (db st)) pfx order
        in map_option (\<lambda>acc. snd (snd acc))
             (while_valid D (list_step D J st pfx offset limit order) it (0, 0, [])))"

definition get_stat :: "'db metadata_store \<Rightarrow> SystemStat" where
  "get_stat st = cached_stat st"

definition repair_body :: "json_api \<Rightarrow> string \<Rightarrow> string \<Rightarrow> u64 \<times> u64 \<Rightarrow> bool \<times> u64 \<times> u64" where
  "repair_body J key val acc =
     (case acc of (count, sz) \<Rightarrow>
        if is_md5 key
        then (case deserialize J val of
                None \<Rightarrow> (False, count, sz)
              | Some m \<Rightarrow>
                  if status m = NORMAL then (False, count + 1, sz + fsize m)
                  else (False, count, sz))
        else (False, count, sz))"

definition repair_stat ::
  "('db, 'it) leveldb_api \<Rightarrow> json_api \<Rightarrow> 'db metadata_store \<Rightarrow> 'db metadata_store option" where
  "repair_stat D J st =
     map_option (\<lambda>(count, sz). st\<lparr>cached_stat := \<lparr>file_count = count, total_size = sz\<rparr>\<rparr>)
       (for_valid D (it_Next D) (repair_body J) (it_SeekToFirst D (db_NewIterator D (db st))) (0, 0))"

definition is_enable_trim_filename :: "'db metadata_store \<Rightarrow> bool" where
  "is_enable_trim_filename st \<longleftrightarrow> enable_trim_filename (config st)"

definition get_peer_id :: "'db metadata_store \<Rightarrow> string" where
  "get_peer_id st = peer_id (config st)"

definition get_domain :: "'db metadata_store \<Rightarrow> string" where
  "get_domain st = meta_domain (config st)"

section \<open>The abstract catalogue\<close>

type_synonym catalogue = "string \<rightharpoonup> MetaFile"

definition spec_save :: "MetaFile \<Rightarrow> catalogue \<Rightarrow> catalogue" where
  "spec_save meta c = (if md5 meta \<in> dom c then c else c(md5 meta \<mapsto> meta))"

definition spec_update_status :: "string \<Rightarrow> FileStatus \<Rightarrow> catalogue \<Rightarrow> catalogue" where
  "spec_update_status k s c = c(k := map_option (status_update (\<lambda>_. s)) (c k))"

text \<open>An MD5 string, and metadata that JSON can carry without loss.\<close>

definition hex_md5 :: "string \<Rightarrow> bool" where
  "hex_md5 k \<longleftrightarrow> length k = 32 \<and> (\<forall>c \<in> set k. isxdigit c)"

definition storable :: "json_api \<Rightarrow> MetaFile \<Rightarrow> bool" where
  "storable J meta \<longleftrightarrow> hex_md5 (md5 meta) \<and> forget_shard_paths meta = meta
     \<and> (\<forall>s. named_status s \<longrightarrow> json_dump J (to_json (meta\<lparr>status := s\<rparr>)) \<noteq> None)
     \<and> named_status (status meta)"

definition meta_scene_key :: "MetaFile \<Rightarrow> string" where
  "meta_scene_key meta = scene_key (scene meta) (mtime meta) (md5 meta)"

definition scene_raw :: "string \<Rightarrow> string" where
  "scene_raw q = ''SCENE:'' @ q"

definition shard_raw :: "string \<Rightarrow> string" where
  "shard_raw q = ''Shard:'' @ q"

definition represents :: "json_api \<Rightarrow> (string \<rightharpoonup> string) \<Rightarrow> catalogue \<Rightarrow> bool" where
  "represents J m c \<longleftrightarrow>
     (\<forall>k. hex_md5 k \<longrightarrow> m k = map_option (serialize J) (c k)) \<and>
     (\<forall>p k. m (path_key p) = Some k \<longleftrightarrow> (\<exists>meta. c k = Some meta \<and> path meta = p)) \<and>
     (\<forall>q k. m (scene_raw q) = Some k \<longleftrightarrow> (\<exists>meta. c k = Some meta \<and> scene_raw q = meta_scene_key meta)) \<and>
     (\<forall>k meta. c k = Some meta \<longrightarrow> md5 meta = k \<and> storable J meta) \<and>
     (\<forall>k v. m k = Some v \<longrightarrow> \<not> hex_md5 k \<longrightarrow> CHR ''{'' \<notin> set v)"

definition stat_of :: "catalogue \<Rightarrow> SystemStat" where
  "stat_of c = \<lparr>file_count = of_nat (card (dom c)), total_size = (\<Sum>k \<in> dom c. fsize (the (c k)))\<rparr>"

section \<open>Lemmas on keys\<close>

lemma hex_md5_no_colon: "hex_md5 k \<Longrightarrow> CHR '':'' \<notin> set k"
  by (auto simp: hex_md5_def isxdigit_def is_digit_def)

lemma hex_md5_no_brace: "hex_md5 k \<Longrightarrow> CHR ''{'' \<notin> set k"
  by (auto simp: hex_md5_def isxdigit_def is_digit_def)

lemma hex_md5_is_md5: "hex_md5 k \<Longrightarrow> is_md5 k"
  by (simp add: hex_md5_def is_md5_def)

lemma not_hex_md5_keys [simp]:
  "\<not> hex_md5 (path_key p)" "\<not> hex_md5 (scene_raw q)" "\<not> hex_md5 (shard_raw q)"
  using hex_md5_no_colon by (force simp: path_key_def scene_raw_def shard_raw_def)+

lemma scene_key_SCENE: "\<exists>q. scene_key sc t m = scene_raw q"
  by (simp add: scene_key_def scene_prefix_def scene_raw_def)

lemma not_hex_scene_key [simp]: "\<not> hex_md5 (scene_key sc t m)"
  using scene_key_SCENE [of sc t m] not_hex_md5_keys(2) by metis

lemma keys_distinct [simp]:
  "path_key p \<noteq> scene_raw q" "scene_raw q \<noteq> path_key p" "path_key p \<noteq> scene_key sc t m"
  "scene_key sc t m \<noteq> path_key p"
  "shard_raw q \<noteq> path_key p" "shard_raw q \<noteq> scene_raw q'"
  "path_key p \<noteq> shard_raw q" "scene_raw q' \<noteq> shard_raw q"
  by (auto simp: path_key_def scene_key_def scene_prefix_def scene_raw_def shard_raw_def)

lemma path_key_inject [simp]: "path_key p = path_key q \<longleftrightarrow> p = q"
  by (simp add: path_key_def)

lemma hex_md5_neq_keys [simp]:
  "hex_md5 k \<Longrightarrow> k \<noteq> path_key p" "hex_md5 k \<Longrightarrow> path_key p \<noteq> k"
  "hex_md5 k \<Longrightarrow> k \<noteq> scene_key sc t m" "hex_md5 k \<Longrightarrow> scene_key sc t m \<noteq> k"
  "hex_md5 k \<Longrightarrow> k \<noteq> scene_raw q" "hex_md5 k \<Longrightarrow> scene_raw q \<noteq> k"
  "hex_md5 k \<Longrightarrow> shard_raw q \<noteq> k"
  using not_hex_md5_keys not_hex_scene_key by metis+

text \<open>The MD5 is the last 32 characters of its scene key.\<close>

lemma scene_key_md5:
  assumes "hex_md5 k" "hex_md5 k'" "scene_key sc t k = scene_key sc' t' k'"
  shows "k = k'"
proof -
  have "k = drop (length (scene_key sc t k) - 32) (scene_key sc t k)"
      "k' = drop (length (scene_key sc' t' k') - 32) (scene_key sc' t' k')"
    using assms(1,2) by (auto simp: scene_key_def hex_md5_def)
  with assms(3) show ?thesis by metis
qed

section \<open>Lemmas on the representation\<close>

lemma storable_status: "storable J meta \<Longrightarrow> named_status s \<Longrightarrow> storable J (meta\<lparr>status := s\<rparr>)"
  by (cases meta) (auto simp: storable_def forget_shard_paths_def)

context json_codec
begin

lemma storable_ascii:
  assumes "hex_md5 (md5 meta)" "ascii_json (to_json meta)" "shards meta = []" "named_status (status meta)"
  shows "storable J meta"
proof -
  have "ascii_json (to_json (meta\<lparr>status := s\<rparr>))" for s using assms(2) by (simp add: to_json_def)
  with dump_ascii assms show ?thesis by (cases meta) (simp add: storable_def forget_shard_paths_def)
qed

lemma deserialize_serialize:
  assumes "storable J meta"
  shows "deserialize J (serialize J meta) = Some meta"
proof -
  obtain s where s: "json_dump J (to_json meta) = Some s"
    using assms by (cases meta) (fastforce simp: storable_def)
  then have "json_parse J s = Some (to_json meta)"
    by (rule parse_dump [OF canonical_to_json])
  with s assms show ?thesis
    by (simp add: deserialize_def serialize_def from_to_json storable_def)
qed

lemma deserialize_brace: "CHR ''{'' \<notin> set v \<Longrightarrow> deserialize J v = None"
proof (cases "json_parse J v")
  case (Some j)
  assume "CHR ''{'' \<notin> set v"
  with Some parse_object show ?thesis
    by (cases j) (auto simp: deserialize_def from_json_def)
qed (simp add: deserialize_def)

end

lemma representsD:
  assumes "represents J m c"
  shows "hex_md5 k \<Longrightarrow> m k = map_option (serialize J) (c k)"
    and "m (path_key p) = Some k \<longleftrightarrow> (\<exists>meta. c k = Some meta \<and> path meta = p)"
    and "m (scene_raw q) = Some k \<longleftrightarrow>
      (\<exists>meta. c k = Some meta \<and> scene_raw q = meta_scene_key meta)"
    and "c k = Some meta \<Longrightarrow> md5 meta = k"
    and "c k = Some meta \<Longrightarrow> storable J meta"
    and "m k = Some v \<Longrightarrow> \<not> hex_md5 k \<Longrightarrow> CHR ''{'' \<notin> set v"
  using assms unfolding represents_def by blast+

lemma representsI:
  assumes "\<And>k. hex_md5 k \<Longrightarrow> m k = map_option (serialize J) (c k)"
    and "\<And>p k. m (path_key p) = Some k \<longleftrightarrow> (\<exists>meta. c k = Some meta \<and> path meta = p)"
    and "\<And>q k. m (scene_raw q) = Some k \<longleftrightarrow>
      (\<exists>meta. c k = Some meta \<and> scene_raw q = meta_scene_key meta)"
    and "\<And>k meta. c k = Some meta \<Longrightarrow> md5 meta = k \<and> storable J meta"
    and "\<And>k v. m k = Some v \<Longrightarrow> \<not> hex_md5 k \<Longrightarrow> CHR ''{'' \<notin> set v"
  shows "represents J m c"
  unfolding represents_def using assms by simp

lemma represents_hex: "represents J m c \<Longrightarrow> c k = Some meta \<Longrightarrow> hex_md5 k"
  using representsD(4,5) storable_def by metis

lemma represents_dom: "represents J m c \<Longrightarrow> dom c = {k. hex_md5 k \<and> k \<in> dom m}"
  using represents_hex [of J m c] representsD(1) [of J m c] by (force simp: dom_def)

lemma represents_empty: "represents J Map.empty Map.empty"
  by (rule representsI) auto

lemma SCENE_of_key: "\<exists>q. meta_scene_key meta = scene_raw q"
  by (simp add: meta_scene_key_def scene_key_SCENE)

text \<open>The three entries of a new file, and their removal.\<close>

lemma represents_save:
  assumes rep: "represents J m c" and st: "storable J meta"
    and new: "c (md5 meta) = None" and free: "m (path_key (path meta)) = None"
  shows "represents J (apply_batch (save_batch J meta) m) (c(md5 meta \<mapsto> meta))"
proof -
  let ?m = "apply_batch (save_batch J meta) m"
  have hex: "hex_md5 (md5 meta)" using st by (simp add: storable_def)
  obtain q0 where q0: "meta_scene_key meta = scene_raw q0"
    using SCENE_of_key by blast
  have m': "?m = m(md5 meta \<mapsto> serialize J meta, path_key (path meta) \<mapsto> md5 meta,
      meta_scene_key meta \<mapsto> md5 meta)"
    by (simp add: apply_batch_def save_batch_def meta_scene_key_def)
  have nopath: "path meta' \<noteq> path meta" if "c k = Some meta'" for k meta'
    using representsD(2) [OF rep, of "path meta" k] that free by auto
  have noscene: "meta_scene_key meta' \<noteq> meta_scene_key meta" if "c k = Some meta'" for k meta'
    using scene_key_md5 [OF represents_hex [OF rep that] hex] that new representsD(4) [OF rep that]
    by (metis meta_scene_key_def option.distinct(1))
  show ?thesis
  proof (rule representsI)
    show "?m k = map_option (serialize J) ((c(md5 meta \<mapsto> meta)) k)" if "hex_md5 k" for k
      using that representsD(1) [OF rep that] by (simp add: m' meta_scene_key_def)
    show "?m (path_key p) = Some k \<longleftrightarrow> (\<exists>x. (c(md5 meta \<mapsto> meta)) k = Some x \<and> path x = p)" for p k
      using representsD(2) [OF rep, of p k] free hex nopath new
      by (auto simp: m' meta_scene_key_def)
    show "?m (scene_raw q) = Some k \<longleftrightarrow>
        (\<exists>x. (c(md5 meta \<mapsto> meta)) k = Some x \<and> scene_raw q = meta_scene_key x)" for q k
      using representsD(3) [OF rep, of q k] hex noscene new q0 by (auto simp: m')
    show "md5 x = k \<and> storable J x" if "(c(md5 meta \<mapsto> meta)) k = Some x" for k x
      using that st representsD(4,5) [OF rep] by (auto split: if_splits)
    show "CHR ''{'' \<notin> set v" if "?m k = Some v" "\<not> hex_md5 k" for k v
      using that representsD(6) [OF rep] hex hex_md5_no_brace [OF hex] by (auto simp: m' split: if_splits)
  qed
qed

lemma represents_delete:
  assumes rep: "represents J m c" and old: "c k = Some meta"
  shows "represents J (apply_batch (delete_batch k meta) m) (c(k := None))"
proof -
  let ?m = "apply_batch (delete_batch k meta) m"
  have k: "md5 meta = k" "hex_md5 k"
    using representsD(4) [OF rep old] represents_hex [OF rep old] by auto
  obtain q0 where q0: "meta_scene_key meta = scene_raw q0"
    using SCENE_of_key by blast
  have m': "?m = m(k := None, path_key (path meta) := None, meta_scene_key meta := None)"
    using k by (simp add: apply_batch_def delete_batch_def meta_scene_key_def)
  have path: "m (path_key (path meta)) = Some k"
    using representsD(2) [OF rep] old by blast
  have nopath: "path x \<noteq> path meta" if "c j = Some x" "j \<noteq> k" for j x
    using representsD(2) [OF rep, of "path meta" j] that path by auto
  have noscene: "meta_scene_key x \<noteq> meta_scene_key meta" if "c j = Some x" "j \<noteq> k" for j x
    using scene_key_md5 [OF represents_hex [OF rep that(1)] k(2)] that k
      representsD(4) [OF rep that(1)]
    by (metis meta_scene_key_def)
  show ?thesis
  proof (rule representsI)
    show "?m j = map_option (serialize J) ((c(k := None)) j)" if "hex_md5 j" for j
      using that representsD(1) [OF rep that] by (simp add: m' meta_scene_key_def)
    show "?m (path_key p) = Some j \<longleftrightarrow> (\<exists>x. (c(k := None)) j = Some x \<and> path x = p)" for p j
      using representsD(2) [OF rep, of p j] k nopath old path
      by (auto simp: m' meta_scene_key_def)
    show "?m (scene_raw q) = Some j \<longleftrightarrow>
        (\<exists>x. (c(k := None)) j = Some x \<and> scene_raw q = meta_scene_key x)" for q j
      using representsD(3) [OF rep, of q j] representsD(3) [OF rep, of q k] k noscene old q0
      by (auto simp: m')
    show "md5 x = j \<and> storable J x" if "(c(k := None)) j = Some x" for j x
      using that representsD(4,5) [OF rep] by (auto split: if_splits)
    show "CHR ''{'' \<notin> set v" if "?m j = Some v" "\<not> hex_md5 j" for j v
      using that representsD(6) [OF rep] by (auto simp: m' split: if_splits)
  qed
qed

text \<open>The record of a file may be replaced by one with the same MD5 and the same index keys.\<close>

lemma represents_record:
  assumes rep: "represents J m c" and old: "c k = Some meta" and new: "storable J meta'" "md5 meta' = k"
    and same: "path meta' = path meta" "meta_scene_key meta' = meta_scene_key meta"
  shows "represents J (m(k \<mapsto> serialize J meta')) (c(k \<mapsto> meta'))"
proof -
  have hex: "hex_md5 k" using represents_hex [OF rep old] .
  show ?thesis
  proof (rule representsI)
    show "(m(k \<mapsto> serialize J meta')) j = map_option (serialize J) ((c(k \<mapsto> meta')) j)" if "hex_md5 j" for j
      using representsD(1) [OF rep that] by simp
    show "(m(k \<mapsto> serialize J meta')) (path_key p) = Some j \<longleftrightarrow> (\<exists>x. (c(k \<mapsto> meta')) j = Some x \<and> path x = p)" for p j
      using representsD(2) [OF rep, of p j] hex old same(1) by auto
    show "(m(k \<mapsto> serialize J meta')) (scene_raw q) = Some j \<longleftrightarrow>
        (\<exists>x. (c(k \<mapsto> meta')) j = Some x \<and> scene_raw q = meta_scene_key x)" for q j
      using representsD(3) [OF rep, of q j] hex old same(2) by auto
    show "md5 x = j \<and> storable J x" if "(c(k \<mapsto> meta')) j = Some x" for j x
      using that representsD(4,5) [OF rep] new by (auto split: if_splits)
    show "CHR ''{'' \<notin> set v" if "(m(k \<mapsto> serialize J meta')) j = Some v" "\<not> hex_md5 j" for j v
      using that representsD(6) [OF rep] hex by (auto split: if_splits)
  qed
qed

lemma represents_status:
  assumes rep: "represents J m c" and old: "c k = Some meta" and s: "named_status s"
  shows "represents J (m(k \<mapsto> serialize J (meta\<lparr>status := s\<rparr>))) (c(k \<mapsto> meta\<lparr>status := s\<rparr>))"
  using representsD(4,5) [OF rep old] storable_status [of J meta s] s
  by (intro represents_record [OF rep old]) (auto simp: meta_scene_key_def)

text \<open>Saving a file that is there with the same index keys only replaces its record.\<close>

lemma represents_resave:
  assumes rep: "represents J m c" and old: "c (md5 meta') = Some meta" and new: "storable J meta'"
    and same: "path meta' = path meta" "meta_scene_key meta' = meta_scene_key meta"
  shows "represents J (apply_batch (save_batch J meta') m) (c(md5 meta' \<mapsto> meta'))"
proof -
  have hex: "hex_md5 (md5 meta')" using new by (simp add: storable_def)
  obtain q where q: "meta_scene_key meta = scene_raw q" using SCENE_of_key by blast
  have "m (path_key (path meta')) = Some (md5 meta')" "m (meta_scene_key meta') = Some (md5 meta')"
    using representsD(2,3) [OF rep] old same q by auto
  with hex have "apply_batch (save_batch J meta') m = m(md5 meta' \<mapsto> serialize J meta')"
    by (auto simp: apply_batch_def save_batch_def meta_scene_key_def fun_eq_iff)
  with represents_record [OF rep old new refl same] show ?thesis by simp
qed

lemma represents_shard:
  assumes rep: "represents J m c" and v: "CHR ''{'' \<notin> set v"
  shows "represents J (m(shard_raw q \<mapsto> v)) c"
proof (rule representsI)
  show "(m(shard_raw q \<mapsto> v)) k = map_option (serialize J) (c k)" if "hex_md5 k" for k
    using representsD(1) [OF rep that] hex_md5_neq_keys(7) [OF that, of q] by auto
qed (use representsD(2-6) [OF rep] v in \<open>auto split: if_splits\<close>)

end
