(* ===== verification/MetadataSpec.thy ===== *)
theory MetadataSpec
  imports MetadataStore
begin

text \<open>
  The metadata store against its catalogue.  The locale \<open>metadata_db\<close> joins the two contracts the
  store relies on; inside it every operation is shown to act on the catalogue as its
  specification says, and the iterator loops are shown to end.  \<open>reach\<close> is the set of states a
  store can get into from an empty database by operations whose writes succeed.
\<close>

section \<open>Specifications\<close>

locale metadata_db = leveldb D entries view cursor + json_codec J
  for D :: "('db, 'it) leveldb_api" and entries view cursor and J :: json_api

definition store_ok :: "json_api \<Rightarrow> ('db \<Rightarrow> (string \<times> string) list) \<Rightarrow> 'db metadata_store \<Rightarrow>
    catalogue \<Rightarrow> bool" where
  "store_ok J entries st c \<longleftrightarrow>
     represents J (map_of (entries (db st))) c \<and> cached_stat st = stat_of c"

text \<open>No other file of the catalogue is at the path of \<open>meta\<close>.\<close>

definition path_free :: "MetaFile \<Rightarrow> catalogue \<Rightarrow> bool" where
  "path_free meta c \<longleftrightarrow> (\<forall>k x. c k = Some x \<longrightarrow> path x = path meta \<longrightarrow> k = md5 meta)"

inductive reach :: "('db, 'it) leveldb_api \<Rightarrow> json_api \<Rightarrow> ('db \<Rightarrow> (string \<times> string) list) \<Rightarrow>
    'db metadata_store \<Rightarrow> catalogue \<Rightarrow> bool"
  for D J entries where
  opened: "entries handle = [] \<Longrightarrow> reach D J entries (MetadataStore_open handle cfg) Map.empty"
| saved: "reach D J entries st c \<Longrightarrow> storable J meta \<Longrightarrow> path_free meta c \<Longrightarrow>
    save_meta D J meta st = (True, st') \<Longrightarrow> reach D J entries st' (spec_save meta c)"
| deleted: "reach D J entries st c \<Longrightarrow> hex_md5 k \<Longrightarrow> delete_meta D J k st = (True, st') \<Longrightarrow>
    reach D J entries st' (c(k := None))"
| status_set: "reach D J entries st c \<Longrightarrow> hex_md5 k \<Longrightarrow> named_status s \<Longrightarrow>
    update_status D J k s st = (Inr True, st') \<Longrightarrow>
    reach D J entries st' (spec_update_status k s c)"
| shard_saved: "reach D J entries st c \<Longrightarrow> CHR ''{'' \<notin> set smd5 \<Longrightarrow>
    save_meta_shard D i fid smd5 st = (True, st') \<Longrightarrow> reach D J entries st' c"

text \<open>A page of a listing: skip \<open>offset\<close>, then at most \<open>limit\<close>, or all when it is negative.\<close>

definition page :: "int \<Rightarrow> int \<Rightarrow> 'a list \<Rightarrow> 'a list" where
  "page offset limit xs =
     (let rest = drop (nat offset) xs in if limit < 0 then rest else take (nat limit) rest)"

definition with_prefix :: "string \<Rightarrow> (string \<times> string) list \<Rightarrow> (string \<times> string) list" where
  "with_prefix pfx es = filter (\<lambda>e. prefix pfx (fst e)) es"

section \<open>Lemmas on statistics\<close>

lemma stat_of_insert:
  "finite (dom c) \<Longrightarrow> c k = None \<Longrightarrow>
     stat_of (c(k \<mapsto> m)) = \<lparr>file_count = file_count (stat_of c) + 1,
       total_size = total_size (stat_of c) + fsize m\<rparr>"
proof -
  assume fin: "finite (dom c)" and new: "c k = None"
  have k: "k \<notin> dom c" using new by auto
  have "(\<Sum>j\<in>dom c. fsize (the ((c(k \<mapsto> m)) j))) = (\<Sum>j\<in>dom c. fsize (the (c j)))"
    by (rule sum.cong) (use new in auto)
  with fin k show ?thesis
    by (simp add: stat_of_def card_insert_disjoint add.commute)
qed

lemma stat_of_remove:
  assumes "finite (dom c)" "c k = Some m"
  shows "stat_of (c(k := None)) = \<lparr>file_count = file_count (stat_of c) - 1,
       total_size = total_size (stat_of c) - fsize m\<rparr>"
proof -
  have c: "c = (c(k := None))(k \<mapsto> m)"
    using assms(2) by (auto simp: fun_eq_iff)
  have "stat_of c = \<lparr>file_count = file_count (stat_of (c(k := None))) + 1,
       total_size = total_size (stat_of (c(k := None))) + fsize m\<rparr>"
    by (subst c, rule stat_of_insert) (use assms(1) in auto)
  then show ?thesis by simp
qed

lemma stat_of_status: "stat_of (spec_update_status k s c) = stat_of c"
proof -
  have "dom (spec_update_status k s c) = dom c"
    by (auto simp: spec_update_status_def dom_def split: if_splits)
  moreover have "fsize (the (spec_update_status k s c j)) = fsize (the (c j))" if "j \<in> dom c" for j
    using that by (auto simp: spec_update_status_def)
  ultimately show ?thesis
    by (simp add: stat_of_def)
qed

lemma stat_of_empty: "stat_of Map.empty = default_SystemStat"
  by (simp add: stat_of_def default_SystemStat_def)

section \<open>Lemmas on key ranges\<close>

lemma next_string_bound:
  "ch_code c < 255 \<Longrightarrow> p @ [c] \<le> k \<and> k < next_string (p @ [c]) \<longleftrightarrow> prefix (p @ [c]) k"
proof (induction p arbitrary: k)
  case Nil
  define d :: char where "d = char_of (ch_code c + 1)"
  have d: "ch_code d = Suc (ch_code c)"
    using Nil by (simp add: d_def)
  have step: "y < d \<longleftrightarrow> y < c \<or> y = c" for y
    using d by (auto simp: less_char_def less_Suc_eq)
  have "next_string [c] = [d]"
    by (simp add: next_string_def d_def)
  moreover have "[c] \<le> k \<and> k < [d] \<longleftrightarrow> prefix [c] k"
  proof (cases k)
    case (Cons y ys)
    have "(c < y \<or> c = y) \<and> y < d \<longleftrightarrow> c = y"
      unfolding step by (metis order_less_asym order_less_irrefl)
    then show ?thesis
      by (simp add: Cons)
  qed simp
  ultimately show ?case by simp
next
  case (Cons x p)
  note IH = Cons.IH [OF Cons.prems]
  have nx: "next_string (x # p @ [c]) = x # next_string (p @ [c])"
    by (simp add: next_string_def)
  show ?case
  proof (cases k)
    case (Cons y ys)
    show ?thesis
    proof (cases "x = y")
      case True
      then show ?thesis
        using IH [of ys] nx \<open>k = y # ys\<close> by simp
    next
      case False
      then show ?thesis
        using nx \<open>k = y # ys\<close> by auto
    qed
  qed simp
qed

lemma takeWhile_sorted:
  "sorted (map fst es) \<Longrightarrow> takeWhile (\<lambda>e. fst e < x) es = filter (\<lambda>e. fst e < x) es \<and>
     dropWhile (\<lambda>e. fst e < x) es = filter (\<lambda>e. \<not> fst e < x) es" for x :: "'a :: linorder"
proof (induction es)
  case (Cons e es)
  show ?case
  proof (cases "fst e < x")
    case True
    with Cons show ?thesis by simp
  next
    case False
    with Cons.prems have "\<forall>e' \<in> set es. \<not> fst e' < x"
      by (auto dest: order.strict_trans2)
    with False show ?thesis
      by (simp add: filter_empty_conv filter_id_conv)
  qed
qed simp

text \<open>The keys with a prefix are a block: the sorted entries are those below, the block, the rest.\<close>

lemma sorted_block:
  assumes "sorted_wrt (<) (map fst es)" and "pfx = p @ [c]" and "ch_code c < 255"
  obtains A B where "es = A @ with_prefix pfx es @ B"
    and "takeWhile (\<lambda>e. fst e < pfx) es = A"
    and "takeWhile (\<lambda>e. fst e < next_string pfx) es = A @ with_prefix pfx es"
    and "\<forall>e \<in> set A \<union> set B. \<not> prefix pfx (fst e)"
proof -
  have range: "prefix pfx k \<longleftrightarrow> pfx \<le> k \<and> k < next_string pfx" for k
    using next_string_bound [OF assms(3), of p k] assms(2) by simp
  have lt: "pfx < next_string pfx"
    using range [of pfx] by simp
  define A B where "A = takeWhile (\<lambda>e. fst e < pfx) es"
    and "B = dropWhile (\<lambda>e. fst e < next_string pfx) es"
  have sorted: "sorted (map fst es)"
    using assms(1) by (rule strict_sorted_imp_sorted)
  have tw: "takeWhile (\<lambda>e. fst e < x) es = filter (\<lambda>e. fst e < x) es"
    and dw: "dropWhile (\<lambda>e. fst e < x) es = filter (\<lambda>e. \<not> fst e < x) es" for x
    using takeWhile_sorted [OF sorted] by blast+
  have mid: "takeWhile (\<lambda>e. fst e < next_string pfx) es = A @ with_prefix pfx es"
  proof -
    have "filter (\<lambda>e. fst e < next_string pfx) es
        = filter (\<lambda>e. fst e < pfx) es @ filter (\<lambda>e. pfx \<le> fst e \<and> fst e < next_string pfx) es"
      using sorted
    proof (induction es)
      case (Cons e es)
      show ?case
      proof (cases "fst e < pfx")
        case True
        with Cons lt show ?thesis by auto
      next
        case False
        with Cons.prems have "filter (\<lambda>e. fst e < pfx) es = []"
          by (auto simp: filter_empty_conv dest: order.strict_trans2)
        with Cons False show ?thesis by auto
      qed
    qed simp
    then show ?thesis
      by (simp add: tw A_def with_prefix_def range)
  qed
  show ?thesis
  proof (rule that)
    show "es = A @ with_prefix pfx es @ B"
      using takeWhile_dropWhile_id [of "\<lambda>e. fst e < next_string pfx" es] mid by (simp add: B_def)
    show "takeWhile (\<lambda>e. fst e < pfx) es = A" by (simp add: A_def)
    show "takeWhile (\<lambda>e. fst e < next_string pfx) es = A @ with_prefix pfx es" by (rule mid)
    show "\<forall>e \<in> set A \<union> set B. \<not> prefix pfx (fst e)"
      by (auto simp: A_def B_def tw dw range)
  qed
qed

lemma scene_prefix_snoc: "scene_prefix dir = (''SCENE:'' @ dir) @ [CHR '':'']"
  and shard_prefix_snoc: "shard_prefix fid = (''Shard:'' @ fid) @ [CHR '':'']"
  by (simp_all add: scene_prefix_def shard_prefix_def)

lemma take_prefix: "take (length p) k = p \<longleftrightarrow> prefix p k"
  by (metis append_eq_conv_conj prefix_def take_is_prefix)

section \<open>The operations on the catalogue\<close>

context metadata_db
begin

lemma contents_finite: "represents J (contents d) c \<Longrightarrow> finite (dom c)"
  by (rule finite_subset [OF _ finite_dom_map_of [of "entries d"]]) (auto simp: represents_dom)

lemma get_meta_by_md5:
  assumes "represents J (contents (db st)) c" "hex_md5 k"
  shows "get_meta D J st k = c k"
  using assms
  by (cases "c k")
    (auto simp: get_meta_def hex_md5_is_md5 get representsD(1) [OF assms]
      deserialize_serialize representsD(5) [OF assms(1)])

lemma get_meta_by_path:
  assumes rep: "represents J (contents (db st)) c" and "c k = Some meta"
    and "\<not> is_md5 (path meta)"
  shows "get_meta D J st (path meta) = Some meta"
proof -
  have "contents (db st) (path_key (path meta)) = Some k"
    using representsD(2) [OF rep] assms(2) by blast
  moreover have "contents (db st) k = Some (serialize J meta)"
    using representsD(1) [OF rep represents_hex [OF rep assms(2)]] assms(2) by simp
  ultimately show ?thesis
    using assms(3) deserialize_serialize [OF representsD(5) [OF rep assms(2)]]
    by (simp add: get_meta_def get)
qed

lemma get_meta_no_path:
  assumes rep: "represents J (contents (db st)) c" and "\<And>k meta. c k = Some meta \<Longrightarrow> path meta \<noteq> p"
    and "\<not> is_md5 p"
  shows "get_meta D J st p = None"
proof -
  have "contents (db st) (path_key p) = None"
    using representsD(2) [OF rep, of p] assms(2) by (metis not_None_eq)
  with assms(3) show ?thesis
    by (simp add: get_meta_def get)
qed

lemma save_meta_ok:
  assumes ok: "store_ok J entries st c" and st: "storable J meta" and free: "path_free meta c"
    and run: "save_meta D J meta st = (True, st')"
  shows "store_ok J entries st' (spec_save meta c)"
proof -
  have rep: "represents J (contents (db st)) c" and stat: "cached_stat st = stat_of c"
    using ok by (auto simp: store_ok_def)
  have hex: "hex_md5 (md5 meta)" using st by (simp add: storable_def)
  have check: "save_meta_check D meta st \<longleftrightarrow> md5 meta \<in> dom c"
    using representsD(1) [OF rep hex] by (auto simp: save_meta_check_def get)
  show ?thesis
  proof (cases "md5 meta \<in> dom c")
    case True
    with run check ok show ?thesis by (simp add: save_meta_def spec_save_def)
  next
    case False
    obtain b d where w: "db_Write D (db st) (save_batch J meta) = (b, d)"
      by (cases "db_Write D (db st) (save_batch J meta)")
    with run check False have b: "b" and st': "db st' = d"
        "cached_stat st' = \<lparr>file_count = file_count (cached_stat st) + 1,
          total_size = total_size (cached_stat st) + fsize meta\<rparr>"
      by (auto simp: save_meta_def save_meta_commit_def split: if_splits)
    have new: "c (md5 meta) = None" using False by auto
    have "contents (db st) (path_key (path meta)) \<noteq> Some k" for k
      using representsD(2) [OF rep, of "path meta" k] free new by (auto simp: path_free_def)
    then have "contents (db st) (path_key (path meta)) = None"
      by (cases "contents (db st) (path_key (path meta))") auto
    then have "represents J (contents d) (c(md5 meta \<mapsto> meta))"
      using represents_save [OF rep st new] write_ok w b by simp
    with False show ?thesis
      by (simp add: store_ok_def spec_save_def st' stat stat_of_insert [OF contents_finite [OF rep] new])
  qed
qed

lemma delete_meta_result:
  assumes rep: "represents J (contents (db st)) c" and "hex_md5 k"
  shows "c k = None \<Longrightarrow> delete_meta D J k st = (False, st)"
    and "c k = Some meta \<Longrightarrow> delete_meta D J k st =
      (case db_Write D (db st) (delete_batch k meta) of
         (ok, db') \<Rightarrow> if ok
           then (True, st\<lparr>db := db', cached_stat :=
                  \<lparr>file_count = file_count (cached_stat st) - 1,
                   total_size = total_size (cached_stat st) - fsize meta\<rparr>\<rparr>)
           else (False, st\<lparr>db := db'\<rparr>))"
  using representsD(1) [OF assms] representsD(5) [OF rep, of k meta]
  by (auto simp: delete_meta_def get deserialize_serialize)

lemma delete_meta_represents:
  assumes rep: "represents J (contents (db st)) c" and hex: "hex_md5 k" and run: "delete_meta D J k st = (True, st')"
  shows "\<exists>meta. c k = Some meta \<and> represents J (contents (db st')) (c(k := None))
    \<and> cached_stat st' = \<lparr>file_count = file_count (cached_stat st) - 1, total_size = total_size (cached_stat st) - fsize meta\<rparr>"
proof -
  note result = delete_meta_result [OF rep hex]
  obtain meta where old: "c k = Some meta"
    using run result(1) by (cases "c k") auto
  obtain b d where w: "db_Write D (db st) (delete_batch k meta) = (b, d)"
    by (cases "db_Write D (db st) (delete_batch k meta)")
  with run result(2) [OF old] have b: "b" and st': "db st' = d"
      "cached_stat st' = \<lparr>file_count = file_count (cached_stat st) - 1,
        total_size = total_size (cached_stat st) - fsize meta\<rparr>"
    by (auto split: if_splits)
  have "represents J (contents d) (c(k := None))"
    using represents_delete [OF rep old] write_ok w b by simp
  with old st' show ?thesis by simp
qed

lemma delete_meta_ok:
  assumes ok: "store_ok J entries st c" and hex: "hex_md5 k"
    and run: "delete_meta D J k st = (True, st')"
  shows "k \<in> dom c \<and> store_ok J entries st' (c(k := None))"
proof -
  have rep: "represents J (contents (db st)) c" and stat: "cached_stat st = stat_of c"
    using ok by (auto simp: store_ok_def)
  obtain meta where "c k = Some meta" "represents J (contents (db st')) (c(k := None))"
      "cached_stat st' = \<lparr>file_count = file_count (cached_stat st) - 1, total_size = total_size (cached_stat st) - fsize meta\<rparr>"
    using delete_meta_represents [OF rep hex run] by blast
  with stat show ?thesis
    by (simp add: store_ok_def stat_of_remove [OF contents_finite [OF rep]] domI)
qed

lemma update_status_represents:
  assumes rep: "represents J (contents (db st)) c" and hex: "hex_md5 k" and s: "named_status s"
    and run: "update_status D J k s st = (Inr True, st')"
  shows "k \<in> dom c \<and> represents J (contents (db st')) (spec_update_status k s c) \<and> cached_stat st' = cached_stat st"
proof -
  obtain meta where old: "c k = Some meta"
    using run representsD(1) [OF rep hex] by (cases "c k") (auto simp: update_status_def get)
  obtain b d where w: "db_Put D (db st) k (serialize J (meta\<lparr>status := s\<rparr>)) = (b, d)"
    by (cases "db_Put D (db st) k (serialize J (meta\<lparr>status := s\<rparr>))")
  with run old representsD(1) [OF rep hex] have "b" "st' = st\<lparr>db := d\<rparr>"
    by (auto simp: update_status_def get deserialize_serialize [OF representsD(5) [OF rep old]])
  with represents_status [OF rep old s] put_ok [of "db st" k _ d] w old show ?thesis
    by (auto simp: spec_update_status_def)
qed

lemma update_status_ok:
  assumes ok: "store_ok J entries st c" and hex: "hex_md5 k" and s: "named_status s"
    and run: "update_status D J k s st = (Inr True, st')"
  shows "k \<in> dom c \<and> store_ok J entries st' (spec_update_status k s c)"
  using update_status_represents [OF _ hex s run, of c] ok by (auto simp: store_ok_def stat_of_status)

lemma save_meta_shard_ok:
  assumes rep: "represents J (contents (db st)) c" and v: "CHR ''{'' \<notin> set smd5"
    and run: "save_meta_shard D i fid smd5 st = (True, st')"
  shows "represents J (contents (db st')) c" and "cached_stat st' = cached_stat st"
    and "contents (db st') = (contents (db st))
      (shard_prefix fid @ to_string_nat (unat i) \<mapsto> if smd5 \<noteq> [] then smd5 else ''1'')"
proof -
  define key where "key = shard_prefix fid @ to_string_nat (unat i)"
  define val where "val = (if smd5 \<noteq> [] then smd5 else ''1'')"
  obtain q where q: "key = shard_raw q"
    by (simp add: key_def shard_prefix_def shard_raw_def)
  obtain b d where w: "db_Put D (db st) key val = (b, d)"
    by (cases "db_Put D (db st) key val")
  with run have b: "b" and st': "st' = st\<lparr>db := d\<rparr>"
    by (auto simp: save_meta_shard_def Let_def key_def val_def)
  then have d: "contents d = (contents (db st))(key \<mapsto> val)"
    using put_ok w by simp
  then show "contents (db st') = (contents (db st))
      (shard_prefix fid @ to_string_nat (unat i) \<mapsto> if smd5 \<noteq> [] then smd5 else ''1'')"
    by (simp add: st' key_def val_def)
  show "represents J (contents (db st')) c"
    using represents_shard [OF rep, of val q] v by (auto simp: st' d q val_def split: if_splits)
  show "cached_stat st' = cached_stat st" by (simp add: st')
qed

lemma reach_store_ok: "reach D J entries st c \<Longrightarrow> store_ok J entries st c"
proof (induction rule: reach.induct)
  case (opened handle cfg)
  then show ?case
    by (simp add: store_ok_def MetadataStore_open_def represents_empty stat_of_empty)
next
  case (shard_saved st c smd5 i fid st')
  then show ?case using save_meta_shard_ok(1,2) [of st c smd5 i fid st'] by (simp add: store_ok_def)
qed (blast intro: save_meta_ok delete_meta_ok [THEN conjunct2] update_status_ok [THEN conjunct2])+

end

interpretation ref_meta: metadata_db log_db log_entries fst snd ref_json
  by unfold_locales

end
