(* ===== verification/MetadataScan.thy ===== *)
theory MetadataScan
  imports MetadataSpec
begin

text \<open>
  The three loops of the metadata store over a database iterator: the uploaded shards of a file,
  the pages of a scene listing in both orders, and the recount of the statistics.  Each is shown
  to end and to compute a function of the entries in key order.
\<close>

section \<open>What the loops compute\<close>

definition shard_of_key :: "string \<Rightarrow> string \<Rightarrow> u32 option" where
  "shard_of_key pfx key =
     (case stoul (drop (length pfx) key) of Inl _ \<Rightarrow> None | Inr n \<Rightarrow> Some (word_of_nat n))"

text \<open>What a turn of the listing does, apart from the iterator.\<close>

definition list_body ::
  "('db, 'it) leveldb_api \<Rightarrow> json_api \<Rightarrow> 'db metadata_store \<Rightarrow> string \<Rightarrow> int \<Rightarrow> int \<Rightarrow>
     string \<Rightarrow> string \<Rightarrow> int \<times> int \<times> MetaFile list \<Rightarrow> bool \<times> int \<times> int \<times> MetaFile list" where
  "list_body D J st pfx offset limit key val = (\<lambda>(skipped, fetched, results).
     if take (length pfx) key \<noteq> pfx then (True, skipped, fetched, results)
     else if skipped < offset then (False, skipped + 1, fetched, results)
     else (case get_meta D J st val of
             None \<Rightarrow> (limit \<le> fetched \<and> 0 < limit, skipped, fetched, results)
           | Some meta \<Rightarrow> (limit \<le> fetched + 1 \<and> 0 < limit, skipped, fetched + 1, results @ [meta])))"

definition normal_files :: "catalogue \<Rightarrow> catalogue" where
  "normal_files c k = (case c k of None \<Rightarrow> None | Some m \<Rightarrow> if status m = NORMAL then Some m else None)"

definition outside :: "string \<Rightarrow> (string \<times> string) list \<Rightarrow> bool" where
  "outside pfx es \<longleftrightarrow> (\<forall>e \<in> set es. \<not> prefix pfx (fst e))"

section \<open>Lemmas on scanning\<close>

lemma with_prefix_all: "e \<in> set (with_prefix pfx es) \<Longrightarrow> prefix pfx (fst e)"
  by (simp add: with_prefix_def)

lemma scan_shard_body:
  assumes "\<forall>e \<in> set E. prefix pfx (fst e)" "outside pfx R"
  shows "scan (shard_body pfx) (E @ R) acc = acc @ List.map_filter (\<lambda>e. shard_of_key pfx (fst e)) E"
  using assms(1)
proof (induction E arbitrary: acc)
  case Nil
  then show ?case
    using assms(2) by (cases R) (auto simp: shard_body_def take_prefix outside_def map_filter_def)
next
  case (Cons e E)
  then show ?case
    by (cases e) (auto simp: shard_body_def take_prefix shard_of_key_def map_filter_simps
        split: sum.split)
qed

lemma scan_list_body:
  assumes "\<forall>e \<in> set E. prefix pfx (fst e) \<and> get_meta D J st (snd e) = Some (g e)" "outside pfx R"
    and "s \<le> offset" "limit \<noteq> 0" "0 < limit \<Longrightarrow> f < limit"
  shows "snd (snd (scan (list_body D J st pfx offset limit) (E @ R) (s, f, res)))
    = res @ (let rest = drop (nat (offset - s)) (map g E)
             in if limit < 0 then rest else take (nat (limit - f)) rest)"
  using assms(1,3,5)
proof (induction E arbitrary: s f res)
  case Nil
  then show ?case
    using assms(2) by (cases R) (auto simp: list_body_def take_prefix outside_def)
next
  case (Cons e E)
  obtain k v where e: "e = (k, v)" by fastforce
  show ?case
  proof (cases "s < offset")
    case True
    then have "nat (offset - s) = Suc (nat (offset - (s + 1)))" by simp
    with Cons True show ?thesis by (simp add: e list_body_def take_prefix)
  next
    case False
    then have s: "s = offset" using Cons.prems by simp
    show ?thesis
    proof (cases "0 < limit \<and> limit \<le> f + 1")
      case True
      then have "limit - f = 1" using Cons.prems(3) by linarith
      then have "nat (limit - f) = Suc 0" by simp
      with True Cons.prems s show ?thesis by (simp add: e list_body_def take_prefix)
    next
      case go: False
      then have "0 < limit \<Longrightarrow> nat (limit - f) = Suc (nat (limit - (f + 1)))" by simp
      with go Cons s assms(4) show ?thesis
        by (cases "limit < 0") (simp_all add: e list_body_def take_prefix)
    qed
  qed
qed

text \<open>What a listing can collect from any entries, whatever they hold.\<close>

lemma list_body_apply:
  "list_body D J st pfx offset limit k v (s, f, res) =
     (if \<not> prefix pfx k then (True, s, f, res)
      else if s < offset then (False, s + 1, f, res)
      else (case get_meta D J st v of
              None \<Rightarrow> (limit \<le> f \<and> 0 < limit, s, f, res)
            | Some meta \<Rightarrow> (limit \<le> f + 1 \<and> 0 < limit, s, f + 1, res @ [meta])))"
  by (simp add: list_body_def take_prefix)

lemma scan_list_bounds:
  assumes "scan (list_body D J st pfx offset limit) es (s, f, res) = (s', f', res')"
  shows "\<exists>found. res' = res @ found \<and> f' = f + int (length found) \<and> length found \<le> length es - nat (offset - s)
    \<and> (\<forall>m \<in> set found. \<exists>e \<in> set es. prefix pfx (fst e) \<and> get_meta D J st (snd e) = Some m)
    \<and> (0 < limit \<and> f < limit \<longrightarrow> f' \<le> limit)"
  using assms
proof (induction es arbitrary: s f res)
  case (Cons e es)
  obtain k v where e: "e = (k, v)" by fastforce
  consider (out) "\<not> prefix pfx k" | (skip) "prefix pfx k" "s < offset"
    | (none) "prefix pfx k" "\<not> s < offset" "get_meta D J st v = None"
    | (some) m where "prefix pfx k" "\<not> s < offset" "get_meta D J st v = Some m"
    by (cases "get_meta D J st v") auto
  then show ?case
  proof cases
    case out
    with Cons.prems show ?thesis by (auto simp: e list_body_apply)
  next
    case skip
    with Cons.prems have "scan (list_body D J st pfx offset limit) es (s + 1, f, res) = (s', f', res')"
      by (simp add: e list_body_apply)
    from Cons.IH [OF this] obtain found where "res' = res @ found" "f' = f + int (length found)"
        "length found \<le> length es - nat (offset - (s + 1))" "0 < limit \<and> f < limit \<longrightarrow> f' \<le> limit"
        "\<forall>m \<in> set found. \<exists>e \<in> set es. prefix pfx (fst e) \<and> get_meta D J st (snd e) = Some m" by auto
    moreover have "nat (offset - s) = Suc (nat (offset - (s + 1)))" using skip(2) by simp
    ultimately show ?thesis by (intro exI [of _ found]) auto
  next
    case none
    show ?thesis
    proof (cases "limit \<le> f \<and> 0 < limit")
      case True
      with none Cons.prems show ?thesis by (auto simp: e list_body_apply)
    next
      case False
      with none Cons.prems have "scan (list_body D J st pfx offset limit) es (s, f, res) = (s', f', res')"
        by (simp add: e list_body_apply split: if_splits)
      from Cons.IH [OF this] none(2) show ?thesis by (auto simp: not_less)
    qed
  next
    case some
    show ?thesis
    proof (cases "limit \<le> f + 1 \<and> 0 < limit")
      case True
      with some Cons.prems have "res' = res @ [m]" "f' = f + 1" by (auto simp: e list_body_apply)
      with some True show ?thesis by (intro exI [of _ "[m]"]) (auto simp: e not_less)
    next
      case False
      with some Cons.prems have "scan (list_body D J st pfx offset limit) es (s, f + 1, res @ [m]) = (s', f', res')"
        by (simp add: e list_body_apply split: if_splits)
      from Cons.IH [OF this] obtain found where "res' = (res @ [m]) @ found" "f' = f + 1 + int (length found)"
          "length found \<le> length es - nat (offset - s)" "0 < limit \<and> f + 1 < limit \<longrightarrow> f' \<le> limit"
          "\<forall>m \<in> set found. \<exists>e \<in> set es. prefix pfx (fst e) \<and> get_meta D J st (snd e) = Some m" by auto
      with some False show ?thesis by (intro exI [of _ "m # found"]) (auto simp: e not_less)
    qed
  qed
qed auto

lemma repair_body_pair:
  "repair_body J k v (a, b) =
     (False, case (if is_md5 k then Option.bind (deserialize J v)
                     (\<lambda>m. if status m = NORMAL then Some m else None) else None) of
               None \<Rightarrow> (a, b) | Some m \<Rightarrow> (a + 1, b + fsize m))"
  by (auto simp: repair_body_def split: option.split)

lemma scan_repair_body:
  assumes "\<And>k v. (k, v) \<in> set es \<Longrightarrow>
      (if is_md5 k then Option.bind (deserialize J v) (\<lambda>m. if status m = NORMAL then Some m else None)
       else None) = n k"
  shows "scan (repair_body J) es (a, b)
    = (a + (\<Sum>e\<leftarrow>es. case n (fst e) of None \<Rightarrow> 0 | Some _ \<Rightarrow> 1),
       b + (\<Sum>e\<leftarrow>es. case n (fst e) of None \<Rightarrow> 0 | Some m \<Rightarrow> fsize m))"
  using assms
proof (induction es arbitrary: a b)
  case (Cons e es)
  obtain k v where e: "e = (k, v)" by fastforce
  have n: "n k = (if is_md5 k then Option.bind (deserialize J v)
      (\<lambda>m. if status m = NORMAL then Some m else None) else None)"
    using Cons.prems [of k v] e by simp
  have IH: "scan (repair_body J) es (a', b')
    = (a' + (\<Sum>e\<leftarrow>es. case n (fst e) of None \<Rightarrow> 0 | Some _ \<Rightarrow> 1),
       b' + (\<Sum>e\<leftarrow>es. case n (fst e) of None \<Rightarrow> 0 | Some m \<Rightarrow> fsize m))" for a' b'
    using Cons.prems by (intro Cons.IH) simp
  show ?case
    by (cases "n k") (simp_all add: e n [symmetric] repair_body_pair IH add.assoc)
qed simp

lemma sum_entries:
  fixes f :: "'v \<Rightarrow> 'm :: comm_monoid_add"
  assumes "distinct (map fst es)" "finite (dom n)" "dom n \<subseteq> fst ` set es"
  shows "(\<Sum>e\<leftarrow>es. case n (fst e) of None \<Rightarrow> 0 | Some m \<Rightarrow> f m) = (\<Sum>k \<in> dom n. f (the (n k)))"
proof -
  let ?g = "\<lambda>k. case n k of None \<Rightarrow> 0 | Some m \<Rightarrow> f m"
  have "(\<Sum>e\<leftarrow>es. ?g (fst e)) = (\<Sum>k\<leftarrow>map fst es. ?g k)"
    by (simp add: comp_def)
  also have "\<dots> = (\<Sum>k \<in> fst ` set es. ?g k)"
    using sum_list_distinct_conv_sum_set [OF assms(1), of ?g] by simp
  also have "\<dots> = (\<Sum>k \<in> dom n. ?g k)"
    by (rule sum.mono_neutral_right) (use assms(3) in \<open>auto split: option.splits\<close>)
  also have "\<dots> = (\<Sum>k \<in> dom n. f (the (n k)))"
    by (rule sum.cong) auto
  finally show ?thesis .
qed

text \<open>Different files have different scene keys.\<close>

lemma represents_scene_keys:
  assumes rep: "represents J m c" and "c k = Some x" "c k' = Some x'" "meta_scene_key x = meta_scene_key x'"
  shows "k = k'"
  using scene_key_md5 [of "md5 x" "md5 x'"] representsD(4,5) [OF rep assms(2)] representsD(4,5) [OF rep assms(3)] assms(4)
  by (simp add: meta_scene_key_def storable_def)

section \<open>The loops under the contracts\<close>

context metadata_db
begin

lemma entries_distinct: "distinct (map fst (entries d))"
  using entries_sorted strict_sorted_iff by blast

lemma get_uploaded_shard_eq:
  assumes "fid \<noteq> []"
  shows "get_uploaded_shard D st fid
    = Some (List.map_filter (\<lambda>e. shard_of_key (shard_prefix fid) (fst e))
              (with_prefix (shard_prefix fid) (entries (db st))))"
proof -
  let ?p = "shard_prefix fid" and ?es = "entries (db st)"
  obtain A B where es: "?es = A @ with_prefix ?p ?es @ B"
      and A: "takeWhile (\<lambda>e. fst e < ?p) ?es = A"
      and out: "\<forall>e \<in> set A \<union> set B. \<not> prefix ?p (fst e)"
    by (rule sorted_block [OF entries_sorted shard_prefix_snoc]) (simp, blast)
  have "drop (length A) ?es = with_prefix ?p ?es @ B"
    by (subst (1) es) simp
  then show ?thesis
    using assms out A scan_shard_body [of "with_prefix ?p ?es" ?p B "[]"]
    by (simp add: get_uploaded_shard_def Let_def for_valid_next seek view_move view_new
        with_prefix_def outside_def)
qed

lemma set_uploaded_shard:
  assumes "fid \<noteq> []"
  shows "\<exists>xs. get_uploaded_shard D st fid = Some xs \<and>
    set xs = {i. \<exists>k \<in> dom (contents (db st)). prefix (shard_prefix fid) k
                  \<and> shard_of_key (shard_prefix fid) k = Some i}"
  by (force simp: get_uploaded_shard_eq [OF assms] set_map_filter with_prefix_def
      dom_map_of_conv_image_fst)

text \<open>A descending listing starts at the last key below the bound, wherever the seeks end.\<close>

lemma list_step_moves:
  "moves (if order = 1 then it_Next D else it_Prev D) (list_step D J st pfx offset limit order) (list_body D J st pfx offset limit)"
  by (auto simp: moves_def list_step_def list_body_def Let_def split: option.splits)

lemma while_valid_list_start:
  assumes "order \<noteq> 1" and lt: "pfx < next_string pfx" and body: "moves (it_Prev D) body turn"
  shows "while_valid D body (list_start D it0 pfx order) acc
    = Some (scan turn (rev (takeWhile (\<lambda>e. fst e < next_string pfx) (view it0))) acc)"
proof -
  let ?es = "view it0" and ?it1 = "it_Seek D it0 pfx" and ?ub = "next_string pfx"
  let ?n = "length (takeWhile (\<lambda>e. fst e < ?ub) ?es)"
  have n: "?n \<le> length ?es" and tw: "take ?n ?es = takeWhile (\<lambda>e. fst e < ?ub) ?es"
    by (auto simp: length_takeWhile_le takeWhile_eq_take [symmetric])
  have start: "view (list_start D it0 pfx order) = ?es"
    by (simp add: list_start_def Let_def view_move)
  have cursor: "cursor (list_start D it0 pfx order) = (if ?n = 0 then length ?es else ?n - 1)"
      if "?es \<noteq> []"
  proof (cases "it_Valid D ?it1")
    case False
    then have "length (takeWhile (\<lambda>e. fst e < pfx) ?es) = length ?es"
      using length_takeWhile_le [of "\<lambda>e. fst e < pfx" ?es] by (simp add: valid view_move seek)
    then have "\<forall>e \<in> set ?es. fst e < pfx"
      by (metis takeWhile_eq_all_conv takeWhile_eq_take take_all_iff order_refl)
    then have "takeWhile (\<lambda>e. fst e < ?ub) ?es = ?es"
      using lt by (auto simp: takeWhile_eq_all_conv)
    then have "?n = length ?es"
      by (rule arg_cong)
    with False assms(1) that show ?thesis
      by (simp add: list_start_def Let_def seek_last view_move)
  next
    case True
    show ?thesis
    proof (cases "it_Valid D (it_Seek D ?it1 ?ub)")
      case v: True
      with True assms(1) show ?thesis
        by (simp add: list_start_def Let_def seek view_move prev_cursor)
    next
      case v: False
      then have "?n = length ?es"
        using n by (simp add: valid view_move seek)
      with v True assms(1) that show ?thesis
        by (simp add: list_start_def Let_def seek_last view_move)
    qed
  qed
  show ?thesis
  proof (cases "?es = [] \<or> ?n = 0")
    case True
    then have "\<not> it_Valid D (list_start D it0 pfx order)"
      using cursor start by (cases "?es = []") (auto simp: valid)
    moreover have "takeWhile (\<lambda>e. fst e < ?ub) ?es = []"
      using True by auto
    ultimately show ?thesis
      by (simp add: while_valid.simps [of D body "list_start D it0 pfx order"])
  next
    case False
    then have "0 < ?n"
      by simp
    then have "?n - 1 < length ?es"
      using n by linarith
    then have "it_Valid D (list_start D it0 pfx order)"
      using cursor start False by (simp add: valid)
    with while_valid_prev [OF body this] False cursor start tw show ?thesis
      by simp
  qed
qed

lemma scene_entry:
  assumes rep: "represents J (contents (db st)) c" and "e \<in> set (entries (db st))"
    and "prefix (scene_prefix dir) (fst e)"
  shows "\<exists>meta. c (snd e) = Some meta \<and> meta_scene_key meta = fst e"
proof -
  obtain q where q: "fst e = scene_raw q"
    using assms(3) by (auto simp: prefix_def scene_prefix_def scene_raw_def)
  have "contents (db st) (fst e) = Some (snd e)"
    using assms(2) entries_distinct by (simp add: map_of_eq_Some_iff)
  then have "contents (db st) (scene_raw q) = Some (snd e)"
    unfolding q .
  then show ?thesis
    using representsD(3) [OF rep] q by metis
qed

text \<open>The scene index holds the keys of the files and no others.\<close>

lemma scene_index:
  assumes rep: "represents J (contents (db st)) c"
  shows "c k = Some meta \<Longrightarrow> db_Get D (db st) (meta_scene_key meta) = Some k"
    and "(\<And>k x. c k = Some x \<Longrightarrow> meta_scene_key x \<noteq> meta_scene_key old) \<Longrightarrow> db_Get D (db st) (meta_scene_key old) = None"
proof -
  show "db_Get D (db st) (meta_scene_key meta) = Some k" if "c k = Some meta"
  proof -
    obtain q where "meta_scene_key meta = scene_raw q" using SCENE_of_key by blast
    with representsD(3) [OF rep, of q k] that show ?thesis by (auto simp: get)
  qed
  show "db_Get D (db st) (meta_scene_key old) = None" if "\<And>k x. c k = Some x \<Longrightarrow> meta_scene_key x \<noteq> meta_scene_key old"
  proof -
    obtain q where q: "meta_scene_key old = scene_raw q" using SCENE_of_key by blast
    with representsD(3) [OF rep, of q] that have "contents (db st) (scene_raw q) \<noteq> Some k" for k by metis
    with q show ?thesis by (cases "contents (db st) (scene_raw q)") (auto simp: get)
  qed
qed

lemma scene_files:
  assumes rep: "represents J (contents (db st)) c"
  shows "(\<lambda>e. the (c (snd e))) ` set (with_prefix (scene_prefix dir) (entries (db st)))
    = {meta \<in> ran c. prefix (scene_prefix dir) (meta_scene_key meta)}" (is "?A = ?B")
proof
  show "?A \<subseteq> ?B"
    using scene_entry [OF rep] by (fastforce simp: with_prefix_def ran_def)
  show "?B \<subseteq> ?A"
  proof
    fix meta
    assume "meta \<in> ?B"
    then obtain k where k: "c k = Some meta" and pre: "prefix (scene_prefix dir) (meta_scene_key meta)"
      by (auto simp: ran_def)
    obtain q where q: "meta_scene_key meta = scene_raw q"
      using SCENE_of_key by blast
    have "contents (db st) (scene_raw q) = Some k"
      using representsD(3) [OF rep] k q by metis
    then have "(meta_scene_key meta, k) \<in> set (entries (db st))"
      unfolding q by (rule map_of_SomeD)
    then have "(meta_scene_key meta, k) \<in> set (with_prefix (scene_prefix dir) (entries (db st)))"
      using pre by (simp add: with_prefix_def)
    then show "meta \<in> ?A"
      using k by (force simp: image_iff)
  qed
qed

text \<open>A loop from the start of the listing as a scan of the entries, and the listing itself.\<close>

definition listed :: "string \<Rightarrow> int \<Rightarrow> 'db metadata_store \<Rightarrow> (string \<times> string) list" where
  "listed dir order st =
     (if order = 1 then dropWhile (\<lambda>e. fst e < scene_prefix dir) (entries (db st))
      else rev (takeWhile (\<lambda>e. fst e < next_string (scene_prefix dir)) (entries (db st))))"

lemma while_valid_listed:
  assumes body: "moves (if order = 1 then it_Next D else it_Prev D) body turn"
  shows "while_valid D body (list_start D (db_NewIterator D (db st)) (scene_prefix dir) order) acc = Some (scan turn (listed dir order st) acc)"
proof (cases "order = 1")
  case True
  with body have "moves (it_Next D) body turn" by simp
  from while_valid_next [OF this] True show ?thesis
    by (simp add: list_start_def listed_def seek view_move view_new dropWhile_eq_drop)
next
  case False
  have lt: "scene_prefix dir < next_string (scene_prefix dir)"
    using next_string_bound [of "CHR '':''" "''SCENE:'' @ dir" "scene_prefix dir"] by (simp add: scene_prefix_snoc)
  from body False have "moves (it_Prev D) body turn" by simp
  from while_valid_list_start [OF False lt this] False show ?thesis
    by (simp add: listed_def view_new)
qed

lemma list_dir_scan:
  assumes "0 \<le> offset" "limit \<noteq> 0"
  shows "list_dir D J st dir offset limit order
    = Some (snd (snd (scan (list_body D J st (scene_prefix dir) offset limit) (listed dir order st) (0, 0, []))))"
  using assms by (simp add: list_dir_def Let_def while_valid_listed [OF list_step_moves])

text \<open>What is listed is the block of the keys of the scene, in the order asked for, and then other keys.\<close>

lemma listed_block:
  obtains R where "listed dir order st = (if order = 1 then id else rev) (with_prefix (scene_prefix dir) (entries (db st))) @ R"
    "outside (scene_prefix dir) R"
proof -
  let ?p = "scene_prefix dir" and ?es = "entries (db st)"
  let ?E = "with_prefix ?p ?es"
  obtain A B where es: "?es = A @ ?E @ B"
      and A: "takeWhile (\<lambda>e. fst e < ?p) ?es = A"
      and AE: "takeWhile (\<lambda>e. fst e < next_string ?p) ?es = A @ ?E"
      and out: "\<forall>e \<in> set A \<union> set B. \<not> prefix ?p (fst e)"
    by (rule sorted_block [OF entries_sorted scene_prefix_snoc]) (simp, blast)
  have "dropWhile (\<lambda>e. fst e < ?p) ?es = ?E @ B"
    unfolding dropWhile_eq_drop A by (subst (1) es) simp
  then show thesis
    using that [of "if order = 1 then B else rev A"] AE out by (simp add: listed_def outside_def)
qed

text \<open>A listing is a page of the block of its keys, when every entry there leads to a record.\<close>

lemma list_dir_block:
  assumes block: "\<forall>e \<in> set (with_prefix (scene_prefix dir) (entries (db st))). get_meta D J st (snd e) = Some (g e)"
    and "0 \<le> offset" "limit \<noteq> 0"
  shows "list_dir D J st dir offset limit order
    = Some (page offset limit
        ((if order = 1 then id else rev) (map g (with_prefix (scene_prefix dir) (entries (db st))))))"
proof -
  let ?p = "scene_prefix dir" and ?E = "with_prefix (scene_prefix dir) (entries (db st))"
  obtain R where R: "listed dir order st = (if order = 1 then id else rev) ?E @ R" "outside ?p R" by (rule listed_block)
  have E: "\<forall>e \<in> set ((if order = 1 then id else rev) ?E). prefix ?p (fst e) \<and> get_meta D J st (snd e) = Some (g e)"
    using block with_prefix_all by auto
  from scan_list_body [OF E R(2), of 0 offset limit 0 "[]"] assms(2,3) show ?thesis
    by (auto simp: list_dir_scan R(1) page_def rev_map Let_def)
qed

lemma list_dir_eq:
  assumes rep: "represents J (contents (db st)) c" and "0 \<le> offset" "limit \<noteq> 0"
  shows "list_dir D J st dir offset limit order
    = Some (page offset limit
        ((if order = 1 then id else rev)
           (map (\<lambda>e. the (c (snd e))) (with_prefix (scene_prefix dir) (entries (db st))))))"
proof -
  have "get_meta D J st (snd e) = Some (the (c (snd e)))"
    if "e \<in> set (with_prefix (scene_prefix dir) (entries (db st)))" for e
  proof -
    have "e \<in> set (entries (db st))" "prefix (scene_prefix dir) (fst e)" using that by (auto simp: with_prefix_def)
    from scene_entry [OF rep this] obtain m where "c (snd e) = Some m"
      by blast
    with get_meta_by_md5 [OF rep represents_hex [OF rep this]] show ?thesis by simp
  qed
  with assms(2,3) show ?thesis by (intro list_dir_block) auto
qed

text \<open>The whole listing of a scene.\<close>

lemma list_dir_all:
  assumes rep: "represents J (contents (db st)) c"
  shows "\<exists>files. list_dir D J st dir 0 (- 1) order = Some files
    \<and> set files = {m \<in> ran c. prefix (scene_prefix dir) (meta_scene_key m)}"
  using list_dir_eq [OF rep, of 0 "- 1" dir order] scene_files [OF rep, of dir] by (simp add: page_def)

text \<open>Whatever the database holds, the loops end, and their results are bounded.\<close>

lemma list_dir_bounded:
  "\<exists>metas. list_dir D J st dir offset limit order = Some metas
    \<and> (offset < 0 \<or> limit = 0 \<longrightarrow> metas = []) \<and> (0 < limit \<longrightarrow> length metas \<le> nat limit)
    \<and> length metas \<le> length (entries (db st)) - nat offset
    \<and> (\<forall>m \<in> set metas. \<exists>e \<in> set (entries (db st)). prefix (scene_prefix dir) (fst e) \<and> get_meta D J st (snd e) = Some m)"
proof (cases "0 \<le> offset \<and> limit \<noteq> 0")
  case True
  let ?es = "listed dir order st"
  obtain s f res where scan: "scan (list_body D J st (scene_prefix dir) offset limit) ?es (0, 0, []) = (s, f, res)"
    by (cases "scan (list_body D J st (scene_prefix dir) offset limit) ?es (0, 0, [])") auto
  have es: "length ?es \<le> length (entries (db st))" "set ?es \<subseteq> set (entries (db st))"
    by (auto simp: listed_def length_dropWhile_le length_takeWhile_le dest: set_dropWhileD set_takeWhileD)
  from scan_list_bounds [OF scan] have "f = int (length res)" "length res \<le> length ?es - nat offset" "0 < limit \<longrightarrow> f \<le> limit"
      "\<forall>m \<in> set res. \<exists>e \<in> set ?es. prefix (scene_prefix dir) (fst e) \<and> get_meta D J st (snd e) = Some m"
    by auto
  moreover have "list_dir D J st dir offset limit order = Some res"
    using list_dir_scan [of offset limit st dir order] True scan by simp
  ultimately show ?thesis using True es by (intro exI [of _ res]) (auto simp: le_nat_iff)
qed (auto simp: list_dir_def)

lemma repair_stat_bounded:
  "\<exists>st' n. repair_stat D J st = Some st' \<and> db st' = db st \<and> file_count (get_stat st') = of_nat n \<and> n \<le> length (entries (db st))"
proof -
  have scan: "\<exists>n. fst (scan (repair_body J) es (a, b)) = a + of_nat n \<and> n \<le> length es" for es and a b :: u64
  proof (induction es arbitrary: a b)
    case (Cons e es)
    obtain k v where e: "e = (k, v)" by fastforce
    obtain a' b' where t: "repair_body J k v (a, b) = (False, a', b')" "a' = a \<or> a' = a + 1"
      using that by (cases "if is_md5 k then Option.bind (deserialize J v) (\<lambda>m. if status m = NORMAL then Some m else None) else None")
        (auto simp: repair_body_pair)
    obtain n where n: "fst (scan (repair_body J) es (a', b')) = a' + of_nat n" "n \<le> length es" using Cons by blast
    from t(2) show ?case
    proof
      assume "a' = a"
      with n t(1) show ?thesis by (intro exI [of _ n]) (simp add: e)
    next
      assume "a' = a + 1"
      with n t(1) show ?thesis by (intro exI [of _ "Suc n"]) (simp add: e algebra_simps)
    qed
  qed (auto intro: exI [of _ 0])
  from scan [of "entries (db st)" 0 0] show ?thesis
    by (auto simp: repair_stat_def for_valid_next seek_first view_move view_new get_stat_def split: prod.splits)
qed

lemma get_uploaded_shard_bounded:
  "\<exists>xs. get_uploaded_shard D st fid = Some xs \<and> length xs \<le> length (entries (db st))"
proof (cases "fid = []")
  case False
  have short: "length (List.map_filter f xs) \<le> length xs" for f :: "string \<times> string \<Rightarrow> u32 option" and xs
    by (induction xs) (auto simp: map_filter_simps split: option.split)
  have block: "length (with_prefix p es) \<le> length es" for p and es :: "(string \<times> string) list"
    by (simp add: with_prefix_def)
  show ?thesis unfolding get_uploaded_shard_eq [OF False] using order_trans [OF short block] by blast
qed (simp add: get_uploaded_shard_def)

lemma repair_stat_eq:
  assumes rep: "represents J (contents (db st)) c"
  shows "repair_stat D J st = Some (st\<lparr>cached_stat := stat_of (normal_files c)\<rparr>)"
proof -
  let ?es = "entries (db st)" and ?n = "normal_files c"
  have fin: "finite (dom ?n)"
    by (rule finite_subset [OF _ contents_finite [OF rep]])
      (auto simp: normal_files_def split: option.splits)
  have sub: "dom ?n \<subseteq> fst ` set ?es"
    using represents_dom [OF rep]
    by (auto simp: normal_files_def dom_map_of_conv_image_fst split: option.splits)
  have val: "(if is_md5 k then Option.bind (deserialize J v)
      (\<lambda>m. if status m = NORMAL then Some m else None) else None) = ?n k" if "(k, v) \<in> set ?es" for k v
  proof -
    have m: "contents (db st) k = Some v"
      using that entries_distinct by (simp add: map_of_eq_Some_iff)
    show ?thesis
    proof (cases "hex_md5 k")
      case True
      then obtain meta where "c k = Some meta" "v = serialize J meta"
        using m representsD(1) [OF rep True] by auto
      with True representsD(5) [OF rep] show ?thesis
        by (simp add: normal_files_def hex_md5_is_md5 deserialize_serialize)
    next
      case False
      then have "c k = None"
        using represents_hex [OF rep] by (cases "c k") auto
      with False representsD(6) [OF rep m] show ?thesis
        by (simp add: normal_files_def deserialize_brace)
    qed
  qed
  note sums = sum_entries [OF entries_distinct fin sub]
  have count: "(\<Sum>e\<leftarrow>?es. case ?n (fst e) of None \<Rightarrow> 0 | Some m \<Rightarrow> (1 :: u64))
      = of_nat (card (dom ?n))"
    using sums [of "\<lambda>_. 1 :: u64"] by simp
  show ?thesis
    using scan_repair_body [of ?es J ?n 0 0] val count sums [of fsize]
    by (simp add: repair_stat_def for_valid_next seek_first view_move view_new stat_of_def)
qed

end

end
