(* ===== verification/MetadataProps.thy ===== *)
theory MetadataProps
  imports MetadataScan
begin

text \<open>
  What the clients of the metadata store may rely on, under the contracts of LevelDB and of the
  JSON library: the store behaves like a catalogue, the uploaded shards of a file are the ones
  saved for it, a listing is a page of the files of its scene and a recount counts the files of
  normal status.  The last section shows, on concrete stores, behaviour the code does not intend.
\<close>

section \<open>A store to try the theorems on\<close>

definition sample_md5 :: "char \<Rightarrow> string" where
  "sample_md5 c = replicate 32 c"

definition sample_meta :: "char \<Rightarrow> string \<Rightarrow> u64 \<Rightarrow> MetaFile" where
  "sample_meta c sc t = default_MetaFile\<lparr>md5 := sample_md5 c, path := c # ''.txt'', name := ''x.txt'',
     scene := sc, fsize := 5, mtime := t\<rparr>"

definition sample_empty :: "write_op list metadata_store" where
  "sample_empty = MetadataStore_open [] default_metaConfig"

definition sample_store :: "write_op list metadata_store" where
  "sample_store = snd (save_meta log_db ref_json (sample_meta CHR ''a'' ''img'' 7) sample_empty)"

lemma log_db_ops:
  "db_Get log_db d k = map_of (log_entries d) k" "db_Put log_db d k v = (True, d @ [Put k v])"
  "db_Write log_db d ops = (True, d @ ops)"
  by (simp_all add: log_db_def)

lemma sample_storable: "isxdigit c \<Longrightarrow> storable ref_json (sample_meta c sc t)"
  by (simp add: storable_def sample_meta_def sample_md5_def hex_md5_def forget_shard_paths_def
      default_MetaFile_def ref_json_def)

lemma sample_empty_reach: "reach log_db ref_json log_entries sample_empty Map.empty"
  unfolding sample_empty_def by (rule reach.opened) (simp add: log_entries_def)

lemma sample_save: "save_meta log_db ref_json (sample_meta CHR ''a'' ''img'' 7) sample_empty = (True, sample_store)"
  by (simp add: sample_store_def save_meta_def save_meta_check_def save_meta_commit_def log_db_def
      sample_empty_def MetadataStore_open_def log_entries_def)

lemma sample_save_any: "\<exists>st. save_meta log_db J meta sample_empty = (True, st)"
  by (simp add: save_meta_def save_meta_check_def save_meta_commit_def log_db_ops
      sample_empty_def MetadataStore_open_def log_entries_def)

lemma sample_reach:
  "reach log_db ref_json log_entries sample_store [sample_md5 CHR ''a'' \<mapsto> sample_meta CHR ''a'' ''img'' 7]"
  using reach.saved [OF sample_empty_reach sample_storable _ sample_save]
  by (simp add: path_free_def spec_save_def isxdigit_def sample_meta_def)

lemma sample_hex [simp]: "isxdigit c \<Longrightarrow> hex_md5 (sample_md5 c)"
  by (simp add: sample_md5_def hex_md5_def)

section \<open>The store is a catalogue\<close>

text \<open>C1: In every state reached from an empty database by successful operations, \<open>get_meta\<close> on an
  MD5 is the lookup in the catalogue of the files saved and not deleted, \<open>get_meta\<close> on the path of
  a file finds that file, and \<open>get_stat\<close> is the number and the total size of the catalogue's
  files.\<close>

theorem reach_observable:
  assumes "metadata_db D entries view cursor J" and "reach D J entries st c"
  shows "(\<forall>k. hex_md5 k \<longrightarrow> get_meta D J st k = c k)
    \<and> (\<forall>k meta. c k = Some meta \<longrightarrow> \<not> is_md5 (path meta) \<longrightarrow> get_meta D J st (path meta) = Some meta)
    \<and> get_stat st = stat_of c"
  using metadata_db.reach_store_ok [OF assms] metadata_db.get_meta_by_md5 [OF assms(1), of st c]
    metadata_db.get_meta_by_path [OF assms(1), of st c]
  by (auto simp: store_ok_def get_stat_def)

theorem reach_observable_witness:
  "get_meta log_db ref_json sample_store (sample_md5 CHR ''a'') = Some (sample_meta CHR ''a'' ''img'' 7)
   \<and> get_meta log_db ref_json sample_store (sample_md5 CHR ''b'') = None
   \<and> get_meta log_db ref_json sample_store ''a.txt'' = Some (sample_meta CHR ''a'' ''img'' 7)
   \<and> get_stat sample_store = \<lparr>file_count = 1, total_size = 5\<rparr>"
proof -
  note obs = reach_observable [OF ref_meta.metadata_db_axioms sample_reach]
  have ab: "sample_md5 CHR ''b'' \<noteq> sample_md5 CHR ''a''" by (simp add: sample_md5_def)
  show ?thesis
    using obs [THEN conjunct1, rule_format, of "sample_md5 CHR ''a''"]
      obs [THEN conjunct1, rule_format, of "sample_md5 CHR ''b''"] ab
      obs [THEN conjunct2, THEN conjunct1, rule_format, of "sample_md5 CHR ''a''"]
      obs [THEN conjunct2, THEN conjunct2]
    by (simp add: isxdigit_def sample_meta_def is_md5_def stat_of_def)
qed

section \<open>Each operation\<close>

lemma store_ok_observe:
  assumes "metadata_db D entries view cursor J" and "store_ok J entries st c"
  shows "hex_md5 k \<Longrightarrow> get_meta D J st k = c k"
    and "c k = Some meta \<Longrightarrow> \<not> is_md5 (path meta) \<Longrightarrow> get_meta D J st (path meta) = Some meta"
    and "(\<And>k meta. c k = Some meta \<Longrightarrow> path meta \<noteq> p) \<Longrightarrow> \<not> is_md5 p \<Longrightarrow> get_meta D J st p = None"
    and "get_stat st = stat_of c"
  using metadata_db.get_meta_by_md5 [OF assms(1), of st c k] assms(2)
    metadata_db.get_meta_by_path [OF assms(1), of st c k meta]
    metadata_db.get_meta_no_path [OF assms(1), of st c p]
  by (auto simp: store_ok_def get_stat_def)

lemma represents_paths_unique:
  "represents J m c \<Longrightarrow> c k = Some meta \<Longrightarrow> c j = Some x \<Longrightarrow> path x = path meta \<Longrightarrow> j = k"
  using representsD(2) [of J m c "path meta"] by (metis option.inject)

lemma reach_finite:
  "metadata_db D entries view cursor J \<Longrightarrow> reach D J entries st c \<Longrightarrow> finite (dom c)"
  using metadata_db.contents_finite [of D entries view cursor J "db st" c]
    metadata_db.reach_store_ok [of D entries view cursor J st c]
  by (simp add: store_ok_def)

text \<open>C19: A file that \<open>save_meta\<close> saves (a new MD5, a path no other file has) is found by its MD5
  and by its path, every other MD5 is looked up as before, and the statistics grow by one file and
  by its size.\<close>

theorem save_meta_found:
  assumes db: "metadata_db D entries view cursor J" and reach: "reach D J entries st c"
    and meta: "storable J meta" "c (md5 meta) = None" "path_free meta c" "\<not> is_md5 (path meta)"
    and run: "save_meta D J meta st = (True, st')"
  shows "get_meta D J st' (md5 meta) = Some meta \<and> get_meta D J st' (path meta) = Some meta
    \<and> (\<forall>k. hex_md5 k \<longrightarrow> k \<noteq> md5 meta \<longrightarrow> get_meta D J st' k = get_meta D J st k)
    \<and> get_stat st' = \<lparr>file_count = file_count (get_stat st) + 1,
                       total_size = total_size (get_stat st) + fsize meta\<rparr>"
proof -
  have old: "store_ok J entries st c"
    using metadata_db.reach_store_ok [OF db reach] .
  have new: "store_ok J entries st' (c(md5 meta \<mapsto> meta))"
    using metadata_db.save_meta_ok [OF db old meta(1,3) run] meta(2)
    by (simp add: spec_save_def domIff)
  have hex: "hex_md5 (md5 meta)" using meta(1) by (simp add: storable_def)
  show ?thesis
    using store_ok_observe(1,4) [OF db old] store_ok_observe(1,4) [OF db new] hex meta(4)
      store_ok_observe(2) [OF db new, of "md5 meta" meta]
      stat_of_insert [OF reach_finite [OF db reach] meta(2)]
    by simp
qed

theorem save_meta_found_witness:
  "get_meta log_db ref_json sample_store (sample_md5 CHR ''a'') = Some (sample_meta CHR ''a'' ''img'' 7)
   \<and> get_stat sample_store = \<lparr>file_count = 1, total_size = 5\<rparr>"
  using save_meta_found [OF ref_meta.metadata_db_axioms sample_empty_reach sample_storable _ _ _ sample_save]
  by (simp add: isxdigit_def sample_meta_def is_md5_def path_free_def get_stat_def sample_empty_def
      MetadataStore_open_def default_SystemStat_def)

text \<open>A second \<open>save_meta\<close> of an MD5 the store has succeeds and changes nothing: neither the
  metadata nor the indexes nor the statistics.\<close>

theorem save_meta_duplicate:
  assumes db: "metadata_db D entries view cursor J" and reach: "reach D J entries st c"
    and "hex_md5 (md5 meta)" "c (md5 meta) = Some old"
  shows "save_meta D J meta st = (True, st)"
proof -
  have "represents J (map_of (entries (db st))) c"
    using metadata_db.reach_store_ok [OF db reach] by (simp add: store_ok_def)
  from representsD(1) [OF this assms(3)] assms(4)
  have "db_Get D (db st) (md5 meta) \<noteq> None"
    using leveldb.get [OF metadata_db.axioms(1) [OF db]] by simp
  then show ?thesis by (simp add: save_meta_def save_meta_check_def)
qed

theorem save_meta_duplicate_witness:
  "save_meta log_db ref_json (sample_meta CHR ''a'' ''doc'' 8) sample_store = (True, sample_store)"
  by (rule save_meta_duplicate [OF ref_meta.metadata_db_axioms sample_reach])
    (simp_all add: sample_meta_def isxdigit_def)

text \<open>C12: After \<open>delete_meta\<close> succeeds, the file is found neither by its MD5 nor by its path, every
  other MD5 is looked up as before, and the statistics shrink by one file and by its size; an MD5
  the store does not have is refused and nothing changes.\<close>

theorem delete_meta_forgets:
  assumes db: "metadata_db D entries view cursor J" and reach: "reach D J entries st c"
    and hex: "hex_md5 k"
  shows "(c k = None \<longrightarrow> delete_meta D J k st = (False, st))
    \<and> (\<forall>st'. delete_meta D J k st = (True, st') \<longrightarrow>
        (\<exists>meta. c k = Some meta \<and> get_meta D J st' k = None
          \<and> (\<not> is_md5 (path meta) \<longrightarrow> get_meta D J st' (path meta) = None)
          \<and> (\<forall>j. hex_md5 j \<longrightarrow> j \<noteq> k \<longrightarrow> get_meta D J st' j = get_meta D J st j)
          \<and> get_stat st' = \<lparr>file_count = file_count (get_stat st) - 1,
                             total_size = total_size (get_stat st) - fsize meta\<rparr>))"
proof -
  have old: "store_ok J entries st c"
    using metadata_db.reach_store_ok [OF db reach] .
  have rep: "represents J (map_of (entries (db st))) c"
    using old by (simp add: store_ok_def)
  have "\<exists>meta. c k = Some meta \<and> get_meta D J st' k = None
      \<and> (\<not> is_md5 (path meta) \<longrightarrow> get_meta D J st' (path meta) = None)
      \<and> (\<forall>j. hex_md5 j \<longrightarrow> j \<noteq> k \<longrightarrow> get_meta D J st' j = get_meta D J st j)
      \<and> get_stat st' = \<lparr>file_count = file_count (get_stat st) - 1,
                         total_size = total_size (get_stat st) - fsize meta\<rparr>"
    if run: "delete_meta D J k st = (True, st')" for st'
  proof -
    obtain meta where meta: "c k = Some meta" and new: "store_ok J entries st' (c(k := None))"
      using metadata_db.delete_meta_ok [OF db old hex run] by auto
    have "path x \<noteq> path meta" if "(c(k := None)) j = Some x" for j x
      using represents_paths_unique [OF rep meta] that by (auto split: if_splits)
    then show ?thesis
      using meta hex store_ok_observe [OF db old] store_ok_observe [OF db new]
        stat_of_remove [OF reach_finite [OF db reach] meta]
      by (intro exI [of _ meta]) simp
  qed
  then show ?thesis
    using metadata_db.delete_meta_result(1) [OF db rep hex] by blast
qed

definition sample_removed :: "write_op list metadata_store" where
  "sample_removed = snd (delete_meta log_db ref_json (sample_md5 CHR ''a'') sample_store)"

lemma sample_delete: "delete_meta log_db ref_json (sample_md5 CHR ''a'') sample_store = (True, sample_removed)"
proof -
  have "represents ref_json (map_of (log_entries (db sample_store)))
      [sample_md5 CHR ''a'' \<mapsto> sample_meta CHR ''a'' ''img'' 7]"
    using ref_meta.reach_store_ok [OF sample_reach] by (simp add: store_ok_def)
  from ref_meta.delete_meta_result(2) [OF this, of "sample_md5 CHR ''a''"]
  show ?thesis
    by (simp add: sample_removed_def isxdigit_def) (simp add: log_db_def)
qed

theorem delete_meta_forgets_witness:
  "get_meta log_db ref_json sample_removed (sample_md5 CHR ''a'') = None
   \<and> get_meta log_db ref_json sample_removed ''a.txt'' = None
   \<and> delete_meta log_db ref_json (sample_md5 CHR ''b'') sample_store = (False, sample_store)
   \<and> get_stat sample_removed = \<lparr>file_count = 0, total_size = 0\<rparr>"
proof -
  note forgets = delete_meta_forgets [OF ref_meta.metadata_db_axioms sample_reach]
  have stat: "get_stat sample_store = \<lparr>file_count = 1, total_size = 5\<rparr>"
    using store_ok_observe(4) [OF ref_meta.metadata_db_axioms ref_meta.reach_store_ok [OF sample_reach]]
    by (simp add: stat_of_def sample_meta_def)
  have "sample_md5 CHR ''b'' \<noteq> sample_md5 CHR ''a''" by (simp add: sample_md5_def)
  then show ?thesis
    using forgets [of "sample_md5 CHR ''a''"] forgets [of "sample_md5 CHR ''b''"] sample_delete stat
    by (simp add: isxdigit_def) (simp add: sample_meta_def is_md5_def)
qed

definition sample_locked :: "write_op list metadata_store" where
  "sample_locked = snd (update_status log_db ref_json (sample_md5 CHR ''a'') LOCKED sample_store)"

lemma sample_lock:
  "update_status log_db ref_json (sample_md5 CHR ''a'') LOCKED sample_store = (Inr True, sample_locked)"
proof -
  have "get_meta log_db ref_json sample_store (sample_md5 CHR ''a'')
      = Some (sample_meta CHR ''a'' ''img'' 7)"
    using store_ok_observe(1) [OF ref_meta.metadata_db_axioms ref_meta.reach_store_ok [OF sample_reach]]
    by (simp add: isxdigit_def)
  then have "fst (update_status log_db ref_json (sample_md5 CHR ''a'') LOCKED sample_store) = Inr True"
    by (auto simp: get_meta_def update_status_def log_db_def is_md5_def sample_md5_def
        split: option.splits)
  then show ?thesis
    by (simp add: sample_locked_def prod_eq_iff)
qed

text \<open>When \<open>update_status\<close> reports success, the file has the new status, everything else about
  it and every other file is as before, and the statistics are unchanged; it never throws on a
  reachable store, and it refuses an MD5 the store does not have.\<close>

theorem update_status_effect:
  assumes db: "metadata_db D entries view cursor J" and reach: "reach D J entries st c"
    and hex: "hex_md5 k" and s: "named_status s"
  shows "(c k = None \<longrightarrow> update_status D J k s st = (Inr False, st))
    \<and> (\<exists>b st'. update_status D J k s st = (Inr b, st') \<and> get_stat st' = get_stat st
        \<and> (b \<longrightarrow> (\<exists>meta. c k = Some meta \<and> get_meta D J st' k = Some (meta\<lparr>status := s\<rparr>))
             \<and> (\<forall>j. hex_md5 j \<longrightarrow> j \<noteq> k \<longrightarrow> get_meta D J st' j = get_meta D J st j)))"
proof -
  have old: "store_ok J entries st c"
    using metadata_db.reach_store_ok [OF db reach] .
  have rep: "represents J (map_of (entries (db st))) c"
    using old by (simp add: store_ok_def)
  have get: "db_Get D (db st) k = map_option (serialize J) (c k)"
    using representsD(1) [OF rep hex] leveldb.get [OF metadata_db.axioms(1) [OF db]] by simp
  show ?thesis
  proof (cases "c k")
    case None
    with get show ?thesis by (auto simp: update_status_def)
  next
    case (Some meta)
    have "deserialize J (serialize J meta) = Some meta"
      using json_codec.deserialize_serialize
        metadata_db.axioms(2) [OF db] representsD(5) [OF rep Some] by blast
    then obtain b d where run: "update_status D J k s st = (Inr b, st\<lparr>db := d\<rparr>)"
      using get Some by (cases "db_Put D (db st) k (serialize J (meta\<lparr>status := s\<rparr>))")
        (simp add: update_status_def)
    show ?thesis
    proof (cases b)
      case True
      with run have "store_ok J entries (st\<lparr>db := d\<rparr>) (spec_update_status k s c)"
        using metadata_db.update_status_ok [OF db old hex s] by auto
      from store_ok_observe(1) [OF db this] show ?thesis
        using run Some hex store_ok_observe(1) [OF db old]
        by (auto simp: get_stat_def spec_update_status_def)
    next
      case False
      with run Some show ?thesis by (intro conjI exI [of _ b]) (simp_all add: get_stat_def)
    qed
  qed
qed

theorem update_status_effect_witness:
  "get_meta log_db ref_json sample_locked (sample_md5 CHR ''a'')
       = Some ((sample_meta CHR ''a'' ''img'' 7)\<lparr>status := LOCKED\<rparr>)
   \<and> update_status log_db ref_json (sample_md5 CHR ''b'') LOCKED sample_store = (Inr False, sample_store)"
proof -
  note eff = update_status_effect [OF ref_meta.metadata_db_axioms sample_reach]
  have "sample_md5 CHR ''b'' \<noteq> sample_md5 CHR ''a''" by (simp add: sample_md5_def)
  then have "update_status log_db ref_json (sample_md5 CHR ''b'') LOCKED sample_store
      = (Inr False, sample_store)"
    using eff [of "sample_md5 CHR ''b''" LOCKED] by (simp add: isxdigit_def)
  then show ?thesis
    using eff [of "sample_md5 CHR ''a''" LOCKED] sample_lock by (auto simp: isxdigit_def)
qed

text \<open>C22: \<open>update_meta\<close> on a file the store has replaces its metadata and both index entries, when
  the deletion in it and the write succeed.  By MD5 and by the new path the new metadata is found, and
  by an old path that differs nothing; the scene index has the new entry, and the old one is gone if it
  differs, so that the listing of every scene is that of the catalogue with the new metadata; the file
  count is unchanged, and the total size changes by the difference.\<close>

theorem update_meta_replaces:
  assumes db: "metadata_db D entries view cursor J" and reach: "reach D J entries st c"
    and meta: "storable J meta" "c (md5 meta) = Some old" "path_free meta c"
      "\<not> is_md5 (path meta)" "\<not> is_md5 (path old)"
    and del: "delete_meta D J (md5 meta) st = (True, st1)"
    and run: "update_meta D J meta st = (True, st')"
  shows "get_meta D J st' (md5 meta) = Some meta \<and> get_meta D J st' (path meta) = Some meta
    \<and> (path old \<noteq> path meta \<longrightarrow> get_meta D J st' (path old) = None)
    \<and> db_Get D (db st') (scene_key (scene meta) (mtime meta) (md5 meta)) = Some (md5 meta)
    \<and> (scene_key (scene old) (mtime old) (md5 old) \<noteq> scene_key (scene meta) (mtime meta) (md5 meta) \<longrightarrow>
        db_Get D (db st') (scene_key (scene old) (mtime old) (md5 old)) = None)
    \<and> (\<exists>files. list_dir D J st' dir 0 (- 1) order = Some files
        \<and> set files = {m \<in> ran (c(md5 meta \<mapsto> meta)). prefix (scene_prefix dir) (scene_key (scene m) (mtime m) (md5 m))})
    \<and> file_count (get_stat st') = file_count (get_stat st)
    \<and> total_size (get_stat st') = total_size (get_stat st) - fsize old + fsize meta"
proof -
  let ?c1 = "c(md5 meta := None)" and ?c2 = "c(md5 meta \<mapsto> meta)"
  have old: "store_ok J entries st c"
    using metadata_db.reach_store_ok [OF db reach] .
  have hex: "hex_md5 (md5 meta)" using meta(1) by (simp add: storable_def)
  have ok1: "store_ok J entries st1 ?c1"
    using metadata_db.delete_meta_ok [OF db old hex del] by blast
  have "path_free meta ?c1" "save_meta D J meta st1 = (True, st')"
    using meta(3) run del by (auto simp: path_free_def update_meta_def)
  from metadata_db.save_meta_ok [OF db ok1 meta(1) this]
  have ok2: "store_ok J entries st' ?c2"
    by (simp add: spec_save_def)
  have rep: "represents J (map_of (entries (db st))) c"
    using old by (simp add: store_ok_def)
  have "get_meta D J st' (path old) = None" if "path old \<noteq> path meta"
  proof (rule store_ok_observe(3) [OF db ok2 _ meta(5)])
    fix k x
    assume "?c2 k = Some x"
    then show "path x \<noteq> path old"
      using that represents_paths_unique [OF rep meta(2), of k x] by (auto split: if_splits)
  qed
  moreover have rep2: "represents J (map_of (entries (db st'))) ?c2" using ok2 by (simp add: store_ok_def)
  note index = metadata_db.scene_index [OF db rep2]
  have "db_Get D (db st') (meta_scene_key meta) = Some (md5 meta)" using index(1) [of "md5 meta" meta] by simp
  moreover have "db_Get D (db st') (meta_scene_key old) = None" if ne: "meta_scene_key old \<noteq> meta_scene_key meta"
  proof (rule index(2))
    fix k x
    assume x: "?c2 k = Some x"
    have "md5 old = md5 meta" using representsD(4) [OF rep meta(2)] by simp
    with x ne represents_scene_keys [OF rep meta(2), of k x] show "meta_scene_key x \<noteq> meta_scene_key old"
      by (auto split: if_splits)
  qed
  moreover have "\<exists>files. list_dir D J st' dir 0 (- 1) order = Some files
      \<and> set files = {m \<in> ran ?c2. prefix (scene_prefix dir) (meta_scene_key m)}"
    by (rule metadata_db.list_dir_all [OF db rep2])
  moreover have "stat_of ?c2 = \<lparr>file_count = file_count (stat_of ?c1) + 1,
      total_size = total_size (stat_of ?c1) + fsize meta\<rparr>"
    using stat_of_insert [of ?c1 "md5 meta" meta] reach_finite [OF db reach] by simp
  ultimately show ?thesis
    unfolding meta_scene_key_def [symmetric]
    using store_ok_observe(1,4) [OF db ok2] store_ok_observe(4) [OF db old] hex meta(4)
      store_ok_observe(2) [OF db ok2, of "md5 meta" meta]
      stat_of_remove [OF reach_finite [OF db reach] meta(2)]
    by simp
qed

definition sample_moved :: MetaFile where
  "sample_moved = (sample_meta CHR ''a'' ''doc'' 8)\<lparr>path := ''moved.txt'', fsize := 9\<rparr>"

theorem update_meta_replaces_witness:
  "\<exists>st' files. update_meta log_db ref_json sample_moved sample_store = (True, st')
     \<and> get_meta log_db ref_json st' ''moved.txt'' = Some sample_moved
     \<and> get_meta log_db ref_json st' ''a.txt'' = None
     \<and> list_dir log_db ref_json st' ''img'' 0 (- 1) 1 = Some files \<and> files = []"
proof -
  have moved: "storable ref_json sample_moved" "md5 sample_moved = sample_md5 CHR ''a''"
      "path sample_moved = ''moved.txt''" "scene sample_moved = ''doc''"
    by (simp_all add: sample_moved_def sample_meta_def storable_def sample_md5_def hex_md5_def
        isxdigit_def forget_shard_paths_def default_MetaFile_def ref_json_def)
  then obtain st' where run: "update_meta log_db ref_json sample_moved sample_store = (True, st')"
    by (fastforce simp: update_meta_def sample_delete save_meta_def save_meta_commit_def log_db_ops
        split: if_splits)
  have old: "path (sample_meta CHR ''a'' ''img'' 7) = ''a.txt''"
    by (simp add: sample_meta_def)
  let ?c = "[sample_md5 CHR ''a'' \<mapsto> sample_meta CHR ''a'' ''img'' 7]"
  have c: "?c (md5 sample_moved) = Some (sample_meta CHR ''a'' ''img'' 7)" "path_free sample_moved ?c"
      "\<not> is_md5 (path sample_moved)" "\<not> is_md5 (path (sample_meta CHR ''a'' ''img'' 7))"
      "delete_meta log_db ref_json (md5 sample_moved) sample_store = (True, sample_removed)"
    using moved old sample_delete by (auto simp: path_free_def is_md5_def)
  note all = update_meta_replaces [OF ref_meta.metadata_db_axioms sample_reach moved(1) c run, of "''img''" 1]
  from all obtain files where files: "list_dir log_db ref_json st' ''img'' 0 (- 1) 1 = Some files"
      "set files = {m \<in> ran (?c(md5 sample_moved \<mapsto> sample_moved)). prefix (scene_prefix ''img'') (scene_key (scene m) (mtime m) (md5 m))}"
    by (elim conjE exE) (rule that)
  have "ran (?c(md5 sample_moved \<mapsto> sample_moved)) = {sample_moved}" using moved(2) by (auto simp: ran_def)
  moreover have "\<not> prefix (scene_prefix ''img'') (scene_key ''doc'' t m)" for t m
    by (simp add: scene_key_def scene_prefix_def)
  ultimately have "files = []" using files(2) moved(4) by (simp cong: conj_cong)
  with all files(1) run old moved(3) show ?thesis by auto
qed

section \<open>The loops over the database\<close>

lemma unat_lt_max: "unat (i :: u32) < 2 ^ 64"
  using unsigned_less [of i, where ?'a = nat] by simp

lemma shard_key_prefix:
  assumes "hex_md5 fid" "hex_md5 fid'"
  shows "prefix (shard_prefix fid') (shard_prefix fid @ q) \<longleftrightarrow> fid' = fid"
  using assms by (auto simp: shard_prefix_def hex_md5_def prefix_def append_eq_append_conv2)

text \<open>C21: \<open>get_uploaded_shard\<close> always ends, and after \<open>save_meta_shard\<close> its answer for that file has
  gained exactly the saved index, while the answer for every other file is the same set as
  before.\<close>

theorem uploaded_shards_after_save:
  assumes db: "metadata_db D entries view cursor J" and reach: "reach D J entries st c"
    and "hex_md5 fid" "hex_md5 other" "CHR ''{'' \<notin> set smd5"
    and run: "save_meta_shard D i fid smd5 st = (True, st')"
  shows "\<exists>xs ys. get_uploaded_shard D st other = Some xs \<and> get_uploaded_shard D st' other = Some ys
    \<and> set ys = (if other = fid then insert i (set xs) else set xs)"
proof -
  have ok: "store_ok J entries st c"
    using metadata_db.reach_store_ok [OF db reach] .
  have ne: "other \<noteq> []" using assms(4) by (auto simp: hex_md5_def)
  let ?key = "shard_prefix fid @ to_string_nat (unat i)"
  have dom: "dom (map_of (entries (db st'))) = insert ?key (dom (map_of (entries (db st))))"
    using metadata_db.save_meta_shard_ok(3) [OF db _ assms(5) run, of c] ok by (auto simp: store_ok_def)
  have "shard_of_key (shard_prefix fid) ?key = Some i"
    using unat_lt_max [of i] by (simp add: shard_of_key_def stoul_to_string_nat)
  moreover have "prefix (shard_prefix other) ?key \<longleftrightarrow> other = fid"
    by (rule shard_key_prefix [OF assms(3,4)])
  moreover obtain xs ys where "get_uploaded_shard D st other = Some xs"
      "get_uploaded_shard D st' other = Some ys"
      "set xs = {i. \<exists>k \<in> dom (map_of (entries (db st))). prefix (shard_prefix other) k
        \<and> shard_of_key (shard_prefix other) k = Some i}"
      "set ys = {i. \<exists>k \<in> dom (map_of (entries (db st'))). prefix (shard_prefix other) k
        \<and> shard_of_key (shard_prefix other) k = Some i}"
    using metadata_db.set_uploaded_shard [OF db ne] by metis
  ultimately show ?thesis
    unfolding dom by (intro exI [of _ xs] exI [of _ ys]) auto
qed

lemma save_meta_shard_log_db:
  "\<exists>st'. save_meta_shard log_db i fid smd5 st = (True, st')"
  by (simp add: save_meta_shard_def log_db_ops Let_def)

theorem uploaded_shards_after_save_witness:
  "\<exists>st'. save_meta_shard log_db 3 (sample_md5 CHR ''a'') [] sample_store = (True, st')
     \<and> (\<exists>xs. get_uploaded_shard log_db st' (sample_md5 CHR ''a'') = Some xs \<and> 3 \<in> set xs)"
proof -
  obtain st' where run: "save_meta_shard log_db 3 (sample_md5 CHR ''a'') [] sample_store = (True, st')"
    using save_meta_shard_log_db by blast
  from uploaded_shards_after_save [OF ref_meta.metadata_db_axioms sample_reach _ _ _ this,
      of "sample_md5 CHR ''a''"] run show ?thesis
    by (auto simp: isxdigit_def)
qed

lemma prefix_until_colon:
  "CHR '':'' \<notin> set s \<Longrightarrow> CHR '':'' \<notin> set d \<Longrightarrow> prefix (d @ '':'') (s @ '':'' @ r) \<longleftrightarrow> s = d"
  by (induction d arbitrary: s) (case_tac s; auto)+

lemma scene_prefix_iff:
  "CHR '':'' \<notin> set (scene meta) \<Longrightarrow> CHR '':'' \<notin> set dir \<Longrightarrow>
     prefix (scene_prefix dir) (meta_scene_key meta) \<longleftrightarrow> scene meta = dir"
  using prefix_until_colon [of "scene meta" dir]
  by (simp add: meta_scene_key_def scene_key_def scene_prefix_def)

text \<open>C20: \<open>list_dir\<close> always ends.  In a reachable store it answers the requested page, in ascending
  or descending key order, of a duplicate-free list of files: those whose scene key starts with
  the scene asked for, which are exactly the files of that scene when no scene name has a
  colon.\<close>

theorem list_dir_pages:
  assumes db: "metadata_db D entries view cursor J" and reach: "reach D J entries st c"
  shows "\<exists>files. distinct files
      \<and> set files = {meta \<in> ran c. prefix (scene_prefix dir) (meta_scene_key meta)}
      \<and> (CHR '':'' \<notin> set dir \<longrightarrow> (\<forall>meta \<in> ran c. CHR '':'' \<notin> set (scene meta)) \<longrightarrow>
          set files = {meta \<in> ran c. scene meta = dir})
      \<and> sorted_wrt (<) (map meta_scene_key files)
      \<and> (\<forall>offset limit order. 0 \<le> offset \<longrightarrow> limit \<noteq> 0 \<longrightarrow>
          list_dir D J st dir offset limit order
            = Some (page offset limit (if order = 1 then files else rev files)))"
proof -
  have rep: "represents J (map_of (entries (db st))) c"
    using metadata_db.reach_store_ok [OF db reach] by (simp add: store_ok_def)
  let ?E = "with_prefix (scene_prefix dir) (entries (db st))"
  let ?files = "map (\<lambda>e. the (c (snd e))) ?E"
  have key: "meta_scene_key (the (c (snd e))) = fst e" if "e \<in> set ?E" for e
    using metadata_db.scene_entry [OF db rep, of e dir] that unfolding with_prefix_def by fastforce
  then have keys: "map meta_scene_key ?files = map fst ?E"
    by simp
  have "sorted_wrt (<) (map fst ?E)"
    using sorted_wrt_filter leveldb.entries_sorted [OF metadata_db.axioms(1) [OF db]]
    by (fastforce simp: with_prefix_def sorted_wrt_map)
  then have sorted: "sorted_wrt (<) (map meta_scene_key ?files)"
    unfolding keys .
  then have "distinct (map meta_scene_key ?files)"
    using strict_sorted_iff by blast
  then have "distinct ?files"
    using distinct_map by blast
  moreover have "set ?files = {meta \<in> ran c. prefix (scene_prefix dir) (meta_scene_key meta)}"
    using metadata_db.scene_files [OF db rep] by simp
  ultimately show ?thesis
    using sorted metadata_db.list_dir_eq [OF db rep]
    by (intro exI [of _ ?files]) (auto simp: id_def scene_prefix_iff)
qed

theorem list_dir_pages_witness:
  "list_dir log_db ref_json sample_store ''img'' 0 10 0 = Some [sample_meta CHR ''a'' ''img'' 7]"
proof -
  let ?c = "[sample_md5 CHR ''a'' \<mapsto> sample_meta CHR ''a'' ''img'' 7]"
  obtain files where files: "distinct files"
      "set files = {meta \<in> ran ?c. prefix (scene_prefix ''img'') (meta_scene_key meta)}"
    and page: "\<forall>offset limit order. 0 \<le> offset \<longrightarrow> limit \<noteq> 0 \<longrightarrow>
      list_dir log_db ref_json sample_store ''img'' offset limit order
        = Some (page offset limit (if order = 1 then files else rev files))"
    using list_dir_pages [OF ref_meta.metadata_db_axioms sample_reach, of "''img''"]
    by (elim exE conjE) (rule that)
  have "scene (sample_meta CHR ''a'' ''img'' 7) = ''img''"
    by (simp add: sample_meta_def)
  then have "prefix (scene_prefix ''img'') (meta_scene_key (sample_meta CHR ''a'' ''img'' 7))"
    by (simp add: meta_scene_key_def scene_key_def)
  then have "set files = {sample_meta CHR ''a'' ''img'' 7}"
    unfolding files(2) by (auto simp: ran_def)
  with files(1) have "files = [sample_meta CHR ''a'' ''img'' 7]"
    by (cases files; cases "tl files") auto
  with page show ?thesis by (simp add: page_def)
qed

text \<open>C23: \<open>repair_stat\<close> always ends and sets the statistics to the number and the total size of the
  files whose status is \<open>NORMAL\<close>; it changes nothing else.\<close>

theorem repair_stat_recounts:
  assumes db: "metadata_db D entries view cursor J" and reach: "reach D J entries st c"
  shows "repair_stat D J st = Some (st\<lparr>cached_stat := stat_of (normal_files c)\<rparr>)"
  using metadata_db.repair_stat_eq [OF db] metadata_db.reach_store_ok [OF assms]
  by (simp add: store_ok_def)

theorem repair_stat_recounts_witness:
  "\<exists>st'. repair_stat log_db ref_json sample_store = Some st'
     \<and> get_stat st' = \<lparr>file_count = 1, total_size = 5\<rparr>"
proof -
  have "normal_files [sample_md5 CHR ''a'' \<mapsto> sample_meta CHR ''a'' ''img'' 7]
      = [sample_md5 CHR ''a'' \<mapsto> sample_meta CHR ''a'' ''img'' 7]"
    by (auto simp: normal_files_def sample_meta_def default_MetaFile_def)
  then show ?thesis
    using repair_stat_recounts [OF ref_meta.metadata_db_axioms sample_reach]
    by (simp add: get_stat_def stat_of_def sample_meta_def)
qed

section \<open>Unintended behaviour\<close>

text \<open>\<open>save_meta\<close> looks for the MD5 before it takes the lock.  When two threads save the same new
  file, both checks can pass before either commits; the database then holds the file once, but
  the statistics count it and its size twice.\<close>

theorem save_meta_race_double_counts:
  assumes db: "metadata_db D entries view cursor J" and reach: "reach D J entries st c"
    and meta: "storable J meta" "path_free meta c"
    and check: "\<not> save_meta_check D meta st"
    and runs: "save_meta_commit D J meta st = (True, st1)" "save_meta_commit D J meta st1 = (True, st2)"
  shows "represents J (map_of (entries (db st2))) (c(md5 meta \<mapsto> meta))
    \<and> file_count (get_stat st2) = file_count (stat_of (c(md5 meta \<mapsto> meta))) + 1
    \<and> total_size (get_stat st2) = total_size (stat_of (c(md5 meta \<mapsto> meta))) + fsize meta"
proof -
  let ?c = "c(md5 meta \<mapsto> meta)"
  have old: "store_ok J entries st c"
    using metadata_db.reach_store_ok [OF db reach] .
  have hex: "hex_md5 (md5 meta)" using meta(1) by (simp add: storable_def)
  have new: "c (md5 meta) = None"
    using check old representsD(1) [OF _ hex, of J "map_of (entries (db st))" c]
      leveldb.get [OF metadata_db.axioms(1) [OF db]]
    by (auto simp: save_meta_check_def store_ok_def)
  have ok1: "store_ok J entries st1 ?c"
    using metadata_db.save_meta_ok [OF db old meta, of st1] check runs(1) new
    by (simp add: save_meta_def spec_save_def domIff)
  have "map_of (entries (db st2)) = apply_batch (save_batch J meta) (map_of (entries (db st1)))"
    using runs(2) leveldb.write_ok [OF metadata_db.axioms(1) [OF db]]
    by (auto simp: save_meta_commit_def split: prod.splits if_splits)
  also have "\<dots> = map_of (entries (db st1))"
  proof -
    have rep: "represents J (map_of (entries (db st1))) ?c" using ok1 by (simp add: store_ok_def)
    have "map_of (entries (db st1)) (md5 meta) = Some (serialize J meta)"
        "map_of (entries (db st1)) (path_key (path meta)) = Some (md5 meta)"
        "map_of (entries (db st1)) (meta_scene_key meta) = Some (md5 meta)"
      using representsD(1) [OF rep hex] representsD(2) [OF rep, of "path meta"]
        representsD(3) [OF rep] SCENE_of_key [of meta] by auto
    then show ?thesis
      by (auto simp: apply_batch_def save_batch_def meta_scene_key_def map_upd_triv fun_upd_idem)
  qed
  finally have "represents J (map_of (entries (db st2))) ?c"
    using ok1 by (simp add: store_ok_def)
  then show ?thesis
    using runs(2) ok1
    by (auto simp: save_meta_commit_def get_stat_def store_ok_def split: prod.splits if_splits)
qed

theorem save_meta_race_double_counts_witness:
  "\<exists>st1 st2. save_meta_commit log_db ref_json (sample_meta CHR ''a'' ''img'' 7) sample_empty = (True, st1)
     \<and> save_meta_commit log_db ref_json (sample_meta CHR ''a'' ''img'' 7) st1 = (True, st2)
     \<and> get_stat st2 = \<lparr>file_count = 2, total_size = 10\<rparr>"
proof -
  let ?m = "sample_meta CHR ''a'' ''img'' 7"
  have commit: "\<exists>st'. save_meta_commit log_db ref_json ?m st = (True, st')" for st
    by (simp add: save_meta_commit_def log_db_ops)
  obtain st1 st2 where runs: "save_meta_commit log_db ref_json ?m sample_empty = (True, st1)"
      "save_meta_commit log_db ref_json ?m st1 = (True, st2)"
    using commit by metis
  have check: "\<not> save_meta_check log_db ?m sample_empty"
    by (simp add: save_meta_check_def log_db_ops sample_empty_def MetadataStore_open_def log_entries_def)
  have "path_free ?m Map.empty" by (simp add: path_free_def)
  from save_meta_race_double_counts [OF ref_meta.metadata_db_axioms sample_empty_reach
      sample_storable this check runs]
  have "file_count (get_stat st2) = 2" "total_size (get_stat st2) = 10"
    by (simp_all add: isxdigit_def stat_of_def) (simp add: sample_meta_def)
  then have "get_stat st2 = \<lparr>file_count = 2, total_size = 10\<rparr>"
    by (cases "get_stat st2") simp
  with runs show ?thesis by blast
qed

text \<open>\<open>repair_stat\<close> counts files of normal status only, while \<open>delete_meta\<close> takes one off the
  count for a file of any status.  With a single file of another status, repairing and then
  deleting it leaves the count at \<open>2\<^sup>6\<^sup>4 - 1\<close>.\<close>

theorem repair_then_delete_underflows:
  assumes db: "metadata_db D entries view cursor J" and reach: "reach D J entries st [k \<mapsto> meta]"
    and meta: "status meta \<noteq> NORMAL" and rep: "repair_stat D J st = Some st1"
    and del: "delete_meta D J k st1 = (True, st2)"
  shows "unat (file_count (get_stat st2)) = 2 ^ 64 - 1"
proof -
  have ok: "represents J (map_of (entries (db st))) [k \<mapsto> meta]"
    using metadata_db.reach_store_ok [OF db reach] by (simp add: store_ok_def)
  have "normal_files [k \<mapsto> meta] = Map.empty"
    using meta by (auto simp: normal_files_def)
  from metadata_db.repair_stat_eq [OF db ok, unfolded this stat_of_empty] rep
  have st1: "db st1 = db st" "cached_stat st1 = default_SystemStat"
    by auto
  have ok1: "represents J (map_of (entries (db st1))) [k \<mapsto> meta]"
    using ok by (simp add: st1)
  have "hex_md5 k" using represents_hex [OF ok] by simp
  from metadata_db.delete_meta_result(2) [OF db ok1 this] del
  have "cached_stat st2 = \<lparr>file_count = 0 - 1, total_size = 0 - fsize meta\<rparr>"
    by (auto simp: st1 default_SystemStat_def split: prod.splits if_splits)
  then show ?thesis by (simp add: get_stat_def unsigned_minus_1_eq_mask mask_eq_exp_minus_1)
qed

theorem repair_then_delete_underflows_witness:
  "\<exists>st1 st2. repair_stat log_db ref_json sample_locked = Some st1
     \<and> delete_meta log_db ref_json (sample_md5 CHR ''a'') st1 = (True, st2)
     \<and> unat (file_count (get_stat st2)) = 2 ^ 64 - 1"
proof -
  let ?m = "(sample_meta CHR ''a'' ''img'' 7)\<lparr>status := LOCKED\<rparr>"
  have reach: "reach log_db ref_json log_entries sample_locked [sample_md5 CHR ''a'' \<mapsto> ?m]"
    using reach.status_set [OF sample_reach _ _ sample_lock]
    by (simp add: isxdigit_def spec_update_status_def)
  have ok: "represents ref_json (map_of (log_entries (db sample_locked))) [sample_md5 CHR ''a'' \<mapsto> ?m]"
    using ref_meta.reach_store_ok [OF reach] by (simp add: store_ok_def)
  obtain st1 where st1: "repair_stat log_db ref_json sample_locked = Some st1" "db st1 = db sample_locked"
    using ref_meta.repair_stat_eq [OF ok] by fastforce
  have "represents ref_json (map_of (log_entries (db st1))) [sample_md5 CHR ''a'' \<mapsto> ?m]"
    using ok unfolding st1(2) .
  from ref_meta.delete_meta_result(2) [OF this, of "sample_md5 CHR ''a''"]
  obtain st2 where st2: "delete_meta log_db ref_json (sample_md5 CHR ''a'') st1 = (True, st2)"
    by (auto simp: log_db_ops isxdigit_def)
  from repair_then_delete_underflows [OF ref_meta.metadata_db_axioms reach _ st1(1) st2] st1(1) st2
  show ?thesis by auto
qed

lemma less_same_prefix: "p @ xs < p @ ys \<longleftrightarrow> xs < (ys :: string)"
  by (induction p) auto

text \<open>The scene index has the time in decimal without padding, so key order is not time order:
  a file of time 10 comes before a file of time 9 in an ascending listing.\<close>

theorem scene_key_not_chronological: "scene_key sc 10 m < scene_key sc 9 n"
  by (simp add: scene_key_def less_same_prefix to_string_int_def digit_char_def less_char_def
      to_string_nat.simps [of 10] to_string_nat.simps [of 9] to_string_nat.simps [of "Suc 0"])

text \<open>The listing of a scene also has the files of every scene whose name continues it after a
  colon.\<close>

theorem list_dir_scene_overlap:
  assumes db: "metadata_db D entries view cursor J" and reach: "reach D J entries st c"
    and "c k = Some meta" "scene meta = dir @ '':'' @ sub"
  shows "\<exists>files. list_dir D J st dir 0 (- 1) 1 = Some files \<and> meta \<in> set files"
proof -
  have rep: "represents J (map_of (entries (db st))) c"
    using metadata_db.reach_store_ok [OF db reach] by (simp add: store_ok_def)
  have "prefix (scene_prefix dir) (meta_scene_key meta)"
    by (simp add: meta_scene_key_def scene_key_def scene_prefix_def assms(4))
  then have "meta \<in> (\<lambda>e. the (c (snd e))) ` set (with_prefix (scene_prefix dir) (entries (db st)))"
    using metadata_db.scene_files [OF db rep, of dir] assms(3) by (auto simp: ran_def)
  then show ?thesis
    by (simp add: metadata_db.list_dir_eq [OF db rep] page_def)
qed

theorem list_dir_scene_overlap_witness:
  "\<exists>st files. save_meta log_db ref_json (sample_meta CHR ''a'' ''img:raw'' 7) sample_empty = (True, st)
     \<and> list_dir log_db ref_json st ''img'' 0 (- 1) 1 = Some files
     \<and> sample_meta CHR ''a'' ''img:raw'' 7 \<in> set files"
proof -
  let ?m = "sample_meta CHR ''a'' ''img:raw'' 7"
  obtain st where run: "save_meta log_db ref_json ?m sample_empty = (True, st)"
    using sample_save_any by blast
  have "reach log_db ref_json log_entries st [sample_md5 CHR ''a'' \<mapsto> ?m]"
    using reach.saved [OF sample_empty_reach sample_storable _ run]
    by (simp add: path_free_def spec_save_def isxdigit_def sample_meta_def)
  from list_dir_scene_overlap [OF ref_meta.metadata_db_axioms this, of "sample_md5 CHR ''a''" ?m
      "''img''" "''raw''"] run show ?thesis
    by (auto simp: sample_meta_def)
qed

text \<open>\<open>serialize\<close> turns a failed dump (a string field that is not UTF-8) into an empty value and
  \<open>save_meta\<close> stores it: it reports success, but the file cannot be read back, and from then on
  every save of that MD5 reports success and changes nothing.\<close>

theorem save_meta_unserialisable:
  assumes db: "metadata_db D entries view cursor J" and hex: "hex_md5 (md5 meta)"
    and dump: "json_dump J (to_json meta) = None"
    and run: "save_meta_check D meta st = False" "save_meta D J meta st = (True, st')"
    and same: "md5 meta' = md5 meta"
  shows "get_meta D J st' (md5 meta) = None \<and> save_meta D J meta' st' = (True, st')"
proof -
  have "map_of (entries (db st')) = apply_batch (save_batch J meta) (map_of (entries (db st)))"
    using run leveldb.write_ok [OF metadata_db.axioms(1) [OF db]]
    by (auto simp: save_meta_def save_meta_commit_def split: prod.splits if_splits)
  then have "map_of (entries (db st')) (md5 meta) = Some []"
    using hex dump by (simp add: apply_batch_def save_batch_def serialize_def)
  then have "db_Get D (db st') (md5 meta) = Some []"
    using leveldb.get [OF metadata_db.axioms(1) [OF db]] by simp
  then show ?thesis
    using json_codec.parse_empty [OF metadata_db.axioms(2) [OF db]] hex_md5_is_md5 [OF hex] same
    by (simp add: get_meta_def deserialize_def save_meta_def save_meta_check_def)
qed

text \<open>The contract allows a codec whose \<open>dump\<close> fails on other bytes.\<close>

definition strict_json :: json_api where
  "strict_json = ref_json\<lparr>json_dump := (\<lambda>j. if ascii_json j then Some (ref_dump j) else None)\<rparr>"

interpretation strict_meta: metadata_db log_db log_entries fst snd strict_json
  using ref_codec.parse_empty ref_codec.parse_object ref_codec.parse_dump
  by unfold_locales (auto simp: strict_json_def ref_json_def split: if_splits)

definition sample_latin :: MetaFile where
  "sample_latin = (sample_meta CHR ''a'' ''img'' 7)\<lparr>name := [CHR 0xE9]\<rparr>"

theorem save_meta_unserialisable_witness:
  "\<exists>st. save_meta log_db strict_json sample_latin sample_empty = (True, st)
     \<and> get_meta log_db strict_json st (sample_md5 CHR ''a'') = None
     \<and> save_meta log_db strict_json (sample_meta CHR ''a'' ''doc'' 8) st = (True, st)"
proof -
  obtain st where run: "save_meta log_db strict_json sample_latin sample_empty = (True, st)"
    using sample_save_any by blast
  have "save_meta_check log_db sample_latin sample_empty = False"
    by (simp add: save_meta_check_def log_db_ops sample_empty_def MetadataStore_open_def log_entries_def)
  moreover have "json_dump strict_json (to_json sample_latin) = None" "md5 sample_latin = sample_md5 CHR ''a''"
    by (simp_all add: strict_json_def to_json_def sample_latin_def sample_meta_def ascii_def)
  ultimately show ?thesis
    using save_meta_unserialisable [OF strict_meta.metadata_db_axioms _ _ _ run,
        of "sample_meta CHR ''a'' ''doc'' 8"] run
    by (auto simp: sample_meta_def isxdigit_def)
qed

section \<open>The loops end\<close>

text \<open>C24: the three loops over database iterators end whatever the database holds, also when other
  programs wrote to it, and what they give is bounded by it.  The shard list has at most one index for
  each entry.  The listing, in either order and with any offset and limit, has at most \<open>limit\<close> files if the
  limit is positive, at most as many as there are entries after \<open>offset\<close> of them, none for a negative
  offset or the limit zero, and only files to which an entry of the scene leads.  The recount leaves the
  database alone and counts at most one file for each entry.  The lock is left aside: see
  \<open>MetadataLock\<close>.\<close>

theorem scans_bounded:
  assumes db: "metadata_db D entries view cursor J"
  shows "(\<exists>xs. get_uploaded_shard D st fid = Some xs \<and> length xs \<le> length (entries (db st)))
    \<and> (\<exists>metas. list_dir D J st dir offset limit order = Some metas
        \<and> (offset < 0 \<or> limit = 0 \<longrightarrow> metas = []) \<and> (0 < limit \<longrightarrow> length metas \<le> nat limit)
        \<and> length metas \<le> length (entries (db st)) - nat offset
        \<and> (\<forall>m \<in> set metas. \<exists>e \<in> set (entries (db st)). prefix (scene_prefix dir) (fst e) \<and> get_meta D J st (snd e) = Some m))
    \<and> (\<exists>st' n. repair_stat D J st = Some st' \<and> db st' = db st \<and> file_count (get_stat st') = of_nat n
        \<and> n \<le> length (entries (db st)))"
  by (intro conjI metadata_db.get_uploaded_shard_bounded [OF db] metadata_db.list_dir_bounded [OF db]
      metadata_db.repair_stat_bounded [OF db])

theorem scans_bounded_witness:
  "\<exists>metas. list_dir log_db ref_json (MetadataStore_open [Put ''SCENE:a:1:x'' ''junk'', Put ''z'' []] default_metaConfig)
     ''a'' 0 1 2 = Some metas \<and> length metas \<le> 1"
  using scans_bounded [OF ref_meta.metadata_db_axioms,
      of "MetadataStore_open [Put ''SCENE:a:1:x'' ''junk'', Put ''z'' []] default_metaConfig" "[]" "''a''" 0 1 2] by auto

section \<open>Reopening the database\<close>

text \<open>A store opened on the database of a reachable store finds every file, but its statistics
  start from zero, and the first deletion makes the file count wrap around to the largest 64-bit
  number.\<close>

lemma reopen_forgets_stat:
  assumes db: "metadata_db D entries view cursor J" and reach: "reach D J entries st c"
    and new: "MetadataStore_new (Inr (db st)) cfg = Inr st0"
  shows "(\<forall>k. hex_md5 k \<longrightarrow> get_meta D J st0 k = get_meta D J st k)
    \<and> get_stat st0 = \<lparr>file_count = 0, total_size = 0\<rparr>
    \<and> (\<forall>k st'. hex_md5 k \<longrightarrow> delete_meta D J k st0 = (True, st') \<longrightarrow> file_count (get_stat st') = 2 ^ 64 - 1)"
proof -
  have old: "store_ok J entries st c" by (rule metadata_db.reach_store_ok [OF db reach])
  have st0: "db st0 = db st" "cached_stat st0 = default_SystemStat"
    using new by (auto simp: MetadataStore_new_def MetadataStore_open_def)
  with old have rep: "represents J (map_of (entries (db st0))) c" by (simp add: store_ok_def)
  have "file_count (get_stat st') = 2 ^ 64 - 1" if "hex_md5 k" "delete_meta D J k st0 = (True, st')" for k st'
    using metadata_db.delete_meta_result [OF db rep that(1)] that(2) st0(2)
    by (cases "c k") (auto simp: get_stat_def default_SystemStat_def split: prod.splits if_splits)
  then show ?thesis
    using metadata_db.get_meta_by_md5 [OF db rep] store_ok_observe(1) [OF db old] st0(2)
    by (simp add: get_stat_def default_SystemStat_def)
qed

lemma sample_stat: "get_stat sample_store = \<lparr>file_count = 1, total_size = 5\<rparr>"
  using store_ok_observe(4) [OF ref_meta.metadata_db_axioms ref_meta.reach_store_ok [OF sample_reach]]
  by (simp add: stat_of_def sample_meta_def)

lemma sample_reopen_delete:
  "\<exists>st'. delete_meta log_db ref_json (sample_md5 CHR ''a'') (MetadataStore_open (db sample_store) default_metaConfig) = (True, st')"
  using sample_delete by (auto simp: delete_meta_def MetadataStore_open_def split: option.splits prod.splits if_splits)

end
