(* ===== verification/FsPath.thy ===== *)
theory FsPath
  imports Prelude
begin

text \<open>
  \<open>std::filesystem::path\<close> on POSIX, as the code uses it: a path is its string.  \<open>path_append\<close> is
  \<open>operator/\<close>, \<open>filename\<close>, \<open>parent_path\<close> and \<open>extension\<close> are the members of that name, and
  \<open>resolve\<close> gives the names a path goes through, from the root, with \<open>.\<close> dropped and \<open>..\<close> taking
  back the name before it.  There are no symbolic links, and \<open>..\<close> is taken back without looking up
  whether the name before it is a directory.
\<close>

section \<open>Members of the class\<close>

definition is_absolute :: "string \<Rightarrow> bool" where
  "is_absolute p \<longleftrightarrow> p \<noteq> [] \<and> hd p = CHR ''/''"

text \<open>The part after the last slash.\<close>

definition filename :: "string \<Rightarrow> string" where
  "filename p = rev (takeWhile (\<lambda>c. c \<noteq> CHR ''/'') (rev p))"

definition path_append :: "string \<Rightarrow> string \<Rightarrow> string" where
  "path_append p q =
     (if is_absolute q then q
      else if filename p = [] then p @ q
      else p @ ''/'' @ q)"

text \<open>The filename and the slashes before it are dropped, the root slash excepted.\<close>

definition dir_part :: "string \<Rightarrow> string" where
  "dir_part p = rev (dropWhile (\<lambda>c. c = CHR ''/'') (dropWhile (\<lambda>c. c \<noteq> CHR ''/'') (rev p)))"

definition parent_path :: "string \<Rightarrow> string" where
  "parent_path p = (if dir_part p = [] \<and> is_absolute p then ''/'' else dir_part p)"

text \<open>From the last dot of the filename, unless that is its first character.\<close>

definition extension :: "string \<Rightarrow> string" where
  "extension p =
     (let f = filename p;
          e = rev (takeWhile (\<lambda>c. c \<noteq> CHR ''.'') (rev f))
      in if f = ''..'' \<or> CHR ''.'' \<notin> set f \<or> length e + 1 = length f then [] else CHR ''.'' # e)"

section \<open>Resolution\<close>

fun split_slash :: "string \<Rightarrow> string list" where
  "split_slash [] = [[]]"
| "split_slash (c # cs) =
     (if c = CHR ''/'' then [] # split_slash cs
      else (case split_slash cs of [] \<Rightarrow> [[c]] | x # xs \<Rightarrow> (c # x) # xs))"

definition step_name :: "string \<Rightarrow> string list \<Rightarrow> string list" where
  "step_name x acc = (if x = [] \<or> x = ''.'' then acc else if x = ''..'' then butlast acc else acc @ [x])"

definition resolve :: "string list \<Rightarrow> string \<Rightarrow> string list" where
  "resolve cwd p = fold step_name (split_slash p) (if is_absolute p then [] else cwd)"

text \<open>A path that can only name a directory: it ends in a slash, a dot or two dots.\<close>

definition dir_only :: "string \<Rightarrow> bool" where
  "dir_only p \<longleftrightarrow> filename p = [] \<or> filename p = ''.'' \<or> filename p = ''..''"

text \<open>A plain name: what a directory entry may be called.\<close>

definition plain_name :: "string \<Rightarrow> bool" where
  "plain_name x \<longleftrightarrow> x \<noteq> [] \<and> x \<noteq> ''.'' \<and> x \<noteq> ''..'' \<and> CHR ''/'' \<notin> set x"

section \<open>Lemmas\<close>

lemma split_slash_not_Nil [simp]: "split_slash p \<noteq> []"
  by (induction p) (auto split: list.split)

lemma split_slash_single: "CHR ''/'' \<notin> set x \<Longrightarrow> split_slash x = [x]"
  by (induction x) auto

lemma split_slash_append: "split_slash (p @ ''/'' @ q) = split_slash p @ split_slash q"
  by (induction p) (auto split: list.splits)

lemma split_slash_filename: "split_slash p = butlast (split_slash p) @ [filename p]"
proof (induction p)
  case (Cons c p)
  show ?case
  proof (cases "CHR ''/'' \<in> set p")
    case True
    then have "filename (c # p) = filename p"
      by (auto simp: filename_def takeWhile_append1)
    moreover have "tl (split_slash p) \<noteq> []"
      using True by (induction p) (auto split: list.splits if_splits)
    then obtain x y ys where "split_slash p = x # y # ys"
      by (cases "split_slash p"; cases "tl (split_slash p)") auto
    ultimately show ?thesis
      using Cons.IH by auto
  next
    case False
    then have s: "split_slash p = [p]" by (rule split_slash_single)
    have "takeWhile (\<lambda>c. c \<noteq> CHR ''/'') (rev p @ [c]) = rev p @ takeWhile (\<lambda>c. c \<noteq> CHR ''/'') [c]"
      using False by (intro takeWhile_append2) auto
    moreover have f: "filename p = p"
      using False by (simp add: filename_def takeWhile_absent)
    ultimately have "filename (c # p) = (if c = CHR ''/'' then p else c # p)"
      by (simp add: filename_def)
    with s f show ?thesis by simp
  qed
qed (simp add: filename_def)

lemma filename_no_slash: "CHR ''/'' \<notin> set (filename p)"
  unfolding filename_def using set_takeWhileD by fastforce

lemma filename_append_name: "CHR ''/'' \<notin> set x \<Longrightarrow> filename (p @ x) = filename p @ x"
  by (auto simp: filename_def takeWhile_append)

lemma filename_slash_name: "CHR ''/'' \<notin> set x \<Longrightarrow> filename (p @ ''/'' @ x) = x"
  using filename_append_name [of x "p @ ''/''"] by (simp add: filename_def)

lemma filename_plain: "CHR ''/'' \<notin> set x \<Longrightarrow> filename x = x"
  using filename_append_name [of x "[]"] by (simp add: filename_def)

text \<open>A path below a directory keeps the filename and resolves below that directory.\<close>

lemma resolve_last:
  "\<not> dir_only p \<Longrightarrow> resolve cwd p = fold step_name (butlast (split_slash p)) (if is_absolute p then [] else cwd) @ [filename p]"
  unfolding resolve_def
  by (subst split_slash_filename) (simp add: dir_only_def step_name_def)

lemma resolve_append:
  assumes "\<not> is_absolute q" "p \<noteq> []"
  shows "resolve cwd (path_append p q) = fold step_name (split_slash q) (resolve cwd p)"
proof (cases "filename p = []")
  case True
  then have "last p = CHR ''/''"
    using assms(2) by (cases p rule: rev_cases) (auto simp: filename_def split: if_splits)
  then obtain p' where p: "p = p' @ ''/''"
    using assms(2) by (metis append_butlast_last_id)
  have "split_slash (p' @ ''/'' @ q) = split_slash p' @ split_slash q"
    by (rule split_slash_append)
  moreover have "split_slash (p' @ ''/'') = split_slash p' @ [[]]"
    using split_slash_append [of p' "[]"] by simp
  moreover have "is_absolute (p' @ ''/'' @ q) \<longleftrightarrow> is_absolute (p' @ ''/'')"
    by (cases p') (auto simp: is_absolute_def)
  ultimately show ?thesis
    using True assms(1) by (simp add: path_append_def resolve_def p step_name_def)
next
  case False
  have "is_absolute (p @ ''/'' @ q) \<longleftrightarrow> is_absolute p"
    using assms(2) by (auto simp: is_absolute_def)
  with False assms show ?thesis
    using split_slash_append [of p q] by (simp add: path_append_def resolve_def)
qed

text \<open>A suffix without a slash changes the last name only.\<close>

lemma split_slash_snoc:
  "CHR ''/'' \<notin> set x \<Longrightarrow> split_slash (p @ x) = butlast (split_slash p) @ [filename p @ x]"
proof (induction p)
  case Nil
  then show ?case by (simp add: split_slash_single filename_def)
next
  case (Cons c p)
  have "split_slash (p @ x) = butlast (split_slash p) @ [filename p @ x]"
    using Cons by simp
  moreover have "split_slash p = butlast (split_slash p) @ [filename p]"
    by (rule split_slash_filename)
  moreover have "split_slash (c # p) = butlast (split_slash (c # p)) @ [filename (c # p)]"
    by (rule split_slash_filename)
  ultimately show ?case
    by (cases "butlast (split_slash p)") (auto split: list.splits if_splits)
qed

lemma resolve_suffix:
  assumes "CHR ''/'' \<notin> set x" "\<not> dir_only p" "\<not> dir_only (p @ x)"
  shows "resolve cwd (p @ x) = butlast (resolve cwd p) @ [filename p @ x]"
proof -
  have "p \<noteq> []" using assms(2) by (auto simp: dir_only_def filename_def)
  then have "is_absolute (p @ x) \<longleftrightarrow> is_absolute p"
    by (auto simp: is_absolute_def)
  then show ?thesis
    using resolve_last [OF assms(2), of cwd] resolve_last [OF assms(3), of cwd]
    by (simp add: split_slash_snoc [OF assms(1)] filename_append_name [OF assms(1)])
qed

text \<open>The parent of a path names the directory its last name is in.\<close>

lemma step_name_Nil [simp]: "step_name [] acc = acc"
  by (simp add: step_name_def)

lemma step_name_Nil_power [simp]: "(step_name [] ^^ n) acc = acc"
  by (induction n) auto

lemma split_slash_slashes:
  "split_slash (p @ replicate (Suc n) CHR ''/'' @ q) = split_slash p @ replicate n [] @ split_slash q"
proof -
  have "split_slash (replicate n CHR ''/'' @ q) = replicate n [] @ split_slash q"
    by (induction n) auto
  then show ?thesis
    using split_slash_append [of p "replicate n CHR ''/'' @ q"] by simp
qed

lemma takeWhile_eq_replicate:
  "takeWhile (\<lambda>x. x = c) xs = replicate (length (takeWhile (\<lambda>x. x = c) xs)) c"
  by (induction xs) auto

lemma path_decompose:
  obtains n where "p = dir_part p @ replicate n CHR ''/'' @ filename p" "n = 0 \<longrightarrow> CHR ''/'' \<notin> set p"
proof -
  define r where "r = dropWhile (\<lambda>c. c \<noteq> CHR ''/'') (rev p)"
  define n where "n = length (takeWhile (\<lambda>c. c = CHR ''/'') r)"
  have "r = replicate n CHR ''/'' @ dropWhile (\<lambda>c. c = CHR ''/'') r"
    using takeWhile_dropWhile_id [of "\<lambda>c. c = CHR ''/''" r]
      takeWhile_eq_replicate [of "CHR ''/''" r] unfolding n_def by simp
  then have "rev r = dir_part p @ replicate n CHR ''/''"
    unfolding dir_part_def r_def [symmetric] by (metis rev_append rev_replicate)
  moreover have "p = rev r @ filename p"
    using takeWhile_dropWhile_id [of "\<lambda>c. c \<noteq> CHR ''/''" "rev p"]
    unfolding filename_def r_def by (metis rev_append rev_rev_ident)
  ultimately have "p = dir_part p @ replicate n CHR ''/'' @ filename p"
    by simp
  moreover have "n = 0 \<longrightarrow> CHR ''/'' \<notin> set p"
  proof (rule impI, rule notI)
    assume "n = 0" "CHR ''/'' \<in> set p"
    then obtain r' where "r = CHR ''/'' # r'"
      using dropWhile_until [of "CHR ''/''" "rev p"] by (auto simp: r_def)
    with \<open>n = 0\<close> show False by (simp add: n_def)
  qed
  ultimately show ?thesis using that by blast
qed

lemma is_absolute_append: "p \<noteq> [] \<Longrightarrow> is_absolute (p @ q) \<longleftrightarrow> is_absolute p"
  by (simp add: is_absolute_def)

lemma resolve_parent:
  assumes "\<not> dir_only p" "parent_path p \<noteq> []"
  shows "resolve cwd (parent_path p) = butlast (resolve cwd p)"
proof -
  obtain n where p: "p = dir_part p @ replicate n CHR ''/'' @ filename p"
      and n: "n = 0 \<longrightarrow> CHR ''/'' \<notin> set p"
    by (rule path_decompose)
  note last = resolve_last [OF assms(1)]
  have "n \<noteq> 0"
  proof
    assume "n = 0"
    then have ns: "CHR ''/'' \<notin> set p" using n by simp
    have "dropWhile (\<lambda>c. c \<noteq> CHR ''/'') (rev p) = []"
      using ns by (auto simp: dropWhile_eq_Nil_conv)
    then have "dir_part p = []" unfolding dir_part_def by (simp only:) simp
    moreover have "\<not> is_absolute p" using ns by (cases p) (auto simp: is_absolute_def)
    ultimately show False using assms(2) by (simp add: parent_path_def)
  qed
  then obtain m where m: "n = Suc m" by (cases n) auto
  have "split_slash p = split_slash (dir_part p) @ replicate m [] @ [filename p]"
    using split_slash_slashes [of "dir_part p" m "filename p"]
      split_slash_single [OF filename_no_slash [of p]] p [unfolded m] by simp
  then have fold: "fold step_name (butlast (split_slash p)) acc = fold step_name (split_slash (dir_part p)) acc" for acc
    by (simp add: butlast_append)
  show ?thesis
  proof (cases "dir_part p = []")
    case True
    then have abs: "is_absolute p" using assms(2) by (auto simp: parent_path_def split: if_splits)
    then have "parent_path p = ''/''" using True by (simp add: parent_path_def)
    then show ?thesis
      using last fold abs True by (simp add: resolve_def is_absolute_def)
  next
    case False
    then have "is_absolute p \<longleftrightarrow> is_absolute (dir_part p)"
      using is_absolute_append [of "dir_part p" "replicate n CHR ''/'' @ filename p"] p by simp
    then show ?thesis
      using last fold False by (simp add: resolve_def parent_path_def)
  qed
qed

lemma parent_path_not_Nil: "CHR ''/'' \<in> set p \<Longrightarrow> parent_path p \<noteq> []"
proof -
  assume "CHR ''/'' \<in> set p"
  then obtain n where p: "p = dir_part p @ replicate n CHR ''/'' @ filename p" and "n \<noteq> 0"
    using path_decompose [of p] by metis
  then have "dir_part p = [] \<Longrightarrow> hd p = CHR ''/''"
    by (metis append_Nil gr0_conv_Suc hd_append2 hd_replicate not_gr_zero replicate_empty)
  then have "dir_part p = [] \<Longrightarrow> is_absolute p"
    using \<open>CHR ''/'' \<in> set p\<close> by (auto simp: is_absolute_def)
  then show "parent_path p \<noteq> []" by (auto simp: parent_path_def)
qed

text \<open>Without \<open>..\<close> a relative path stays below where it starts.\<close>

lemma split_slash_sub: "x \<in> set (split_slash p) \<Longrightarrow> \<exists>a b. p = a @ x @ b"
proof (induction p arbitrary: x)
  case (Cons c p)
  show ?case
  proof (cases "c = CHR ''/''")
    case True
    with Cons show ?thesis by (auto intro: exI [of _ "[]"]) (metis append_Cons)
  next
    case False
    obtain y ys where y: "split_slash p = y # ys" by (cases "split_slash p") auto
    have "\<exists>b. p = y @ b"
      using y by (induction p arbitrary: y ys) (auto split: if_splits list.splits)
    with False y Cons show ?thesis
      by (auto intro: exI [of _ "[]"]) (metis append_Cons)+
  qed
qed simp

lemma no_dotdot: "\<not> contains ''..'' p \<Longrightarrow> ''..'' \<notin> set (split_slash p)"
  using split_slash_sub [of "''..''" p] by (auto simp: contains_iff sublist_def)

lemma fold_step_extends: "''..'' \<notin> set xs \<Longrightarrow> prefix acc (fold step_name xs acc)"
proof (induction xs arbitrary: acc)
  case (Cons x xs)
  have "prefix acc (step_name x acc)" using Cons.prems by (auto simp: step_name_def)
  with Cons show ?case by (auto intro: prefix_order.trans)
qed simp

lemma resolve_below:
  "\<not> is_absolute q \<Longrightarrow> p \<noteq> [] \<Longrightarrow> \<not> contains ''..'' q \<Longrightarrow> prefix (resolve cwd p) (resolve cwd (path_append p q))"
  by (simp add: resolve_append fold_step_extends no_dotdot)

lemma path_append_slash: "\<not> is_absolute q \<Longrightarrow> p \<noteq> [] \<Longrightarrow> CHR ''/'' \<in> set (path_append p q)"
proof -
  assume "\<not> is_absolute q" "p \<noteq> []"
  moreover have "CHR ''/'' \<in> set p" if "filename p = []" "p \<noteq> []"
    using that filename_plain by fastforce
  ultimately show ?thesis by (auto simp: path_append_def)
qed

lemma takeWhile_stop: "\<not> P y \<Longrightarrow> takeWhile P (xs @ y # ys) = takeWhile P xs"
  by (induction xs) auto

lemma filename_slash: "filename (p @ ''/'' @ q) = filename q"
  by (simp add: filename_def takeWhile_stop)

lemma filename_path_append:
  assumes "\<not> is_absolute q" "p \<noteq> []"
  shows "filename (path_append p q) = filename q"
proof (cases "filename p = []")
  case True
  then obtain p' where "p = p' @ ''/''"
    using assms(2) by (cases p rule: rev_cases) (auto simp: filename_def split: if_splits)
  with True assms(1) filename_slash [of p' q] show ?thesis by (simp add: path_append_def)
next
  case False
  with assms(1) filename_slash [of p q] show ?thesis by (simp add: path_append_def)
qed

lemma resolve_below_dir:
  assumes "\<not> is_absolute q" "p \<noteq> []" "\<not> contains ''..'' q" "\<not> dir_only (path_append p q)"
  shows "prefix (resolve cwd p) (butlast (resolve cwd (path_append p q)))"
proof -
  have "\<not> dir_only q"
    using assms(4) filename_path_append [OF assms(1,2)] by (simp add: dir_only_def)
  then have "resolve cwd (path_append p q) = fold step_name (butlast (split_slash q)) (resolve cwd p) @ [filename q]"
    unfolding resolve_append [OF assms(1,2)]
    by (subst split_slash_filename) (simp add: dir_only_def step_name_def)
  moreover have "''..'' \<notin> set (butlast (split_slash q))"
    using no_dotdot [OF assms(3)] by (meson in_set_butlastD)
  ultimately show ?thesis by (simp add: fold_step_extends)
qed

lemma path_append_assoc:
  assumes "\<not> is_absolute q" "\<not> is_absolute r" "p \<noteq> []" "q \<noteq> []"
  shows "path_append (path_append p q) r = path_append p (path_append q r)"
proof -
  have "\<not> is_absolute (path_append q r)"
    using assms by (auto simp: path_append_def is_absolute_append)
  then show ?thesis
    using assms filename_path_append [OF assms(1,3)] by (auto simp: path_append_def)
qed

section \<open>Climbing out\<close>

text \<open>Names hung onto a path.\<close>

definition hang :: "string list \<Rightarrow> string" where
  "hang xs = concat (map (\<lambda>x. ''/'' @ x) xs)"

lemma split_slash_hang: "\<forall>x \<in> set xs. CHR ''/'' \<notin> set x \<Longrightarrow> split_slash (p @ hang xs) = split_slash p @ xs"
proof (induction xs arbitrary: p)
  case (Cons x xs)
  then have "split_slash ((p @ ''/'' @ x) @ hang xs) = split_slash (p @ ''/'' @ x) @ xs" by (intro Cons.IH) simp
  with Cons.prems show ?case by (simp only: split_slash_append) (simp add: hang_def split_slash_single)
qed (simp add: hang_def)

lemma fold_step_dotdot: "fold step_name (replicate n ''..'') acc = take (length acc - n) acc"
proof (induction n arbitrary: acc)
  case (Suc n)
  have "step_name ''..'' acc = take (length acc - 1) acc" by (simp add: step_name_def butlast_conv_take)
  with Suc.IH [of "take (length acc - 1) acc"] show ?case by (simp add: min_def)
qed simp

lemma fold_step_plain: "\<forall>x \<in> set xs. plain_name x \<Longrightarrow> fold step_name xs acc = acc @ xs"
  by (induction xs arbitrary: acc) (auto simp: step_name_def plain_name_def)

text \<open>Enough steps up reach the root, and from there every name.\<close>

definition climb :: "string list \<Rightarrow> string \<Rightarrow> string list \<Rightarrow> string" where
  "climb cwd p k = hang (replicate (length (resolve cwd p)) ''..'') @ hang k"

lemma resolve_climb:
  assumes "p \<noteq> []" "\<forall>x \<in> set k. plain_name x"
  shows "resolve cwd (p @ climb cwd p k) = k"
proof -
  let ?xs = "replicate (length (resolve cwd p)) ''..'' @ k"
  have c: "climb cwd p k = hang ?xs" by (simp add: climb_def hang_def)
  have "CHR ''/'' \<notin> set x" if "x \<in> set ?xs" for x
  proof -
    from that have "x = ''..'' \<or> x \<in> set k" by (auto simp: set_replicate_conv_if split: if_splits)
    then show ?thesis using assms(2) unfolding plain_name_def by (elim disjE) simp_all
  qed
  then have "split_slash (p @ hang ?xs) = split_slash p @ ?xs" by (intro split_slash_hang) blast
  moreover have "is_absolute (p @ hang ?xs) \<longleftrightarrow> is_absolute p" using assms(1) by (simp add: is_absolute_def)
  ultimately have "resolve cwd (p @ climb cwd p k) = fold step_name ?xs (resolve cwd p)"
    by (simp add: c resolve_def)
  then show ?thesis by (simp add: fold_step_dotdot fold_step_plain [OF assms(2)] del: fold_replicate)
qed

lemma climb_not_dir_only:
  assumes "k \<noteq> []" "\<forall>x \<in> set k. plain_name x"
  shows "\<not> dir_only (p @ climb cwd p k)"
proof -
  obtain xs x where k: "k = xs @ [x]" using assms(1) by (metis rev_exhaust)
  then have x: "plain_name x" using assms(2) by simp
  have "p @ climb cwd p k = (p @ hang (replicate (length (resolve cwd p)) ''..'') @ hang xs) @ ''/'' @ x"
    by (simp add: climb_def hang_def k)
  then have "filename (p @ climb cwd p k) = filename x" by (simp only: filename_slash)
  with x filename_plain [of x] show ?thesis by (simp add: dir_only_def plain_name_def)
qed

end
