(* ===== verification/FileSystem.thy ===== *)
theory FileSystem
  imports FsPath "HOL-Library.AList"
begin

text \<open>
  The file system the storage code works on: a tree of directories and regular files addressed by
  lists of names, the current directory, and a list of faults the next system calls meet
  (\<open>Some n\<close>: the call fails, a write after its first \<open>n\<close> bytes).  One definition per function of
  \<open>std::filesystem\<close> and per stream operation the code calls; those that throw do so through the
  state-and-exception type.  Every operation keeps the tree well formed and changes nothing but the
  paths it is given (\<open>changes\<close>).
\<close>

section \<open>State\<close>

datatype node = Dir | File string

record disk =
  nodes :: "(string list \<times> node) list"
  cwd :: "string list"
  faults :: "nat option list"

definition node_at :: "disk \<Rightarrow> string list \<Rightarrow> node option" where
  "node_at d k = (if k = [] then Some Dir else map_of (nodes d) k)"

definition put_node :: "string list \<Rightarrow> node \<Rightarrow> disk \<Rightarrow> disk" where
  "put_node k n d = d\<lparr>nodes := AList.update k n (nodes d)\<rparr>"

definition del_node :: "string list \<Rightarrow> disk \<Rightarrow> disk" where
  "del_node k d = d\<lparr>nodes := AList.delete k (nodes d)\<rparr>"

definition key :: "disk \<Rightarrow> string \<Rightarrow> string list" where
  "key d p = resolve (cwd d) p"

text \<open>What a path names: a file cannot be named with a trailing slash.\<close>

definition lookup :: "disk \<Rightarrow> string \<Rightarrow> node option" where
  "lookup d p =
     (if p = [] then None
      else (case node_at d (key d p) of
              Some (File s) \<Rightarrow> if dir_only p then None else Some (File s)
            | r \<Rightarrow> r))"

definition children :: "disk \<Rightarrow> string list \<Rightarrow> (string \<times> node) list" where
  "children d k = [(last j, n). (j, n) \<leftarrow> nodes d, j \<noteq> [], butlast j = k]"

section \<open>System calls\<close>

definition sys :: "(disk, nat option) io" where
  "sys d = (case faults d of [] \<Rightarrow> (Inr None, d) | f # fs \<Rightarrow> (Inr f, d\<lparr>faults := fs\<rparr>))"

text \<open>A call that throws \<open>filesystem_error\<close> when the system reports an error.\<close>

definition guarded :: "string \<Rightarrow> (disk, 'a) io \<Rightarrow> (disk, 'a) io" where
  "guarded call m = io_bind sys (\<lambda>f. if f = None then m else io_throw (Filesystem_error call))"

definition fs_error :: "string \<Rightarrow> (disk, 'a) io" where
  "fs_error call = io_throw (Filesystem_error call)"

definition fs_exists :: "string \<Rightarrow> (disk, bool) io" where
  "fs_exists p = guarded ''exists'' (\<lambda>d. (Inr (lookup d p \<noteq> None), d))"

definition is_directory :: "string \<Rightarrow> (disk, bool) io" where
  "is_directory p = guarded ''is_directory'' (\<lambda>d. (Inr (lookup d p = Some Dir), d))"

definition is_regular_file :: "string \<Rightarrow> (disk, bool) io" where
  "is_regular_file p =
     guarded ''is_regular_file'' (\<lambda>d. (Inr (case lookup d p of Some (File _) \<Rightarrow> True | _ \<Rightarrow> False), d))"

definition file_size :: "string \<Rightarrow> (disk, nat) io" where
  "file_size p = guarded ''file_size''
     (\<lambda>d. case lookup d p of Some (File s) \<Rightarrow> (Inr (length s), d) | _ \<Rightarrow> fs_error ''file_size'' d)"

text \<open>The directories on the way that are missing are made one by one.\<close>

fun mkdirs :: "string list \<Rightarrow> string list \<Rightarrow> (disk, unit) io" where
  "mkdirs k [] = io_return ()"
| "mkdirs k (x # xs) =
     (\<lambda>d. case node_at d (k @ [x]) of
            Some Dir \<Rightarrow> mkdirs (k @ [x]) xs d
          | Some (File _) \<Rightarrow> fs_error ''create_directories'' d
          | None \<Rightarrow>
              io_bind (guarded ''create_directories'' (\<lambda>d. (Inr (), put_node (k @ [x]) Dir d)))
                (\<lambda>_. mkdirs (k @ [x]) xs) d)"

definition create_directories :: "string \<Rightarrow> (disk, unit) io" where
  "create_directories p =
     (if p = [] then fs_error ''create_directories'' else (\<lambda>d. mkdirs [] (key d p) d))"

text \<open>
  \<open>std::ofstream\<close>: opening for output creates or truncates the file, and answers whether that
  worked; \<open>ofs_write\<close> appends and answers \<open>good()\<close>; \<open>ofs_close\<close> may lose the buffered end of the
  data without telling.
\<close>

definition writable :: "disk \<Rightarrow> string \<Rightarrow> bool" where
  "writable d p \<longleftrightarrow> \<not> dir_only p \<and> node_at d (key d p) \<noteq> Some Dir
     \<and> node_at d (butlast (key d p)) = Some Dir"

definition ofs_open :: "string \<Rightarrow> (disk, bool) io" where
  "ofs_open p = io_bind sys (\<lambda>f d.
     if f = None \<and> writable d p then (Inr True, put_node (key d p) (File []) d) else (Inr False, d))"

definition content :: "disk \<Rightarrow> string list \<Rightarrow> string" where
  "content d k = (case node_at d k of Some (File s) \<Rightarrow> s | _ \<Rightarrow> [])"

definition ofs_write :: "string \<Rightarrow> string \<Rightarrow> (disk, bool) io" where
  "ofs_write p data = io_bind sys (\<lambda>f d.
     let k = key d p
     in case f of
          None \<Rightarrow> (Inr True, put_node k (File (content d k @ data)) d)
        | Some n \<Rightarrow> (Inr False, put_node k (File (content d k @ take n data)) d))"

definition ofs_close :: "string \<Rightarrow> (disk, unit) io" where
  "ofs_close p = io_bind sys (\<lambda>f d.
     let k = key d p
     in case f of
          None \<Rightarrow> (Inr (), d)
        | Some n \<Rightarrow> (Inr (), put_node k (File (take n (content d k))) d))"

text \<open>\<open>std::ifstream\<close>: the content of a file that can be opened; the read can fail.\<close>

definition ifs_open :: "string \<Rightarrow> (disk, string option) io" where
  "ifs_open p = io_bind sys (\<lambda>f d.
     (Inr (case lookup d p of Some (File s) \<Rightarrow> if f = None then Some s else None | _ \<Rightarrow> None), d))"

text \<open>Renaming a file over nothing or over a file; the code never renames a directory.\<close>

definition fs_rename :: "string \<Rightarrow> string \<Rightarrow> (disk, unit) io" where
  "fs_rename p q = guarded ''rename''
     (\<lambda>d. case lookup d p of
            Some (File s) \<Rightarrow>
              if writable d q
              then (Inr (), put_node (key d q) (File s) (del_node (key d p) d))
              else fs_error ''rename'' d
          | _ \<Rightarrow> fs_error ''rename'' d)"

text \<open>A file or an empty directory; the answer is whether there was one.\<close>

definition fs_remove :: "string \<Rightarrow> (disk, bool) io" where
  "fs_remove p = guarded ''remove''
     (\<lambda>d. case lookup d p of
            None \<Rightarrow> (Inr False, d)
          | Some (File _) \<Rightarrow> (Inr True, del_node (key d p) d)
          | Some Dir \<Rightarrow>
              if key d p = [] \<or> children d (key d p) \<noteq> [] then fs_error ''remove'' d
              else (Inr True, del_node (key d p) d))"

definition remove_all :: "string \<Rightarrow> (disk, unit) io" where
  "remove_all p = guarded ''remove_all''
     (\<lambda>d. (Inr (), if lookup d p = None then d
                   else d\<lparr>nodes := filter (\<lambda>e. \<not> prefix (key d p) (fst e)) (nodes d)\<rparr>))"

text \<open>The names and nodes of a directory, in the order the system lists them.\<close>

definition directory_iterator :: "string \<Rightarrow> (disk, (string \<times> node) list) io" where
  "directory_iterator p = guarded ''directory_iterator''
     (\<lambda>d. if lookup d p = Some Dir then (Inr (children d (key d p)), d)
          else fs_error ''directory_iterator'' d)"

section \<open>Well-formed trees and what may change\<close>

definition wf_disk :: "disk \<Rightarrow> bool" where
  "wf_disk d \<longleftrightarrow> distinct (map fst (nodes d))
     \<and> (\<forall>k \<in> fst ` set (nodes d). k \<noteq> [] \<and> node_at d (butlast k) = Some Dir)"

text \<open>Outside \<open>K\<close> nothing changes, but that directories on the way to \<open>K\<close> may have been made.\<close>

definition on_way :: "string list set \<Rightarrow> string list \<Rightarrow> bool" where
  "on_way K k \<longleftrightarrow> (\<exists>j \<in> K. prefix k j)"

definition changes :: "string list set \<Rightarrow> disk \<Rightarrow> disk \<Rightarrow> bool" where
  "changes K d d' \<longleftrightarrow> cwd d' = cwd d \<and>
     (\<forall>k. k \<notin> K \<longrightarrow> node_at d' k = node_at d k
        \<or> (on_way K k \<and> node_at d k = None \<and> node_at d' k = Some Dir))"

text \<open>The assertion of the rules below: started from \<open>d0\<close>, and the tree satisfies \<open>T\<close>.\<close>

definition state_ok :: "disk \<Rightarrow> string list set \<Rightarrow> ((string list \<Rightarrow> node option) \<Rightarrow> bool) \<Rightarrow> disk \<Rightarrow> bool" where
  "state_ok d0 K T d \<longleftrightarrow> wf_disk d \<and> changes K d0 d \<and> T (node_at d)"

abbreviation thrown_ok :: "disk \<Rightarrow> string list set \<Rightarrow> exn \<Rightarrow> disk \<Rightarrow> bool" where
  "thrown_ok d0 K \<equiv> \<lambda>_. state_ok d0 K (\<lambda>_. True)"

lemma changes_refl [simp]: "changes K d d"
  by (simp add: changes_def)

lemma changes_trans: "changes K d d' \<Longrightarrow> changes K d' d'' \<Longrightarrow> changes K d d''"
  unfolding changes_def by (metis option.distinct(1))

lemma changes_mono: "changes K d d' \<Longrightarrow> K \<subseteq> K' \<Longrightarrow> changes K' d d'"
  unfolding changes_def on_way_def by (meson subsetD)

lemma on_way_prefix: "on_way K k \<Longrightarrow> prefix j k \<Longrightarrow> on_way K j"
  unfolding on_way_def by (meson prefix_order.trans)

lemma on_way_self: "k \<in> K \<Longrightarrow> on_way K k"
  by (auto simp: on_way_def)

lemma changes_node: "changes K d d' \<Longrightarrow> k \<notin> K \<Longrightarrow> node_at d k = Some n \<Longrightarrow> node_at d' k = Some n"
  unfolding changes_def by (metis option.distinct(1))

lemma changes_off: "changes K d d' \<Longrightarrow> \<not> on_way K k \<Longrightarrow> node_at d' k = node_at d k"
  unfolding changes_def using on_way_self by blast

lemma node_at_put: "node_at (put_node k n d) j = (if j = [] then Some Dir else if j = k then Some n else node_at d j)"
  by (simp add: node_at_def put_node_def update_conv')

lemma node_at_del: "node_at (del_node k d) j = (if j = [] then Some Dir else if j = k then None else node_at d j)"
  by (simp add: node_at_def del_node_def delete_conv')

lemma node_at_root [simp]: "node_at d [] = Some Dir"
  by (simp add: node_at_def)

lemma node_at_faults [simp]: "node_at (d\<lparr>faults := fs\<rparr>) = node_at d"
  by (simp add: node_at_def fun_eq_iff)

lemma cwd_simps [simp]: "cwd (put_node k n d) = cwd d" "cwd (del_node k d) = cwd d"
  by (simp_all add: put_node_def del_node_def)

lemma key_simps [simp]: "key (put_node k n d) p = key d p" "key (del_node k d) p = key d p"
  "key (d\<lparr>faults := fs\<rparr>) p = key d p"
  by (simp_all add: key_def)

lemma nodes_domain: "wf_disk d \<Longrightarrow> k \<in> fst ` set (nodes d) \<longleftrightarrow> k \<noteq> [] \<and> node_at d k \<noteq> None"
  unfolding wf_disk_def node_at_def by (metis map_of_eq_None_iff)

lemma wf_parent: "wf_disk d \<Longrightarrow> node_at d k = Some n \<Longrightarrow> node_at d (butlast k) = Some Dir"
  using nodes_domain [of d k] by (cases "k = []") (auto simp: wf_disk_def)

lemma wf_prefix_dir: "wf_disk d \<Longrightarrow> node_at d k = Some Dir \<Longrightarrow> prefix j k \<Longrightarrow> node_at d j = Some Dir"
proof (induction k rule: rev_induct)
  case (snoc x k)
  from wf_parent [OF snoc.prems(1,2)] have "node_at d k = Some Dir" by simp
  with snoc show ?case by (auto simp: prefix_snoc)
qed simp

lemma wf_put:
  assumes "wf_disk d" "k \<noteq> []" "node_at d (butlast k) = Some Dir" "n = Dir \<or> node_at d k \<noteq> Some Dir"
  shows "wf_disk (put_node k n d)"
proof -
  have dist: "distinct (map fst (nodes (put_node k n d)))"
    using assms(1) by (simp add: put_node_def wf_disk_def distinct_update)
  have "node_at (put_node k n d) (butlast j) = Some Dir" if "j \<in> insert k (fst ` set (nodes d))" for j
  proof -
    have "node_at d (butlast j) = Some Dir"
      using that assms(1,3) by (auto simp: wf_disk_def)
    with assms(4) show ?thesis
      by (auto simp: node_at_put)
  qed
  moreover have "fst ` set (nodes (put_node k n d)) = insert k (fst ` set (nodes d))"
    by (simp add: put_node_def dom_update)
  ultimately show ?thesis
    using dist assms(1,2) by (auto simp: wf_disk_def)
qed

lemma wf_del:
  assumes "wf_disk d" "node_at d k = Some (File s) \<or> children d k = []"
  shows "wf_disk (del_node k d)"
proof -
  have "j \<noteq> [] \<and> node_at (del_node k d) (butlast j) = Some Dir" if j: "j \<in> fst ` set (nodes d)" for j
  proof -
    have dir: "node_at d (butlast j) = Some Dir" "j \<noteq> []"
      using j assms(1) by (auto simp: wf_disk_def)
    moreover have "butlast j \<noteq> k" if "children d k = []"
      using j dir that by (auto simp: children_def)
    ultimately show ?thesis using assms(2) by (auto simp: node_at_del)
  qed
  moreover have "fst ` set (nodes (del_node k d)) \<subseteq> fst ` set (nodes d)"
    by (simp add: del_node_def dom_delete_subset)
  moreover have "distinct (map fst (nodes (del_node k d)))"
    using assms(1) by (simp add: del_node_def distinct_delete wf_disk_def)
  ultimately show ?thesis
    unfolding wf_disk_def by blast
qed

lemma wf_faults [simp]: "wf_disk (d\<lparr>faults := fs\<rparr>) \<longleftrightarrow> wf_disk d"
  by (simp add: wf_disk_def)

lemma changes_faults [simp]: "changes K d (d'\<lparr>faults := fs\<rparr>) \<longleftrightarrow> changes K d d'"
  by (simp add: changes_def)

lemma changes_put: "changes K d d' \<Longrightarrow> k \<in> K \<or> (on_way K k \<and> n = Dir \<and> node_at d' k = None) \<Longrightarrow> changes K d (put_node k n d')"
  by (rule changes_trans) (auto simp: changes_def node_at_put)

lemma changes_del: "changes K d d' \<Longrightarrow> k \<in> K \<Longrightarrow> changes K d (del_node k d')"
  by (rule changes_trans) (auto simp: changes_def node_at_del)

lemma changes_key: "changes K d d' \<Longrightarrow> key d' p = key d p"
  by (simp add: changes_def key_def)

section \<open>Rules of the operations\<close>

lemma state_ok_step:
  "state_ok d0 K T d \<Longrightarrow> wf_disk d' \<Longrightarrow> changes K d0 d' \<Longrightarrow> T' (node_at d') \<Longrightarrow> state_ok d0 K T' d'"
  by (simp add: state_ok_def)

lemma state_ok_mono: "state_ok d0 K T d \<Longrightarrow> (\<And>f. T f \<Longrightarrow> T' f) \<Longrightarrow> state_ok d0 K T' d"
  by (simp add: state_ok_def)

lemma state_ok_any: "state_ok d0 K T d \<Longrightarrow> state_ok d0 K (\<lambda>_. True) d"
  by (simp add: state_ok_def)

lemma state_ok_faults [simp]: "state_ok d0 K T (d\<lparr>faults := fs\<rparr>) \<longleftrightarrow> state_ok d0 K T d"
  by (simp add: state_ok_def)

lemma state_ok_key: "state_ok d0 K T d \<Longrightarrow> key d p = key d0 p"
  by (auto simp: state_ok_def dest: changes_key)

lemma triple_sys: "triple (state_ok d0 K T) sys (\<lambda>_. state_ok d0 K T) R"
  by (auto simp: triple_def sys_def split: list.split)

lemma triple_guarded:
  assumes "triple (state_ok d0 K T) m Q R" "\<And>d. state_ok d0 K T d \<Longrightarrow> R (Filesystem_error c) d"
  shows "triple (state_ok d0 K T) (guarded c m) Q R"
  unfolding guarded_def by (rule triple_bind [OF triple_sys]) (auto intro!: triple_if triple_throw assms)

lemma lookup_file: "lookup d p = Some (File s) \<longleftrightarrow> p \<noteq> [] \<and> \<not> dir_only p \<and> node_at d (key d p) = Some (File s)"
  by (auto simp: lookup_def split: option.splits node.splits)

lemma lookup_dir: "lookup d p = Some Dir \<longleftrightarrow> p \<noteq> [] \<and> node_at d (key d p) = Some Dir"
  by (auto simp: lookup_def split: option.splits node.splits)

lemma triple_exists [triples]:
  "triple (state_ok d0 K T) (fs_exists p) (\<lambda>_. state_ok d0 K T) (thrown_ok d0 K)"
  unfolding fs_exists_def by (rule triple_guarded) (auto simp: triple_def intro: state_ok_any)

lemma triple_file_size:
  "triple (state_ok d0 K T) (file_size p)
     (\<lambda>n. state_ok d0 K (\<lambda>f. T f \<and> \<not> dir_only p \<and> (\<exists>s. f (key d0 p) = Some (File s) \<and> n = length s)))
     (thrown_ok d0 K)"
  unfolding file_size_def
  by (rule triple_guarded)
    (auto simp: triple_def fs_error_def io_throw_def lookup_file state_ok_key state_ok_def changes_key
      split: option.split node.split)

lemma triple_mkdir:
  assumes "on_way K (k @ [x])"
  shows "triple (state_ok d0 K (\<lambda>f. f k = Some Dir \<and> f (k @ [x]) = None))
     (guarded c (\<lambda>d. (Inr (), put_node (k @ [x]) Dir d)))
     (\<lambda>_. state_ok d0 K (\<lambda>f. f (k @ [x]) = Some Dir)) (thrown_ok d0 K)"
  using assms
  by (intro triple_guarded) (auto simp: triple_def state_ok_def node_at_put intro!: wf_put changes_put)

lemma triple_mkdirs:
  assumes "on_way K (k @ xs)"
  shows "triple (state_ok d0 K (\<lambda>f. f k = Some Dir)) (mkdirs k xs)
     (\<lambda>_. state_ok d0 K (\<lambda>f. f (k @ xs) = Some Dir)) (thrown_ok d0 K)"
  using assms
proof (induction xs arbitrary: k)
  case Nil
  then show ?case by (auto intro!: triple_return elim: state_ok_mono)
next
  case (Cons x xs)
  have way: "on_way K (k @ [x])"
    using Cons.prems by (rule on_way_prefix) simp
  have IH: "triple (state_ok d0 K (\<lambda>f. f (k @ [x]) = Some Dir)) (mkdirs (k @ [x]) xs)
      (\<lambda>_. state_ok d0 K (\<lambda>f. f (k @ x # xs) = Some Dir)) (thrown_ok d0 K)"
    using Cons.IH [of "k @ [x]"] Cons.prems by simp
  have new: "triple (state_ok d0 K (\<lambda>f. f k = Some Dir \<and> f (k @ [x]) = None))
      (io_bind (guarded ''create_directories'' (\<lambda>d. (Inr (), put_node (k @ [x]) Dir d)))
         (\<lambda>_. mkdirs (k @ [x]) xs))
      (\<lambda>_. state_ok d0 K (\<lambda>f. f (k @ x # xs) = Some Dir)) (thrown_ok d0 K)"
    by (rule triple_bind [OF triple_mkdir [OF way] IH])
  show ?case
  proof (rule tripleI)
    fix d r d'
    assume d: "state_ok d0 K (\<lambda>f. f k = Some Dir) d" and run: "mkdirs k (x # xs) d = (r, d')"
    show "case r of Inl e \<Rightarrow> state_ok d0 K (\<lambda>_. True) d'
        | Inr _ \<Rightarrow> state_ok d0 K (\<lambda>f. f (k @ x # xs) = Some Dir) d'"
    proof (cases "node_at d (k @ [x])")
      case None
      with d have "state_ok d0 K (\<lambda>f. f k = Some Dir \<and> f (k @ [x]) = None) d"
        by (simp add: state_ok_def)
      with run None new show ?thesis
        by (auto split: sum.split dest: triple_Inr [OF new] triple_Inl [OF new])
    next
      case (Some n)
      show ?thesis
      proof (cases n)
        case Dir
        with Some d have "state_ok d0 K (\<lambda>f. f (k @ [x]) = Some Dir) d"
          by (simp add: state_ok_def)
        with run Some Dir show ?thesis
          by (auto split: sum.split dest: triple_Inr [OF IH] triple_Inl [OF IH])
      next
        case (File s)
        with run Some d show ?thesis
          by (auto simp: fs_error_def io_throw_def elim: state_ok_mono)
      qed
    qed
  qed
qed

lemma triple_create_directories:
  assumes "p = [] \<or> on_way K (key d0 p)"
  shows "triple (state_ok d0 K T) (create_directories p)
     (\<lambda>_. state_ok d0 K (\<lambda>f. f (key d0 p) = Some Dir)) (thrown_ok d0 K)"
proof (cases "p = []")
  case True
  then show ?thesis
    by (auto simp: create_directories_def fs_error_def intro!: triple_throw elim: state_ok_mono)
next
  case False
  show ?thesis
  proof (rule tripleI)
    fix d r d'
    assume d: "state_ok d0 K T d" and "create_directories p d = (r, d')"
    with False have "mkdirs [] (key d0 p) d = (r, d')"
      by (simp add: create_directories_def state_ok_key)
    moreover have "state_ok d0 K (\<lambda>f. f [] = Some Dir) d"
      using d by (simp add: state_ok_def)
    ultimately show "case r of Inl e \<Rightarrow> state_ok d0 K (\<lambda>_. True) d'
        | Inr _ \<Rightarrow> state_ok d0 K (\<lambda>f. f (key d0 p) = Some Dir) d'"
      using triple_mkdirs [of K "[]" "key d0 p" d0] assms False
      by (auto split: sum.split dest: triple_Inr triple_Inl)
  qed
qed

lemma key_not_Nil: "\<not> dir_only p \<Longrightarrow> key d p \<noteq> []"
  by (simp add: key_def resolve_last)

lemma state_ok_put_file:
  assumes "state_ok d0 K T d" "\<not> dir_only p" "key d0 p \<in> K" "node_at d (key d0 p) \<noteq> Some Dir"
    "node_at d (butlast (key d0 p)) = Some Dir"
  shows "state_ok d0 K (\<lambda>f. f (key d0 p) = Some (File s)) (put_node (key d0 p) (File s) d)"
  using assms key_not_Nil [OF assms(2), of d0]
  by (auto simp: state_ok_def node_at_put intro!: wf_put changes_put)

lemma state_ok_rewrite_file:
  assumes "state_ok d0 K T d" "\<not> dir_only p" "key d0 p \<in> K" "node_at d (key d0 p) = Some (File s')"
  shows "state_ok d0 K (\<lambda>f. f (key d0 p) = Some (File s)) (put_node (key d0 p) (File s) d)"
  using assms wf_parent [of d "key d0 p"] by (intro state_ok_put_file) (auto simp: state_ok_def)

lemma triple_file_ex:
  assumes "\<And>s. X s \<Longrightarrow> triple (state_ok d0 K (\<lambda>f. f k = Some (File s))) m Q R"
  shows "triple (state_ok d0 K (\<lambda>f. \<exists>s. f k = Some (File s) \<and> X s)) m Q R"
  unfolding triple_def
proof (intro allI impI)
  fix d
  assume "state_ok d0 K (\<lambda>f. \<exists>s. f k = Some (File s) \<and> X s) d"
  then obtain s where "X s" "state_ok d0 K (\<lambda>f. f k = Some (File s)) d"
    by (auto simp: state_ok_def)
  with assms [of s] show "case m d of (Inl e, d') \<Rightarrow> R e d' | (Inr x, d') \<Rightarrow> Q x d'"
    by (simp add: triple_def)
qed

lemma triple_ofs_open:
  assumes "key d0 p \<in> K"
  shows "triple (state_ok d0 K T) (ofs_open p)
     (\<lambda>ok. state_ok d0 K (\<lambda>f. if ok then \<not> dir_only p \<and> f (key d0 p) = Some (File []) else T f)) R"
  unfolding ofs_open_def
proof (rule triple_bind [OF triple_sys], rule tripleI)
  fix e d and r :: "bool result" and d'
  assume d: "state_ok d0 K T d"
    and "(if e = None \<and> writable d p then (Inr True, put_node (key d p) (File []) d) else (Inr False, d)) = (r, d')"
  with state_ok_put_file [OF d _ assms, of "[]"] state_ok_key [OF d, of p]
  show "case r of Inl e \<Rightarrow> R e d'
      | Inr ok \<Rightarrow> state_ok d0 K (\<lambda>f. if ok then \<not> dir_only p \<and> f (key d0 p) = Some (File []) else T f) d'"
    by (auto simp: writable_def split: if_splits elim: state_ok_mono)
qed

lemma triple_ofs_write:
  assumes "key d0 p \<in> K" "\<not> dir_only p"
  shows "triple (state_ok d0 K (\<lambda>f. f (key d0 p) = Some (File s))) (ofs_write p data)
     (\<lambda>ok. state_ok d0 K (\<lambda>f. \<exists>t. f (key d0 p) = Some (File t) \<and> (ok \<longrightarrow> t = s @ data))) R"
  unfolding ofs_write_def
proof (rule triple_bind [OF triple_sys], rule tripleI)
  fix e d and r :: "bool result" and d'
  assume d: "state_ok d0 K (\<lambda>f. f (key d0 p) = Some (File s)) d"
    and "(let k = key d p in case e of
          None \<Rightarrow> (Inr True, put_node k (File (content d k @ data)) d)
        | Some n \<Rightarrow> (Inr False, put_node k (File (content d k @ take n data)) d)) = (r, d')"
  moreover have f: "node_at d (key d0 p) = Some (File s)"
    using d by (simp add: state_ok_def)
  ultimately show "case r of Inl e \<Rightarrow> R e d'
      | Inr ok \<Rightarrow> state_ok d0 K (\<lambda>f. \<exists>t. f (key d0 p) = Some (File t) \<and> (ok \<longrightarrow> t = s @ data)) d'"
    using state_ok_rewrite_file [OF d assms(2,1) f] state_ok_key [OF d, of p]
    by (auto simp: Let_def content_def state_ok_def split: option.splits)
qed

lemma triple_ofs_close:
  assumes "key d0 p \<in> K" "\<not> dir_only p"
  shows "triple (state_ok d0 K (\<lambda>f. f (key d0 p) = Some (File s))) (ofs_close p)
     (\<lambda>_. state_ok d0 K (\<lambda>f. \<exists>n. f (key d0 p) = Some (File (take n s)))) R"
  unfolding ofs_close_def
proof (rule triple_bind [OF triple_sys], rule tripleI)
  fix e d and r :: "unit result" and d'
  assume d: "state_ok d0 K (\<lambda>f. f (key d0 p) = Some (File s)) d"
    and run: "(let k = key d p in case e of
          None \<Rightarrow> (Inr (), d)
        | Some n \<Rightarrow> (Inr (), put_node k (File (take n (content d k))) d)) = (r, d')"
  have f: "node_at d (key d0 p) = Some (File s)"
    using d by (simp add: state_ok_def)
  show "case r of Inl e \<Rightarrow> R e d'
      | Inr _ \<Rightarrow> state_ok d0 K (\<lambda>f. \<exists>n. f (key d0 p) = Some (File (take n s))) d'"
  proof (cases e)
    case None
    moreover have "\<exists>n. s = take n s" by (rule exI [of _ "length s"]) simp
    ultimately show ?thesis
      using run d by (auto simp: Let_def state_ok_def)
  next
    case (Some n)
    then show ?thesis
      using run f state_ok_rewrite_file [OF d assms(2,1) f, of "take n s"] state_ok_key [OF d, of p]
      by (auto simp: Let_def content_def elim!: state_ok_mono)
  qed
qed

lemma state_ok_del:
  "state_ok d0 K T d \<Longrightarrow> k \<in> K \<Longrightarrow> node_at d k = Some (File s) \<or> children d k = [] \<Longrightarrow>
     state_ok d0 K (\<lambda>_. True) (del_node k d)"
  by (auto simp: state_ok_def intro!: wf_del changes_del)

lemma triple_fs_remove:
  assumes "key d0 p \<in> K"
  shows "triple (state_ok d0 K T) (fs_remove p) (\<lambda>_. state_ok d0 K (\<lambda>_. True)) (thrown_ok d0 K)"
  unfolding fs_remove_def
proof (rule triple_guarded, rule tripleI)
  fix d and r :: "bool result" and d'
  assume d: "state_ok d0 K T d"
    and run: "(case lookup d p of
            None \<Rightarrow> (Inr False, d)
          | Some (File _) \<Rightarrow> (Inr True, del_node (key d p) d)
          | Some Dir \<Rightarrow>
              if key d p = [] \<or> children d (key d p) \<noteq> [] then fs_error ''remove'' d
              else (Inr True, del_node (key d p) d)) = (r, d')"
  have "state_ok d0 K (\<lambda>_. True) d" using d by (rule state_ok_any)
  moreover have "state_ok d0 K (\<lambda>_. True) (del_node (key d0 p) d)"
    if "(\<exists>s. lookup d p = Some (File s)) \<or> children d (key d0 p) = []"
    using state_ok_del [OF d assms] that state_ok_key [OF d, of p] by (auto simp: lookup_file)
  ultimately have "state_ok d0 K (\<lambda>_. True) d'"
    using run state_ok_key [OF d, of p]
    by (auto simp: fs_error_def io_throw_def split: option.splits node.splits if_splits)
  then show "case r of Inl e \<Rightarrow> state_ok d0 K (\<lambda>_. True) d' | Inr x \<Rightarrow> state_ok d0 K (\<lambda>_. True) d'"
    by (simp split: sum.split)
qed (simp add: state_ok_def)

lemma state_ok_move:
  assumes d: "state_ok d0 K T d" and K: "key d0 p \<in> K" "key d0 q \<in> K"
    and s: "node_at d (key d0 p) = Some (File s)" and w: "writable d q"
  shows "state_ok d0 K (\<lambda>f. f (key d0 q) = Some (File s) \<and> (key d0 p \<noteq> key d0 q \<longrightarrow> f (key d0 p) = None))
    (put_node (key d0 q) (File s) (del_node (key d0 p) d))"
proof -
  let ?d1 = "del_node (key d0 p) d"
  have q: "\<not> dir_only q" "node_at d (key d0 q) \<noteq> Some Dir" "node_at d (butlast (key d0 q)) = Some Dir"
    using w state_ok_key [OF d, of q] by (auto simp: writable_def)
  have "key d0 q \<noteq> []" using key_not_Nil [OF q(1)] .
  have d1: "state_ok d0 K (\<lambda>_. True) ?d1"
    using state_ok_del [OF d K(1)] s by blast
  have "key d0 p \<noteq> butlast (key d0 q)" using q(3) s by auto
  then have "node_at ?d1 (key d0 q) \<noteq> Some Dir" "node_at ?d1 (butlast (key d0 q)) = Some Dir"
    using q by (auto simp: node_at_del)
  from state_ok_put_file [OF d1 q(1) K(2) this, of s] show ?thesis
    using s by (cases "key d0 p = []") (auto simp: state_ok_def node_at_put node_at_del)
qed

lemma triple_fs_rename:
  assumes "key d0 p \<in> K" "key d0 q \<in> K"
  shows "triple (state_ok d0 K (\<lambda>f. f (key d0 p) = Some (File s))) (fs_rename p q)
     (\<lambda>_. state_ok d0 K (\<lambda>f. f (key d0 q) = Some (File s) \<and> (key d0 p \<noteq> key d0 q \<longrightarrow> f (key d0 p) = None)))
     (thrown_ok d0 K)"
  unfolding fs_rename_def
proof (rule triple_guarded, rule tripleI)
  fix d and r :: "unit result" and d'
  assume d: "state_ok d0 K (\<lambda>f. f (key d0 p) = Some (File s)) d"
    and run: "(case lookup d p of
            Some (File s) \<Rightarrow>
              if writable d q
              then (Inr (), put_node (key d q) (File s) (del_node (key d p) d))
              else fs_error ''rename'' d
          | _ \<Rightarrow> fs_error ''rename'' d) = (r, d')"
  have s: "node_at d (key d0 p) = Some (File s)" using d by (simp add: state_ok_def)
  have "state_ok d0 K (\<lambda>_. True) d" using d by (rule state_ok_any)
  with run state_ok_move [OF d assms s] s state_ok_key [OF d]
  show "case r of Inl e \<Rightarrow> state_ok d0 K (\<lambda>_. True) d'
      | Inr _ \<Rightarrow> state_ok d0 K (\<lambda>f. f (key d0 q) = Some (File s)
          \<and> (key d0 p \<noteq> key d0 q \<longrightarrow> f (key d0 p) = None)) d'"
    by (auto simp: fs_error_def io_throw_def lookup_file split: option.splits node.splits if_splits)
qed (simp add: state_ok_def)

section \<open>Runs without faults\<close>

lemma sys_ok [simp]: "faults d = [] \<Longrightarrow> sys d = (Inr None, d)"
  by (simp add: sys_def)

lemma guarded_ok [simp]: "faults d = [] \<Longrightarrow> guarded c m d = m d"
  by (simp add: guarded_def io_bind_def)

lemma faults_simps [simp]: "faults (put_node k n d) = faults d" "faults (del_node k d) = faults d"
  by (simp_all add: put_node_def del_node_def)

text \<open>No file is on the way from the root to \<open>k\<close>.\<close>

definition clear_way :: "disk \<Rightarrow> string list \<Rightarrow> bool" where
  "clear_way d k \<longleftrightarrow> (\<forall>j s. prefix j k \<longrightarrow> node_at d j \<noteq> Some (File s))"

lemma mkdirs_ok:
  assumes "faults d = []" "clear_way d (k @ xs)"
  shows "\<exists>d'. mkdirs k xs d = (Inr (), d') \<and> faults d' = [] \<and>
    (\<forall>j. \<not> (prefix j (k @ xs) \<and> strict_prefix k j) \<longrightarrow> node_at d' j = node_at d j)"
  using assms
proof (induction xs arbitrary: k d)
  case Nil
  then show ?case by (simp add: io_return_def)
next
  case (Cons x xs)
  have pre: "prefix (k @ [x]) (k @ x # xs)" by simp
  have IH: "\<exists>d'. mkdirs (k @ [x]) xs d1 = (Inr (), d') \<and> faults d' = [] \<and>
      (\<forall>j. \<not> (prefix j (k @ x # xs) \<and> strict_prefix (k @ [x]) j) \<longrightarrow> node_at d' j = node_at d1 j)"
    if "faults d1 = []" "clear_way d1 (k @ x # xs)" for d1
    using Cons.IH [of d1 "k @ [x]"] that by simp
  have sub: "strict_prefix (k @ [x]) j \<Longrightarrow> strict_prefix k j" for j
    by (meson prefixI prefix_order.less_le_trans strict_prefixI' prefix_order.dual_order.strict_trans)
  show ?case
  proof (cases "node_at d (k @ [x])")
    case None
    let ?d1 = "put_node (k @ [x]) Dir d"
    have "clear_way ?d1 (k @ x # xs)"
      using Cons.prems(2) by (auto simp: clear_way_def node_at_put)
    then obtain d' where d': "mkdirs (k @ [x]) xs ?d1 = (Inr (), d')" "faults d' = []"
        "\<forall>j. \<not> (prefix j (k @ x # xs) \<and> strict_prefix (k @ [x]) j) \<longrightarrow> node_at d' j = node_at ?d1 j"
      using IH [of ?d1] Cons.prems(1) by auto
    have "node_at d' j = node_at d j" if "\<not> (prefix j (k @ x # xs) \<and> strict_prefix k j)" for j
    proof -
      have "j \<noteq> k @ [x]" using that pre by (auto simp: strict_prefix_def)
      moreover have "node_at d' j = node_at ?d1 j" using that d'(3) sub by blast
      ultimately show ?thesis by (simp add: node_at_put)
    qed
    with d' None Cons.prems(1) show ?thesis by (simp add: io_bind_def)
  next
    case (Some n)
    then have "n = Dir"
      using Cons.prems(2) pre by (cases n) (auto simp: clear_way_def)
    with Some IH [OF Cons.prems] sub show ?thesis by auto
  qed
qed

lemma create_directories_ok:
  assumes "faults d = []" "clear_way d (key d p)" "p \<noteq> []" "wf_disk d"
  shows "\<exists>d'. create_directories p d = (Inr (), d') \<and> faults d' = [] \<and> wf_disk d'
    \<and> changes {key d p} d d' \<and> node_at d' (key d p) = Some Dir
    \<and> (\<forall>j. \<not> prefix j (key d p) \<longrightarrow> node_at d' j = node_at d j)"
proof -
  obtain d' where d': "mkdirs [] (key d p) d = (Inr (), d')" "faults d' = []"
      "\<forall>j. \<not> prefix j (key d p) \<longrightarrow> node_at d' j = node_at d j"
    using mkdirs_ok [OF assms(1), of "[]" "key d p"] assms(2) by auto
  have "state_ok d {key d p} (\<lambda>_. True) d"
    using assms(4) by (simp add: state_ok_def)
  from triple_Inr [OF triple_create_directories this, of p] on_way_self [of "key d p" "{key d p}"] d' assms(3) show ?thesis
    by (auto simp: create_directories_def state_ok_def)
qed

end
