(* ===== verification/CryptoUtils.thy ===== *)
theory CryptoUtils
  imports FsPath MetadataStore
begin

text \<open>
  \<open>file/CryptoUtils.h\<close>: the hexadecimal MD5 of a byte string, the cleaning of file names, the
  white lists of extensions and scenes, and the two-level directory an MD5 maps to.  \<open>MD5\<close> itself
  is OpenSSL's and is a parameter; its contract (sixteen bytes) is the locale \<open>digest\<close>.
\<close>

section \<open>MD5\<close>

definition hex_digit :: "nat \<Rightarrow> char" where
  "hex_digit d = (if d < 10 then char_of (48 + d) else char_of (87 + d))"

text \<open>One byte through \<open>std::hex\<close>, \<open>setw(2)\<close> and \<open>setfill('0')\<close>.\<close>

definition hex_byte :: "8 word \<Rightarrow> string" where
  "hex_byte b = [hex_digit (unat b div 16), hex_digit (unat b mod 16)]"

definition md5_hex :: "(string \<Rightarrow> 8 word list) \<Rightarrow> string \<Rightarrow> string" where
  "md5_hex MD5 data = concat (map hex_byte (MD5 data))"

section \<open>File names\<close>

text \<open>The character class of \<open>reg_special\<close>.\<close>

definition special_char :: "char \<Rightarrow> bool" where
  "special_char c \<longleftrightarrow> c \<in> set ''/:*?<>|()[]{},;#@%&$^~=+-!'' \<or> c = CHR 0x5C \<or> c = CHR 0x22 \<or> c = CHR 0x27
     \<or> isspace c"

text \<open>\<open>regex_replace\<close> of every run of two or more dots.\<close>

function remove_dot_runs :: "string \<Rightarrow> string" where
  "remove_dot_runs [] = []"
| "remove_dot_runs (c # cs) =
     (if c \<noteq> CHR ''.'' then c # remove_dot_runs cs
      else
        let rest = dropWhile (\<lambda>x. x = CHR ''.'') cs
        in if rest = cs then CHR ''.'' # remove_dot_runs cs else remove_dot_runs rest)"
  by pat_completeness auto
termination
  by (relation "measure length") (auto intro: le_imp_less_Suc length_dropWhile_le)

definition trim_filename_special_char :: "string \<Rightarrow> string" where
  "trim_filename_special_char fname =
     (let res = remove_dot_runs (filter (\<lambda>c. \<not> special_char c) fname);
          res1 = (if res \<noteq> [] \<and> hd res = CHR ''.'' then tl res else res)
      in if res1 \<noteq> [] \<and> last res1 = CHR ''.'' then butlast res1 else res1)"

definition check_file_ext :: "string \<Rightarrow> string list \<Rightarrow> bool" where
  "check_file_ext fname allow_ext \<longleftrightarrow>
     (if allow_ext = [] then True else List.member allow_ext (map tolower (extension fname)))"

definition check_scene :: "string \<Rightarrow> string list \<Rightarrow> bool" where
  "check_scene sc allow_scenes \<longleftrightarrow> (if allow_scenes = [] then True else List.member allow_scenes sc)"

definition md5_to_rel_path :: "string \<Rightarrow> string result" where
  "md5_to_rel_path m =
     (if length m < 4
      then Inl (Invalid_argument (''[FileStore] MD5 length too short: '' @ m))
      else Inr (path_append (path_append (path_append [] (substr m 0 2)) (substr m 2 2)) m))"

section \<open>The hexadecimal form\<close>

lemma hex_digit_less: "d < 16 \<Longrightarrow> isxdigit (hex_digit d)"
  by (auto simp: hex_digit_def isxdigit_def is_digit_def)

lemma hex_digit_inj: "d < 16 \<Longrightarrow> e < 16 \<Longrightarrow> hex_digit d = hex_digit e \<Longrightarrow> d = e"
  by (auto simp: hex_digit_def split: if_splits dest!: arg_cong [where f = ch_code])

lemma unat_byte: "unat (b :: 8 word) div 16 < 16" "unat b mod 16 < 16"
  using unsigned_less [of b, where ?'a = nat] by auto

lemma hex_byte_xdigit: "c \<in> set (hex_byte b) \<Longrightarrow> isxdigit c"
  using hex_digit_less unat_byte [of b] by (auto simp: hex_byte_def)

lemma hex_byte_inj: "hex_byte a = hex_byte b \<Longrightarrow> a = b"
proof -
  assume "hex_byte a = hex_byte b"
  then have "unat a div 16 = unat b div 16" "unat a mod 16 = unat b mod 16"
    using hex_digit_inj unat_byte by (auto simp: hex_byte_def)
  then have "unat a = unat b"
    by (metis div_mult_mod_eq)
  then show "a = b" by (rule word_unat_eq_iff [THEN iffD2])
qed

locale digest =
  fixes MD5 :: "string \<Rightarrow> 8 word list"
  assumes length_MD5: "length (MD5 s) = 16"
begin

lemma hex_md5_hex: "hex_md5 (md5_hex MD5 s)"
proof -
  have "length (concat (map hex_byte bs)) = 2 * length bs" for bs
    by (induction bs) (auto simp: hex_byte_def)
  then show ?thesis
    using hex_byte_xdigit by (fastforce simp: hex_md5_def md5_hex_def length_MD5)
qed

lemma md5_hex_eq_iff: "md5_hex MD5 s = md5_hex MD5 t \<longleftrightarrow> MD5 s = MD5 t"
proof -
  have "concat (map hex_byte as) = concat (map hex_byte bs) \<Longrightarrow> length as = length bs \<Longrightarrow> as = bs"
    for as bs
    by (induction as bs rule: list_induct2') (auto simp: hex_byte_def intro!: hex_byte_inj)
  then show ?thesis
    by (auto simp: md5_hex_def length_MD5)
qed

end

text \<open>A digest of the right length: the length of the data and its bytes folded together.\<close>

definition toy_MD5 :: "string \<Rightarrow> 8 word list" where
  "toy_MD5 s = replicate 15 (of_nat (length s)) @ [fold (\<lambda>c b. 31 * b + of_nat (ch_code c)) s 7]"

interpretation toy: digest toy_MD5
  by unfold_locales (simp add: toy_MD5_def)

section \<open>Clean names\<close>

definition clean_name :: "string \<Rightarrow> bool" where
  "clean_name s \<longleftrightarrow> (\<forall>c \<in> set s. \<not> special_char c) \<and> \<not> contains ''..'' s
     \<and> (s \<noteq> [] \<longrightarrow> hd s \<noteq> CHR ''.'' \<and> last s \<noteq> CHR ''.'')"

fun no_double_dot :: "string \<Rightarrow> bool" where
  "no_double_dot (a # b # s) \<longleftrightarrow> \<not> (a = CHR ''.'' \<and> b = CHR ''.'') \<and> no_double_dot (b # s)"
| "no_double_dot _ \<longleftrightarrow> True"

lemma no_double_dot_iff: "no_double_dot s \<longleftrightarrow> \<not> contains ''..'' s"
  by (induction s rule: no_double_dot.induct) (auto simp: contains_def)

lemma dropWhile_dot_same: "dropWhile (\<lambda>x. x = CHR ''.'') cs = cs \<longleftrightarrow> cs = [] \<or> hd cs \<noteq> CHR ''.''"
  by (cases cs) (auto dest: arg_cong [where f = length] simp: le_imp_less_Suc length_dropWhile_le
      less_imp_neq)

lemma set_remove_dot_runs: "c \<in> set (remove_dot_runs s) \<Longrightarrow> c \<in> set s"
  by (induction s rule: remove_dot_runs.induct)
    (auto simp: Let_def split: if_splits dest: set_dropWhileD)

lemma no_double_dot_Cons:
  "no_double_dot (c # s) \<longleftrightarrow> no_double_dot s \<and> (s = [] \<or> c \<noteq> CHR ''.'' \<or> hd s \<noteq> CHR ''.'')"
  by (cases s) auto

lemma remove_dot_runs_dotfree:
  "no_double_dot (remove_dot_runs s) \<and>
   (s = [] \<or> hd s \<noteq> CHR ''.'' \<longrightarrow> remove_dot_runs s = [] \<or> hd (remove_dot_runs s) \<noteq> CHR ''.'')"
proof (induction s rule: remove_dot_runs.induct)
  case (2 c cs)
  show ?case
  proof (cases "c = CHR ''.'' \<and> dropWhile (\<lambda>x. x = CHR ''.'') cs = cs")
    case True
    then have "cs = [] \<or> hd cs \<noteq> CHR ''.''" by (simp add: dropWhile_dot_same)
    with 2 True show ?thesis by (auto simp: Let_def no_double_dot_Cons)
  next
    case False
    with 2 show ?thesis by (auto simp: Let_def no_double_dot_Cons)
  qed
qed simp

lemma no_double_dot_tl: "no_double_dot s \<Longrightarrow> no_double_dot (tl s) \<and> (s \<noteq> [] \<and> hd s = CHR ''.'' \<and> tl s \<noteq> [] \<longrightarrow> hd (tl s) \<noteq> CHR ''.'')"
  by (cases s) (auto simp: no_double_dot_Cons)

lemma no_double_dot_butlast:
  "no_double_dot s \<Longrightarrow> no_double_dot (butlast s) \<and>
     (s \<noteq> [] \<and> last s = CHR ''.'' \<and> butlast s \<noteq> [] \<longrightarrow> last (butlast s) \<noteq> CHR ''.'')"
  by (induction s rule: no_double_dot.induct) (auto simp: no_double_dot_Cons split: if_splits)

lemma remove_dot_runs_id: "no_double_dot s \<Longrightarrow> remove_dot_runs s = s"
proof (induction s rule: remove_dot_runs.induct)
  case (2 c cs)
  then have "c = CHR ''.'' \<Longrightarrow> dropWhile (\<lambda>x. x = CHR ''.'') cs = cs"
    by (auto simp: dropWhile_dot_same no_double_dot_Cons)
  with 2 show ?case by (auto simp: Let_def no_double_dot_Cons)
qed simp

lemma trim_clean: "clean_name (trim_filename_special_char s)"
proof -
  define r where "r = remove_dot_runs (filter (\<lambda>c. \<not> special_char c) s)"
  define t where "t = (if r \<noteq> [] \<and> hd r = CHR ''.'' then tl r else r)"
  have trim: "trim_filename_special_char s = (if t \<noteq> [] \<and> last t = CHR ''.'' then butlast t else t)"
    by (simp add: trim_filename_special_char_def r_def t_def Let_def)
  have "\<forall>c \<in> set r. \<not> special_char c"
    unfolding r_def using set_remove_dot_runs by fastforce
  then have chars: "\<forall>c \<in> set t. \<not> special_char c"
    by (auto simp: t_def dest: list.set_sel(2))
  have "no_double_dot r"
    using remove_dot_runs_dotfree by (auto simp: r_def)
  then have t: "no_double_dot t" "t \<noteq> [] \<longrightarrow> hd t \<noteq> CHR ''.''"
    using no_double_dot_tl [of r] by (auto simp: t_def)
  show ?thesis
  proof (cases "t \<noteq> [] \<and> last t = CHR ''.''")
    case True
    have "butlast t \<noteq> [] \<longrightarrow> hd (butlast t) = hd t" by (cases t) auto
    with True t chars no_double_dot_butlast [OF t(1)] show ?thesis
      by (auto simp: clean_name_def trim no_double_dot_iff dest: in_set_butlastD)
  next
    case False
    with t chars show ?thesis by (auto simp: clean_name_def trim no_double_dot_iff)
  qed
qed

lemma trim_id: "clean_name s \<Longrightarrow> trim_filename_special_char s = s"
  by (auto simp: trim_filename_special_char_def clean_name_def no_double_dot_iff [symmetric]
      remove_dot_runs_id Let_def)

interpretation trim: sanitizer trim_filename_special_char clean_name
  by unfold_locales (simp_all add: trim_clean trim_id)

lemma special_slash: "special_char CHR ''/''"
  by (simp add: special_char_def)

lemma clean_name_plain: "clean_name s \<Longrightarrow> s \<noteq> [] \<Longrightarrow> plain_name s"
  using special_slash by (auto simp: clean_name_def plain_name_def)

text \<open>C37: a trimmed file name is empty or a plain name, which has no slash and is neither \<open>.\<close> nor
  \<open>..\<close>, so it cannot lead out of a directory; it has none of the special characters and no two
  consecutive dots; and trimming it again changes nothing.\<close>

theorem trim_filename_safe:
  "(trim_filename_special_char s = [] \<or> plain_name (trim_filename_special_char s))
   \<and> (\<exists>c \<in> set (trim_filename_special_char s). special_char c) = False
   \<and> contains ''..'' (trim_filename_special_char s) = False
   \<and> trim_filename_special_char (trim_filename_special_char s) = trim_filename_special_char s"
  using trim.clean_ok [of s] trim.clean_idem [of s] clean_name_plain
  by (auto simp: clean_name_def)

section \<open>The directory of an MD5\<close>

lemma md5_to_rel_path_eq:
  assumes "hex_md5 m"
  shows "md5_to_rel_path m = Inr (take 2 m @ ''/'' @ take 2 (drop 2 m) @ ''/'' @ m)"
proof -
  obtain a b c d s where m: "m = a # b # c # d # s"
    using assms by (auto simp: hex_md5_def numeral_eq_Suc length_Suc_conv)
  then have "\<forall>x \<in> {a, b, c, d}. x \<noteq> CHR ''/''"
    using assms by (auto simp: hex_md5_def isxdigit_def is_digit_def)
  then show ?thesis
    by (simp add: m md5_to_rel_path_def substr_def path_append_def is_absolute_def filename_def)
qed

lemma hex_md5_no_slash: "hex_md5 m \<Longrightarrow> CHR ''/'' \<notin> set m \<and> CHR ''.'' \<notin> set m"
  by (auto simp: hex_md5_def isxdigit_def is_digit_def)

text \<open>The storage path of an MD5 goes through exactly three names below any directory, the
  first two characters, the next two and the whole MD5, so two MD5s never share a file.\<close>

theorem md5_to_rel_path_resolves:
  assumes "hex_md5 m"
  shows "\<exists>p. md5_to_rel_path m = Inr p \<and> is_absolute p = False
    \<and> resolve cwd p = cwd @ [take 2 m, take 2 (drop 2 m), m]"
proof -
  let ?a = "take 2 m" and ?b = "take 2 (drop 2 m)"
  have ns: "CHR ''/'' \<notin> set m" "CHR ''.'' \<notin> set m"
    using hex_md5_no_slash [OF assms] by auto
  then have sub: "CHR ''/'' \<notin> set ?a" "CHR ''/'' \<notin> set ?b" "CHR ''.'' \<notin> set ?a" "CHR ''.'' \<notin> set ?b"
    by (auto dest: in_set_takeD in_set_dropD)
  have ne: "?a \<noteq> []" "?b \<noteq> []" "m \<noteq> []"
    using assms by (auto simp: hex_md5_def)
  have step: "step_name x acc = acc @ [x]" if "x \<noteq> []" "CHR ''.'' \<notin> set x" for x acc
    using that by (auto simp: step_name_def)
  have "split_slash (?a @ ''/'' @ ?b @ ''/'' @ m) = [?a, ?b, m]"
    using ns sub by (simp add: split_slash_append [simplified] split_slash_single)
  moreover have "\<not> is_absolute (?a @ ''/'' @ ?b @ ''/'' @ m)"
    using ne sub by (cases ?a) (auto simp: is_absolute_def)
  ultimately show ?thesis
    using md5_to_rel_path_eq [OF assms] ns sub ne by (simp add: resolve_def step)
qed

theorem md5_to_rel_path_resolves_witness:
  "\<exists>p. md5_to_rel_path (replicate 32 CHR ''a'') = Inr p \<and>
     resolve [''srv''] p = [''srv'', ''aa'', ''aa'', replicate 32 CHR ''a'']"
  using md5_to_rel_path_resolves [of "replicate 32 CHR ''a''" "[''srv'']"]
  by (auto simp: hex_md5_def isxdigit_def numeral_2_eq_2)

text \<open>C36: the MD5 text of any data is 32 hexadecimal digits, and two texts are equal only when the
  digests are.\<close>

theorem md5_hex_faithful:
  assumes "digest MD5"
  shows "hex_md5 (md5_hex MD5 s) \<and> (md5_hex MD5 s = md5_hex MD5 t \<longleftrightarrow> MD5 s = MD5 t)"
  using digest.hex_md5_hex [OF assms] digest.md5_hex_eq_iff [OF assms] by simp

theorem md5_hex_faithful_witness:
  "hex_md5 (md5_hex toy_MD5 ''a'') \<and> md5_hex toy_MD5 ''a'' \<noteq> md5_hex toy_MD5 ''b''"
  using md5_hex_faithful [OF toy.digest_axioms, of "''a''" "''b''"] by (simp add: toy_MD5_def)

end
