(* ===== verification/FileStore.thy ===== *)
theory FileStore
  imports FileSystem CryptoUtils
begin

text \<open>
  \<open>file/filestore\<close>: writing through a temporary file and an atomic rename, reading, the two
  \<open>save_file\<close> overloads, shards, and the scan of a chunk directory.  A store is its configuration;
  the disk is the state.  The random suffix of a temporary file is an argument (\<open>r\<close>, what the
  generator gives) and so is the \<open>MD5\<close> function.
\<close>

section \<open>Configuration\<close>

record StoreConfig =
  root_dir :: string
  temp_dir :: string
  max_file_size :: u64
  group :: string
  store_peer_id :: string
  store_domain :: string
  allow_extensions :: "string list"
  store_trim_filename :: bool
  store_distinct_file :: bool

definition default_StoreConfig :: StoreConfig where
  "default_StoreConfig = \<lparr>root_dir = ''./data/store'', temp_dir = ''_tmp'',
     max_file_size = 10 * 1024 * 1024, group = ''group1'', store_peer_id = ''node_01'',
     store_domain = ''localhost:8080'',
     allow_extensions = [''.jpg'', ''.png'', ''.txt'', ''.pdf'', ''.zip'', ''.file''],
     store_trim_filename = True, store_distinct_file = True\<rparr>"

text \<open>The options of a sharded transfer, which no other file uses.\<close>

record ShardedTransferConfig =
  default_shard_size :: u64
  min_shard_size :: u64
  task_expire_seconds :: "64 word"
  shard_scene_prefix :: string
  auto_clean_expired :: bool
  merge_file_dir :: string
  temp_shard_dir :: string

definition default_ShardedTransferConfig :: ShardedTransferConfig where
  "default_ShardedTransferConfig = \<lparr>default_shard_size = 10 * 1024 * 1024, min_shard_size = 1 * 1024 * 1024,
     task_expire_seconds = 3600, shard_scene_prefix = ''shard_'', auto_clean_expired = True,
     merge_file_dir = ''./data/store'', temp_shard_dir = ''./data/temp''\<rparr>"

section \<open>Operations\<close>

definition generate_temp_suffix :: "nat \<Rightarrow> string" where
  "generate_temp_suffix r = to_string_nat (100000 + r mod 900000)"

definition FileStore_init :: "StoreConfig \<Rightarrow> (disk, unit) io" where
  "FileStore_init cfg =
     io_catch
       (io_bind (create_directories (root_dir cfg)) (\<lambda>_.
        io_bind (create_directories (root_dir cfg @ ''/_tmp'')) (\<lambda>_.
        create_directories (root_dir cfg @ ''/_big''))))
       io_throw"

definition temp_path :: "string \<Rightarrow> nat \<Rightarrow> string" where
  "temp_path full_path r = full_path @ ''.tmp.'' @ generate_temp_suffix r"

text \<open>\<open>write_disk\<close>: the quick check at the start.\<close>

definition same_size :: "string \<Rightarrow> string \<Rightarrow> (disk, bool) io" where
  "same_size full_path data =
     io_bind (fs_exists full_path) (\<lambda>ex.
       if ex then io_bind (file_size full_path) (\<lambda>n. io_return (n = length data))
       else io_return False)"

text \<open>The check at the end of the \<open>try\<close> block; the log line asks for the size again.\<close>

definition verify_size :: "string \<Rightarrow> string \<Rightarrow> (disk, bool) io" where
  "verify_size full_path data =
     io_bind (fs_exists full_path) (\<lambda>st.
     io_bind (if st then io_bind (file_size full_path) (\<lambda>n. io_return (n \<noteq> length data))
              else io_return True) (\<lambda>bad.
       if bad
       then io_bind (fs_remove full_path) (\<lambda>_. io_bind (file_size full_path) (\<lambda>_. io_return False))
       else io_return True))"

text \<open>The \<open>try\<close> block: write the temporary file, rename it, check.\<close>

definition write_and_rename :: "string \<Rightarrow> string \<Rightarrow> string \<Rightarrow> (disk, bool) io" where
  "write_and_rename temp full_path data =
     io_bind (ofs_open temp) (\<lambda>ofs.
       if \<not> ofs then io_return False
       else io_bind (ofs_write temp data) (\<lambda>good.
         if \<not> good
         then io_bind (ofs_close temp) (\<lambda>_. io_bind (fs_remove temp) (\<lambda>_. io_return False))
         else io_bind (ofs_close temp) (\<lambda>_.
              io_bind (fs_rename temp full_path) (\<lambda>_.
              verify_size full_path data))))"

definition write_disk :: "nat \<Rightarrow> string \<Rightarrow> string \<Rightarrow> (disk, bool) io" where
  "write_disk r full_path data =
     io_bind (same_size full_path data) (\<lambda>same.
       if same then io_return True
       else io_bind (with_ec (create_directories (parent_path full_path))) (\<lambda>_.
         io_catch (write_and_rename (temp_path full_path r) full_path data)
           (\<lambda>e. io_bind (fs_remove full_path) (\<lambda>_. io_return False))))"

definition ec_bool :: "bool result \<Rightarrow> bool" where
  "ec_bool r = (case r of Inl _ \<Rightarrow> False | Inr b \<Rightarrow> b)"

definition read_disk :: "string \<Rightarrow> (disk, string option) io" where
  "read_disk real_path =
     io_bind (with_ec (fs_exists real_path)) (\<lambda>ex.
       if \<not> ec_bool ex then io_return None
       else io_bind (with_ec (is_regular_file real_path)) (\<lambda>reg.
         if \<not> ec_bool reg then io_return None
         else io_bind (with_ec (file_size real_path)) (\<lambda>n.
           case n of
             Inl _ \<Rightarrow> io_return None
           | Inr sz \<Rightarrow>
               if sz = 0 then io_return (Some [])
               else io_bind (ifs_open real_path) (\<lambda>f.
                 case f of
                   None \<Rightarrow> io_return None
                 | Some s \<Rightarrow>
                     io_bind sys (\<lambda>e. if e = None then io_return (Some (take sz s)) else io_return None)))))"

definition list_files :: "StoreConfig \<Rightarrow> string list" where
  "list_files cfg = allow_extensions cfg"

definition get_root_dir :: "StoreConfig \<Rightarrow> string" where
  "get_root_dir cfg = root_dir cfg"

definition get_temp_dir :: "StoreConfig \<Rightarrow> string" where
  "get_temp_dir cfg = temp_dir cfg"

text \<open>One directory entry of \<open>get_shard_index\<close>; whatever \<open>stoi\<close> throws is swallowed.\<close>

definition shard_index_of :: "string \<times> node \<Rightarrow> int option" where
  "shard_index_of entry =
     (case entry of
        (fname, File _) \<Rightarrow> (case stoi fname of Inl _ \<Rightarrow> None | Inr i \<Rightarrow> Some i)
      | (_, Dir) \<Rightarrow> None)"

definition get_shard_index :: "string \<Rightarrow> (disk, int list) io" where
  "get_shard_index file_dir =
     io_bind (fs_exists file_dir) (\<lambda>ex.
     io_bind (if ex then is_directory file_dir else io_return False) (\<lambda>isdir.
       if isdir
       then io_bind (directory_iterator file_dir) (\<lambda>es. io_return (List.map_filter shard_index_of es))
       else io_return []))"

text \<open>\<open>save_file(data, rel_path)\<close>.\<close>

definition save_file_at :: "StoreConfig \<Rightarrow> nat \<Rightarrow> string \<Rightarrow> string \<Rightarrow> (disk, bool) io" where
  "save_file_at cfg r data rel_path =
     (if contains ''..'' rel_path then io_return False
      else
        let full_path = path_append (root_dir cfg) rel_path
        in io_bind (with_ec (create_directories (parent_path full_path))) (\<lambda>ec.
             case ec of
               Inl _ \<Rightarrow> io_return False
             | Inr _ \<Rightarrow>
                 io_bind (write_disk r full_path data) (\<lambda>ok.
                   if \<not> ok then io_bind (with_ec (fs_remove full_path)) (\<lambda>_. io_return False)
                   else io_return True)))"

text \<open>\<open>save_file(filename, data, scene, md5)\<close>; the answer is the path relative to the root.\<close>

definition save_file :: "StoreConfig \<Rightarrow> (string \<Rightarrow> 8 word list) \<Rightarrow> nat \<Rightarrow> string \<Rightarrow> string \<Rightarrow> string \<Rightarrow>
    string \<Rightarrow> (disk, string option) io" where
  "save_file cfg MD5 r fname data scn m =
     (let file_md5 = (if m = [] then md5_hex MD5 data else m)
      in case md5_to_rel_path file_md5 of
           Inl e \<Rightarrow> io_throw e
         | Inr base_rel_path \<Rightarrow>
             let rel_path_str = base_rel_path @ extension fname;
                 abs_file_path = path_append (path_append (root_dir cfg) scn) rel_path_str
             in io_bind (fs_exists abs_file_path) (\<lambda>ex.
                  if ex then io_return (Some (path_append scn rel_path_str))
                  else io_bind (with_ec (create_directories (parent_path abs_file_path))) (\<lambda>ec.
                    case ec of
                      Inl _ \<Rightarrow> io_return None
                    | Inr _ \<Rightarrow>
                        io_bind (write_disk r abs_file_path data) (\<lambda>ok.
                          if \<not> ok then io_return None
                          else io_return (Some (path_append scn rel_path_str))))))"

definition save_shard :: "StoreConfig \<Rightarrow> (string \<Rightarrow> 8 word list) \<Rightarrow> nat \<Rightarrow> string \<Rightarrow> u32 \<Rightarrow> string \<Rightarrow> string \<Rightarrow>
    (disk, bool) io" where
  "save_shard cfg MD5 r file_md5 index data smd5 =
     (if md5_hex MD5 data \<noteq> smd5 then io_return False
      else
        let rel_path = root_dir cfg @ ''/'' @ temp_dir cfg @ ''/'' @ file_md5 @ ''/'' @ file_md5 @ ''_''
              @ to_string_nat (unat index)
        in io_bind (write_disk r rel_path data) (\<lambda>ok. io_return ok))"

definition get_file :: "StoreConfig \<Rightarrow> string \<Rightarrow> (disk, string option) io" where
  "get_file cfg p =
     (let full_path = path_append (root_dir cfg) p
      in io_bind (fs_exists full_path) (\<lambda>ex.
           if \<not> ex then io_return None
           else io_bind (is_regular_file full_path) (\<lambda>reg.
             if \<not> reg then io_return None else read_disk full_path)))"

section \<open>Writing under faults\<close>

lemma temp_suffix_no_slash: "CHR ''/'' \<notin> set (''.tmp.'' @ generate_temp_suffix r)"
  using to_string_nat_digits by (force simp: generate_temp_suffix_def is_digit_def)

text \<open>What \<open>write_disk\<close> leaves behind on success.\<close>

definition written :: "disk \<Rightarrow> string \<Rightarrow> string \<Rightarrow> (string list \<Rightarrow> node option) \<Rightarrow> bool" where
  "written d0 p data f \<longleftrightarrow> \<not> dir_only p \<and> f (key d0 p) = Some (File data)"

definition same_length :: "disk \<Rightarrow> string \<Rightarrow> string \<Rightarrow> (string list \<Rightarrow> node option) \<Rightarrow> bool" where
  "same_length d0 p data f \<longleftrightarrow> \<not> dir_only p \<and> (\<exists>s. f (key d0 p) = Some (File s) \<and> length s = length data)"

lemma triple_same_size:
  "triple (state_ok d0 K T) (same_size p data)
     (\<lambda>b. state_ok d0 K (\<lambda>f. T f \<and> (b \<longrightarrow> same_length d0 p data f))) (thrown_ok d0 K)"
  unfolding same_size_def
proof (rule triple_bind [OF triple_exists], rule triple_if)
  show "triple (state_ok d0 K T) (io_bind (file_size p) (\<lambda>n. io_return (n = length data)))
      (\<lambda>b. state_ok d0 K (\<lambda>f. T f \<and> (b \<longrightarrow> same_length d0 p data f))) (thrown_ok d0 K)"
    by (rule triple_bind [OF triple_file_size], rule triple_return)
      (auto simp: same_length_def state_ok_def)
qed (auto intro!: triple_return simp: state_ok_def)

lemma triple_verify_size:
  assumes K: "key d0 p \<in> K"
  shows "triple (state_ok d0 K (\<lambda>f. \<exists>n. f (key d0 p) = Some (File (take n data)))) (verify_size p data)
     (\<lambda>b. state_ok d0 K (\<lambda>f. b \<longrightarrow> written d0 p data f)) (thrown_ok d0 K)"
  (is "triple (state_ok d0 K ?T) _ ?Q _")
  unfolding verify_size_def
proof (rule triple_bind [OF triple_exists])
  fix st
  have size: "triple (state_ok d0 K ?T) (io_bind (file_size p) (\<lambda>n. io_return (n \<noteq> length data)))
      (\<lambda>bad. state_ok d0 K (\<lambda>f. \<not> bad \<longrightarrow> written d0 p data f)) (thrown_ok d0 K)"
    by (rule triple_bind [OF triple_file_size], rule triple_return) (auto simp: written_def state_ok_def)
  have bad: "triple (state_ok d0 K (\<lambda>f. \<not> bad \<longrightarrow> written d0 p data f))
      (if bad then io_bind (fs_remove p) (\<lambda>_. io_bind (file_size p) (\<lambda>_. io_return False)) else io_return True)
      ?Q (thrown_ok d0 K)" for bad
    by (rule triple_if, rule triple_bind [OF triple_fs_remove [OF K]],
        rule triple_bind [OF triple_file_size]) (auto intro!: triple_return simp: state_ok_def)
  show "triple (state_ok d0 K ?T)
      (io_bind (if st then io_bind (file_size p) (\<lambda>n. io_return (n \<noteq> length data)) else io_return True)
        (\<lambda>bad. if bad then io_bind (fs_remove p) (\<lambda>_. io_bind (file_size p) (\<lambda>_. io_return False))
               else io_return True)) ?Q (thrown_ok d0 K)"
    by (rule triple_bind [OF _ bad], rule triple_if [OF size])
      (auto intro!: triple_return simp: state_ok_def)
qed

lemma triple_write_and_rename:
  assumes K: "key d0 p \<in> K" "key d0 t \<in> K" and t: "\<not> dir_only t"
  shows "triple (state_ok d0 K T) (write_and_rename t p data)
     (\<lambda>b. state_ok d0 K (\<lambda>f. b \<longrightarrow> written d0 p data f)) (thrown_ok d0 K)"
  (is "triple _ _ ?Q _")
proof -
  let ?file = "\<lambda>X. state_ok d0 K (\<lambda>f. \<exists>s. f (key d0 t) = Some (File s) \<and> X s)"
  have fail: "triple (?file (\<lambda>_. True))
      (io_bind (ofs_close t) (\<lambda>_. io_bind (fs_remove t) (\<lambda>_. io_return False))) ?Q (thrown_ok d0 K)"
    by (rule triple_file_ex, rule triple_bind [OF triple_ofs_close [OF K(2) t]],
        rule triple_bind [OF triple_fs_remove [OF K(2)]], rule triple_return) (simp add: state_ok_def)
  have move: "triple (state_ok d0 K (\<lambda>f. f (key d0 t) = Some (File (take n data))))
      (io_bind (fs_rename t p) (\<lambda>_. verify_size p data)) ?Q (thrown_ok d0 K)" for n
    by (rule triple_bind [OF triple_fs_rename [OF K(2,1)]],
        rule triple_weaken [OF triple_verify_size [OF K(1)]]) (auto simp: state_ok_def)
  have "triple (?file (\<lambda>s. \<exists>n. s = take n data))
      (io_bind (fs_rename t p) (\<lambda>_. verify_size p data)) ?Q (thrown_ok d0 K)"
    by (rule triple_file_ex) (use move in blast)
  then have move': "triple (state_ok d0 K (\<lambda>f. \<exists>n. f (key d0 t) = Some (File (take n data))))
      (io_bind (fs_rename t p) (\<lambda>_. verify_size p data)) ?Q (thrown_ok d0 K)"
    by (rule triple_weaken) (auto simp: state_ok_def)
  have succeed: "triple (state_ok d0 K (\<lambda>f. f (key d0 t) = Some (File data)))
      (io_bind (ofs_close t) (\<lambda>_. io_bind (fs_rename t p) (\<lambda>_. verify_size p data))) ?Q (thrown_ok d0 K)"
    by (rule triple_bind [OF triple_ofs_close [OF K(2) t] move'])
  have "triple (state_ok d0 K (\<lambda>f. f (key d0 t) = Some (File [])))
      (io_bind (ofs_write t data) (\<lambda>good.
         if \<not> good
         then io_bind (ofs_close t) (\<lambda>_. io_bind (fs_remove t) (\<lambda>_. io_return False))
         else io_bind (ofs_close t) (\<lambda>_. io_bind (fs_rename t p) (\<lambda>_. verify_size p data))))
      ?Q (thrown_ok d0 K)"
    by (rule triple_bind [OF triple_ofs_write [OF K(2) t]], rule triple_if)
      (rule triple_weaken [OF fail] triple_weaken [OF succeed]; force simp: state_ok_def)+
  then show ?thesis
    unfolding write_and_rename_def
    by (intro triple_bind [OF triple_ofs_open [OF K(2)]] triple_if)
      (auto intro!: triple_return elim!: triple_weaken simp: state_ok_def)
qed

text \<open>\<open>write_disk\<close> under any faults: a report of success means the file is there, with the data or
  with older content of the same size; and nothing else changes.\<close>

lemma parent_on_way: "key d0 p \<in> K \<Longrightarrow> \<not> dir_only p \<Longrightarrow> parent_path p = [] \<or> on_way K (key d0 (parent_path p))"
proof (cases "parent_path p = []")
  case False
  assume "key d0 p \<in> K" "\<not> dir_only p"
  moreover have "prefix (butlast (key d0 p)) (key d0 p)" by (rule prefixeq_butlast)
  ultimately show ?thesis
    using resolve_parent [OF _ False, of "cwd d0"] unfolding key_def on_way_def by metis
qed simp

lemma triple_make_parent:
  assumes "key d0 p \<in> K" "\<not> dir_only p"
  shows "triple (state_ok d0 K T) (with_ec (create_directories (parent_path p)))
    (\<lambda>_. state_ok d0 K (\<lambda>_. True)) (thrown_ok d0 K)"
  by (rule triple_with_ec, rule triple_weaken [OF triple_create_directories [OF parent_on_way [OF assms]]])
    (auto simp: state_ok_def)

lemma triple_write_disk:
  assumes K: "key d0 p \<in> K" "key d0 (temp_path p r) \<in> K" and p: "\<not> dir_only p" and t: "\<not> dir_only (temp_path p r)"
  shows "triple (state_ok d0 K T) (write_disk r p data)
     (\<lambda>b. state_ok d0 K (\<lambda>f. b \<longrightarrow> written d0 p data f \<or> T f \<and> same_length d0 p data f)) (thrown_ok d0 K)"
  (is "triple _ _ ?Q _")
proof -
  note triple_make_parent [OF K(1) p]
  moreover have "triple (state_ok d0 K (\<lambda>_. True))
      (io_catch (write_and_rename (temp_path p r) p data) (\<lambda>e. io_bind (fs_remove p) (\<lambda>_. io_return False)))
      ?Q (thrown_ok d0 K)"
    by (rule triple_catch [where B = "thrown_ok d0 K"],
        rule triple_weaken [OF triple_write_and_rename [OF K t]])
      (auto intro!: triple_bind [OF triple_fs_remove [OF K(1)]] triple_return simp: state_ok_def)
  ultimately have new: "triple (state_ok d0 K T')
      (io_bind (with_ec (create_directories (parent_path p))) (\<lambda>_.
         io_catch (write_and_rename (temp_path p r) p data) (\<lambda>e. io_bind (fs_remove p) (\<lambda>_. io_return False))))
      ?Q (thrown_ok d0 K)" for T'
    by (rule triple_bind)
  show ?thesis
    unfolding write_disk_def
    by (rule triple_bind [OF triple_same_size], rule triple_if)
      (auto intro!: triple_return triple_weaken [OF new] simp: state_ok_def)
qed

end
