(* ===== verification/FileStoreProps.thy ===== *)
theory FileStoreProps
  imports FileStore
begin

text \<open>
  What the file store guarantees.  Under any faults of the disk, a write that reports success has
  left the file in place, and no outcome changes anything but the target and its temporary file;
  without faults every write succeeds and what was saved is read back.  Saving below the root stays
  below the root as long as the parts given by the client are relative and do not go up.
\<close>

section \<open>Writing\<close>

lemma temp_path_shape:
  assumes "\<not> dir_only p"
  shows "\<not> dir_only (temp_path p r)"
    and "key d (temp_path p r) = butlast (key d p) @ [filename p @ ''.tmp.'' @ generate_temp_suffix r]"
    and "key d (temp_path p r) \<noteq> key d p"
    and "temp_path p r \<noteq> []" "p \<noteq> []"
proof -
  let ?x = "''.tmp.'' @ generate_temp_suffix r"
  have f: "filename (p @ ?x) = filename p @ ?x"
    by (rule filename_append_name [OF temp_suffix_no_slash])
  show t: "\<not> dir_only (temp_path p r)"
    using f by (auto simp: dir_only_def temp_path_def)
  show k: "key d (temp_path p r) = butlast (key d p) @ [filename p @ ?x]"
    using resolve_suffix [OF temp_suffix_no_slash assms, of r] t by (simp add: temp_path_def key_def)
  have "key d p = butlast (key d p) @ [filename p]"
    using resolve_last [OF assms] by (simp add: key_def)
  then show "key d (temp_path p r) \<noteq> key d p"
    using k by (metis append_self_conv last_snoc list.distinct(1) append_Cons)
  show "temp_path p r \<noteq> []" "p \<noteq> []"
    using assms by (auto simp: temp_path_def dir_only_def filename_def)
qed

text \<open>C8: whatever faults the disk has, when \<open>write_disk\<close> reports success the target is a file with
  exactly the data, or it was left as it was because it already had a file of the same size.\<close>

theorem write_disk_truthful:
  assumes "wf_disk d" "\<not> dir_only p" and run: "write_disk r p data d = (Inr True, d')"
  shows "lookup d' p = Some (File data)
    \<or> (\<exists>s. lookup d p = Some (File s) \<and> length s = length data \<and> lookup d' p = Some (File s))"
proof -
  let ?K = "{key d p, key d (temp_path p r)}" and ?T = "\<lambda>f. f (key d p) = node_at d (key d p)"
  have "state_ok d ?K ?T d" using assms(1) by (simp add: state_ok_def)
  from triple_Inr [OF triple_write_disk [OF _ _ assms(2) temp_path_shape(1) [OF assms(2)]] this run]
  have "written d p data (node_at d') \<or> ?T (node_at d') \<and> same_length d p data (node_at d')"
    "key d' p = key d p"
    by (auto simp: state_ok_def dest: changes_key)
  then show ?thesis
    using assms(2) temp_path_shape(5) [OF assms(2)]
    by (simp add: written_def same_length_def lookup_file) metis
qed

text \<open>C11: whatever faults the disk has and however \<open>write_disk\<close> ends, normally or by an exception, the
  tree stays well formed, no file but the target and its temporary file changes or disappears, and
  nothing appears but directories on the way to the target.\<close>

theorem write_disk_frame:
  assumes "wf_disk d" "\<not> dir_only p" and run: "write_disk r p data d = (res, d')"
  shows "wf_disk d' \<and> changes {key d p, key d (temp_path p r)} d d'"
proof -
  let ?K = "{key d p, key d (temp_path p r)}"
  have "state_ok d ?K (\<lambda>_. True) d" using assms(1) by (simp add: state_ok_def)
  note t = triple_write_disk [of d p ?K r, OF _ _ assms(2) temp_path_shape(1) [OF assms(2)]]
  show ?thesis
  proof (cases res)
    case (Inl e)
    with triple_Inl [OF t \<open>state_ok d ?K (\<lambda>_. True) d\<close>, of data e d'] run show ?thesis
      by (simp add: state_ok_def)
  next
    case (Inr b)
    with triple_Inr [OF t \<open>state_ok d ?K (\<lambda>_. True) d\<close>, of data b d'] run show ?thesis
      by (simp add: state_ok_def)
  qed
qed

section \<open>Writing without faults\<close>

text \<open>A path at which a file can be created: no file on the way, no directory in its place.\<close>

definition creatable :: "disk \<Rightarrow> string \<Rightarrow> bool" where
  "creatable d p \<longleftrightarrow> \<not> dir_only p \<and> clear_way d (butlast (key d p)) \<and> node_at d (key d p) \<noteq> Some Dir
     \<and> (parent_path p = [] \<longrightarrow> node_at d (butlast (key d p)) = Some Dir)"

definition has_size :: "disk \<Rightarrow> string \<Rightarrow> string \<Rightarrow> bool" where
  "has_size d p data \<longleftrightarrow> (\<exists>s. lookup d p = Some (File s) \<and> length s = length data)"

lemma same_size_ok:
  assumes "faults d = []" "node_at d (key d p) \<noteq> Some Dir"
  shows "same_size p data d = (Inr (has_size d p data), d)"
proof (cases "lookup d p")
  case None
  then show ?thesis
    using assms by (simp add: same_size_def fs_exists_def has_size_def io_bind_def io_return_def)
next
  case (Some n)
  then obtain s where "lookup d p = Some (File s)"
    using assms(2) by (cases n) (auto simp: lookup_dir)
  then show ?thesis
    using assms(1)
    by (simp add: same_size_def fs_exists_def file_size_def has_size_def io_bind_def io_return_def)
qed

lemma not_prefix_butlast: "k \<noteq> [] \<Longrightarrow> length k \<le> length j \<Longrightarrow> \<not> prefix j (butlast k)"
  by (cases k rule: rev_cases) (auto dest!: prefix_length_le)

text \<open>The directory of the target is there after the call that makes it.\<close>

lemma make_parent:
  assumes "wf_disk d" "faults d = []" "creatable d p"
  shows "\<exists>e d1. with_ec (create_directories (parent_path p)) d = (Inr e, d1) \<and> faults d1 = [] \<and> wf_disk d1
    \<and> cwd d1 = cwd d \<and> node_at d1 (butlast (key d p)) = Some Dir
    \<and> (parent_path p \<noteq> [] \<longrightarrow> e = Inr ())
    \<and> (\<forall>j. \<not> prefix j (butlast (key d p)) \<longrightarrow> node_at d1 j = node_at d j)"
proof (cases "parent_path p = []")
  case True
  then show ?thesis
    using assms by (simp add: create_directories_def with_ec_def fs_error_def io_throw_def creatable_def)
next
  case False
  have k: "key d (parent_path p) = butlast (key d p)"
    using resolve_parent [OF _ False] assms(3) by (simp add: key_def creatable_def)
  obtain d1 where "create_directories (parent_path p) d = (Inr (), d1)" "faults d1 = []" "wf_disk d1"
      "changes {butlast (key d p)} d d1" "node_at d1 (butlast (key d p)) = Some Dir"
      "\<forall>j. \<not> prefix j (butlast (key d p)) \<longrightarrow> node_at d1 j = node_at d j"
    using create_directories_ok [OF assms(2) _ False assms(1)] assms(3) k by (auto simp: creatable_def)
  then show ?thesis
    by (simp add: with_ec_def changes_def)
qed

lemma write_and_rename_ok:
  assumes f: "faults d = []" and t: "writable d t" and p: "writable d p" and ne: "key d t \<noteq> key d p"
    and par: "butlast (key d t) = butlast (key d p)"
  shows "write_and_rename t p data d
    = (Inr True, put_node (key d p) (File data) (del_node (key d t) (put_node (key d t) (File data)
        (put_node (key d t) (File []) d))))"
proof -
  have nt: "\<not> dir_only t" "\<not> dir_only p" using t p by (auto simp: writable_def)
  then have nes: "t \<noteq> []" "p \<noteq> []" "key d t \<noteq> []" "key d p \<noteq> []"
    using key_not_Nil by (auto simp: dir_only_def filename_def)
  have sep: "key d t \<noteq> butlast (key d p)"
    using par nes(3) by (metis append_butlast_last_id append_self_conv list.distinct(1))
  let ?d2 = "put_node (key d t) (File data) (put_node (key d t) (File []) d)"
  have w: "writable ?d2 p" "lookup ?d2 t = Some (File data)"
    using sep p ne nes nt by (auto simp: writable_def node_at_put lookup_file)
  let ?d3 = "put_node (key d p) (File data) (del_node (key d t) ?d2)"
  have "lookup ?d3 p = Some (File data)"
    using nes nt by (simp add: lookup_file node_at_put)
  then have "verify_size p data ?d3 = (Inr True, ?d3)"
    using f by (simp add: verify_size_def fs_exists_def file_size_def io_bind_def io_return_def)
  with w t f nes show ?thesis
    by (simp add: write_and_rename_def ofs_open_def ofs_write_def ofs_close_def fs_rename_def
        io_bind_def io_return_def Let_def content_def node_at_put)
qed

text \<open>Without faults \<open>write_disk\<close> reports success at every path where a file can be created.\<close>

lemma write_disk_ok:
  assumes wf: "wf_disk d" and f: "faults d = []" and p: "creatable d p"
    and t: "node_at d (key d (temp_path p r)) \<noteq> Some Dir"
  shows "\<exists>d'. write_disk r p data d = (Inr True, d') \<and> faults d' = [] \<and>
    (if has_size d p data then d' = d
     else lookup d' p = Some (File data) \<and> node_at d' (key d (temp_path p r)) = None)"
proof -
  have nd: "\<not> dir_only p" and pd: "node_at d (key d p) \<noteq> Some Dir"
    using p by (auto simp: creatable_def)
  note same = same_size_ok [OF f pd, of data]
  note shape = temp_path_shape [OF nd]
  show ?thesis
  proof (cases "has_size d p data")
    case True
    with same f show ?thesis by (simp add: write_disk_def io_bind_def io_return_def)
  next
    case False
    obtain e d1 where d1: "with_ec (create_directories (parent_path p)) d = (Inr e, d1)" "faults d1 = []"
        "cwd d1 = cwd d" "node_at d1 (butlast (key d p)) = Some Dir"
        "\<forall>j. \<not> prefix j (butlast (key d p)) \<longrightarrow> node_at d1 j = node_at d j"
      using make_parent [OF wf f p] by blast
    have k: "key d1 q = key d q" for q using d1(3) by (simp add: key_def)
    have ne: "key d p \<noteq> []" using key_not_Nil [OF nd] .
    have "length (key d (temp_path p r)) = length (key d p)"
      using shape(2) [of d r] ne by simp
    then have "node_at d1 (key d p) \<noteq> Some Dir" "node_at d1 (key d (temp_path p r)) \<noteq> Some Dir"
      using d1(5) not_prefix_butlast [OF ne] pd t by auto
    then have w: "writable d1 (temp_path p r)" "writable d1 p"
      using d1(4) shape(1,2) nd k by (auto simp: writable_def)
    have run: "write_and_rename (temp_path p r) p data d1
        = (Inr True, put_node (key d p) (File data) (del_node (key d (temp_path p r))
            (put_node (key d (temp_path p r)) (File data) (put_node (key d (temp_path p r)) (File []) d1))))"
      using write_and_rename_ok [OF d1(2) w] shape(2,3) k by simp
    then show ?thesis
      using same False d1 shape nd ne k
      by (auto simp: write_disk_def io_bind_def io_catch_def io_return_def lookup_file node_at_put node_at_del)
  qed
qed

section \<open>A disk to try the theorems on\<close>

definition sample_disk :: "nat option list \<Rightarrow> disk" where
  "sample_disk fs = \<lparr>nodes = [([''srv''], Dir), ([''srv'', ''b''], File ''old'')], cwd = [''srv''], faults = fs\<rparr>"

definition sample_cfg :: StoreConfig where
  "sample_cfg = default_StoreConfig\<lparr>root_dir := ''store''\<rparr>"

lemma sample_simps [simp]:
  "key (sample_disk fs) p = resolve [''srv''] p" "faults (sample_disk fs) = fs" "wf_disk (sample_disk fs)"
  "node_at (sample_disk fs) k = (if k = [] \<or> k = [''srv''] then Some Dir
     else if k = [''srv'', ''b''] then Some (File ''old'') else None)"
  "root_dir sample_cfg = ''store''" "temp_dir sample_cfg = ''_tmp''"
  by (auto simp: key_def sample_disk_def wf_disk_def node_at_def sample_cfg_def default_StoreConfig_def)

lemma clear_way_prefixes:
  "clear_way d k \<longleftrightarrow> (\<forall>j \<in> set (prefixes k). case node_at d j of Some (File _) \<Rightarrow> False | _ \<Rightarrow> True)"
  by (auto simp: clear_way_def split: option.splits node.splits)

lemmas path_eval = resolve_def step_name_def is_absolute_def dir_only_def filename_def path_append_def
  parent_path_def dir_part_def creatable_def clear_way_prefixes has_size_def lookup_def
  contains_def temp_path_def

lemma sample_write:
  "\<exists>d'. write_disk r ''a.txt'' ''hi'' (sample_disk []) = (Inr True, d') \<and> lookup d' ''a.txt'' = Some (File ''hi'')"
proof -
  have "creatable (sample_disk []) ''a.txt''" "\<not> has_size (sample_disk []) ''a.txt'' ''hi''"
    by (simp_all add: path_eval)
  moreover have "node_at (sample_disk []) (key (sample_disk []) (temp_path ''a.txt'' r)) \<noteq> Some Dir"
    using temp_path_shape(2) [of "''a.txt''" "sample_disk []" r] by (simp add: path_eval)
  ultimately show ?thesis
    using write_disk_ok [of "sample_disk []" "''a.txt''" r "''hi''"] by auto
qed

theorem write_disk_truthful_witness:
  "\<exists>d'. write_disk 7 ''a.txt'' ''hi'' (sample_disk []) = (Inr True, d')
     \<and> lookup d' ''a.txt'' = Some (File ''hi'')"
proof -
  obtain d' where run: "write_disk 7 ''a.txt'' ''hi'' (sample_disk []) = (Inr True, d')"
    using sample_write by blast
  have "\<not> dir_only ''a.txt''" "lookup (sample_disk []) ''a.txt'' = None" by (simp_all add: path_eval)
  with write_disk_truthful [OF _ _ run] run show ?thesis by auto
qed

theorem write_disk_frame_witness:
  "\<exists>res d'. write_disk 7 ''a.txt'' ''hi'' (sample_disk [None, None, None, Some 1]) = (res, d')
     \<and> wf_disk d' \<and> node_at d' [''srv'', ''b''] = Some (File ''old'')"
proof -
  let ?d = "sample_disk [None, None, None, Some 1]"
  obtain res d' where run: "write_disk 7 ''a.txt'' ''hi'' ?d = (res, d')"
    by (cases "write_disk 7 ''a.txt'' ''hi'' ?d")
  have nd: "\<not> dir_only ''a.txt''" by (simp add: path_eval)
  have "wf_disk d' \<and> changes {key ?d ''a.txt'', key ?d (temp_path ''a.txt'' 7)} ?d d'"
    using write_disk_frame [OF _ nd run] by simp
  moreover have "[''srv'', ''b''] \<notin> {key ?d ''a.txt'', key ?d (temp_path ''a.txt'' 7)}"
    using temp_path_shape(2) [OF nd, of ?d 7] by (simp add: path_eval)
  ultimately show ?thesis
    using changes_node [of _ ?d d' "[''srv'', ''b'']" "File ''old''"] run by auto
qed

text \<open>\<open>write_disk\<close> takes a file of the right size for the data: when the target already has a file
  of the same length, it reports success and leaves the old content, whatever it is.\<close>

theorem write_disk_keeps_stale:
  assumes "faults d = []" "lookup d p = Some (File s)" "length s = length data"
  shows "write_disk r p data d = (Inr True, d)"
proof -
  have "node_at d (key d p) \<noteq> Some Dir" "has_size d p data"
    using assms(2,3) by (auto simp: lookup_file has_size_def)
  with same_size_ok [OF assms(1), of p data] show ?thesis
    by (simp add: write_disk_def io_bind_def io_return_def)
qed

theorem write_disk_keeps_stale_witness:
  "write_disk 7 ''b'' ''new'' (sample_disk []) = (Inr True, sample_disk [])
   \<and> lookup (sample_disk []) ''b'' = Some (File ''old'')"
  using write_disk_keeps_stale [of "sample_disk []" "''b''" "''old''" "''new''" 7] by (simp add: path_eval)

section \<open>Saving and reading\<close>

lemma read_disk_ok:
  assumes "faults d = []" "lookup d p = Some (File s)"
  shows "read_disk p d = (Inr (Some s), d)"
  using assms
  by (simp add: read_disk_def fs_exists_def is_regular_file_def file_size_def ifs_open_def with_ec_def
      io_bind_def io_return_def ec_bool_def)

lemma get_file_ok:
  assumes "faults d = []" "lookup d (path_append (root_dir cfg) p) = Some (File s)"
  shows "get_file cfg p d = (Inr (Some s), d)"
  using assms read_disk_ok [OF assms]
  by (simp add: get_file_def fs_exists_def is_regular_file_def io_bind_def Let_def)

text \<open>Making the directory first leaves the path as creatable as before.\<close>

lemma creatable_after:
  assumes "creatable d p" "wf_disk d1" "cwd d1 = cwd d" "node_at d1 (butlast (key d p)) = Some Dir"
    "\<forall>j. \<not> prefix j (butlast (key d p)) \<longrightarrow> node_at d1 j = node_at d j"
  shows "creatable d1 p" and "lookup d1 p = lookup d p"
    and "node_at d (key d (temp_path p r)) \<noteq> Some Dir \<Longrightarrow> node_at d1 (key d (temp_path p r)) \<noteq> Some Dir"
proof -
  have k: "key d1 q = key d q" for q using assms(3) by (simp add: key_def)
  have nd: "\<not> dir_only p" using assms(1) by (simp add: creatable_def)
  have ne: "key d p \<noteq> []" using key_not_Nil [OF nd] .
  have same: "node_at d1 j = node_at d j" if "length j = length (key d p)" for j
    using assms(5) not_prefix_butlast [OF ne, of j] that by simp
  have "clear_way d1 (butlast (key d p))"
    using wf_prefix_dir [OF assms(2,4)] by (auto simp: clear_way_def)
  then show "creatable d1 p"
    using assms(1,4) same [of "key d p"] by (simp add: creatable_def k)
  show "lookup d1 p = lookup d p"
    using same [of "key d p"] by (simp add: lookup_def k)
  show "node_at d1 (key d (temp_path p r)) \<noteq> Some Dir" if "node_at d (key d (temp_path p r)) \<noteq> Some Dir"
    using that same [of "key d (temp_path p r)"] temp_path_shape(2) [OF nd, of d r] ne by simp
qed

lemma save_file_at_run:
  assumes wf: "wf_disk d" and f: "faults d = []" and root: "root_dir cfg \<noteq> []"
    and rel: "\<not> is_absolute rel" "\<not> contains ''..'' rel"
    and p: "creatable d (path_append (root_dir cfg) rel)"
      "node_at d (key d (temp_path (path_append (root_dir cfg) rel) r)) \<noteq> Some Dir"
  shows "\<exists>d'. save_file_at cfg r data rel d = (Inr True, d') \<and> faults d' = []
    \<and> lookup d' (path_append (root_dir cfg) rel)
      = (if has_size d (path_append (root_dir cfg) rel) data then lookup d (path_append (root_dir cfg) rel)
         else Some (File data))"
proof -
  let ?p = "path_append (root_dir cfg) rel"
  have par: "parent_path ?p \<noteq> []"
    using parent_path_not_Nil path_append_slash [OF rel(1) root] by blast
  obtain e d1 where d1: "with_ec (create_directories (parent_path ?p)) d = (Inr e, d1)" "faults d1 = []"
      "wf_disk d1" "cwd d1 = cwd d" "node_at d1 (butlast (key d ?p)) = Some Dir" "e = Inr ()"
      "\<forall>j. \<not> prefix j (butlast (key d ?p)) \<longrightarrow> node_at d1 j = node_at d j"
    using make_parent [OF wf f p(1)] par by blast
  note after = creatable_after [OF p(1) d1(3,4,5,7)]
  have "node_at d1 (key d1 (temp_path ?p r)) \<noteq> Some Dir"
    using after(3) [OF p(2)] d1(4) by (simp add: key_def)
  moreover have "has_size d1 ?p data \<longleftrightarrow> has_size d ?p data"
    using after(2) by (simp add: has_size_def)
  ultimately obtain d' where d': "write_disk r ?p data d1 = (Inr True, d')" "faults d' = []"
      "lookup d' ?p = (if has_size d ?p data then lookup d ?p else Some (File data))"
    using write_disk_ok [OF d1(3,2) after(1), of r data] after(2) by (cases "has_size d ?p data") auto
  then show ?thesis
    using rel d1(1,6) by (simp add: save_file_at_def Let_def io_bind_def io_return_def)
qed

text \<open>Without faults, saving data at a relative path below the root reports success, and
  \<open>get_file\<close> with the same path then gives back exactly the data, unless a file of the same size
  was already there.\<close>

theorem save_file_at_roundtrip:
  assumes wf: "wf_disk d" and f: "faults d = []" and root: "root_dir cfg \<noteq> []"
    and rel: "\<not> is_absolute rel" "\<not> contains ''..'' rel"
    and p: "creatable d (path_append (root_dir cfg) rel)"
      "node_at d (key d (temp_path (path_append (root_dir cfg) rel) r)) \<noteq> Some Dir"
    and fresh: "\<not> has_size d (path_append (root_dir cfg) rel) data"
  shows "\<exists>d'. save_file_at cfg r data rel d = (Inr True, d') \<and> get_file cfg rel d' = (Inr (Some data), d')"
  using save_file_at_run [OF wf f root rel p, of data] get_file_ok fresh by auto

lemma sample_temp_not_dir:
  "\<not> dir_only p \<Longrightarrow> node_at (sample_disk fs) (key (sample_disk fs) (temp_path p r)) \<noteq> Some Dir"
  using temp_path_shape(2) [of p "sample_disk fs" r] by auto

theorem save_file_at_roundtrip_witness:
  "\<exists>d'. save_file_at sample_cfg 7 ''data'' ''_tmp/m/0'' (sample_disk []) = (Inr True, d')
     \<and> get_file sample_cfg ''_tmp/m/0'' d' = (Inr (Some ''data''), d')"
proof (rule save_file_at_roundtrip)
  show "node_at (sample_disk []) (key (sample_disk [])
      (temp_path (path_append (root_dir sample_cfg) ''_tmp/m/0'') 7)) \<noteq> Some Dir"
    by (rule sample_temp_not_dir) (simp add: path_eval)
qed (simp_all add: path_eval)

lemma triple_save_file_at:
  assumes "\<not> dir_only (path_append (root_dir cfg) rel)"
    and K: "key d0 (path_append (root_dir cfg) rel) \<in> K" "key d0 (temp_path (path_append (root_dir cfg) rel) r) \<in> K"
  shows "triple (state_ok d0 K T) (save_file_at cfg r data rel) (\<lambda>_. state_ok d0 K (\<lambda>_. True)) (thrown_ok d0 K)"
proof -
  let ?p = "path_append (root_dir cfg) rel"
  note mk = triple_make_parent [OF K(1) assms(1)]
  have rm: "triple (state_ok d0 K T') (with_ec (fs_remove ?p)) (\<lambda>_. state_ok d0 K (\<lambda>_. True)) (thrown_ok d0 K)" for T'
    by (rule triple_with_ec, rule triple_weaken [OF triple_fs_remove [OF K(1)]]) (auto simp: state_ok_def)
  have wr: "triple (state_ok d0 K (\<lambda>_. True))
      (io_bind (write_disk r ?p data) (\<lambda>ok. if \<not> ok then io_bind (with_ec (fs_remove ?p)) (\<lambda>_. io_return False)
         else io_return True)) (\<lambda>_. state_ok d0 K (\<lambda>_. True)) (thrown_ok d0 K)"
    by (rule triple_bind [OF triple_write_disk [OF K assms(1) temp_path_shape(1) [OF assms(1)]]], rule triple_if)
      (auto intro!: triple_bind [OF rm] triple_return simp: state_ok_def)
  show ?thesis
    unfolding save_file_at_def Let_def
    by (rule triple_if) (auto intro!: triple_return triple_bind [OF mk] wr simp: state_ok_def split: sum.split)
qed

lemma save_file_at_frame:
  assumes wf: "wf_disk d" and p: "\<not> dir_only (path_append (root_dir cfg) rel)"
    and run: "save_file_at cfg r data rel d = (res, d')"
  shows "wf_disk d'"
    and "changes {key d (path_append (root_dir cfg) rel), key d (temp_path (path_append (root_dir cfg) rel) r)} d d'"
proof -
  let ?p = "path_append (root_dir cfg) rel"
  let ?K = "{key d ?p, key d (temp_path ?p r)}"
  have "state_ok d ?K (\<lambda>_. True) d" using wf by (simp add: state_ok_def)
  moreover have "triple (state_ok d ?K (\<lambda>_. True)) (save_file_at cfg r data rel)
      (\<lambda>_. state_ok d ?K (\<lambda>_. True)) (thrown_ok d ?K)"
    by (rule triple_save_file_at [OF p]) simp_all
  ultimately have "state_ok d ?K (\<lambda>_. True) d'"
    using run by (cases res) (auto dest: triple_Inl triple_Inr)
  then show "wf_disk d'" "changes ?K d d'" by (simp_all add: state_ok_def)
qed

text \<open>C15: whatever the faults and however \<open>save_file\<close> ends, with a relative path it changes nothing
  outside the root directory, but that the directories above the root may have been made; a path
  with two dots is refused and the disk untouched.\<close>

theorem save_file_at_contained:
  assumes wf: "wf_disk d" and root: "root_dir cfg \<noteq> []" and rel: "\<not> is_absolute rel"
    and p: "\<not> dir_only (path_append (root_dir cfg) rel)"
    and run: "save_file_at cfg r data rel d = (res, d')"
  shows "wf_disk d' \<and> changes {k. prefix (key d (root_dir cfg)) k} d d'
    \<and> (contains ''..'' rel \<longrightarrow> res = Inr False \<and> d' = d)"
proof (cases "contains ''..'' rel")
  case True
  with run wf show ?thesis by (simp add: save_file_at_def io_return_def)
next
  case False
  let ?p = "path_append (root_dir cfg) rel" and ?K = "{k. prefix (key d (root_dir cfg)) k}"
  have below: "prefix (key d (root_dir cfg)) (butlast (key d ?p))"
    using resolve_below_dir [OF rel root False p] by (simp add: key_def)
  then have K: "key d ?p \<in> ?K" "key d (temp_path ?p r) \<in> ?K"
    using temp_path_shape(2) [OF p, of d r]
    by (auto simp: prefix_snoc intro: prefix_order.trans [OF _ prefixeq_butlast])
  show ?thesis
    using save_file_at_frame [OF wf p run] K False by (auto intro: changes_mono)
qed

theorem save_file_at_contained_witness:
  "\<exists>res d'. save_file_at sample_cfg 7 ''data'' ''_tmp/m/0'' (sample_disk [None, Some 0]) = (res, d')
     \<and> node_at d' [''srv'', ''b''] = Some (File ''old'')
     \<and> save_file_at sample_cfg 7 ''data'' ''../b'' (sample_disk []) = (Inr False, sample_disk [])"
proof -
  let ?d = "sample_disk [None, Some 0]"
  obtain res d' where run: "save_file_at sample_cfg 7 ''data'' ''_tmp/m/0'' ?d = (res, d')"
    by (cases "save_file_at sample_cfg 7 ''data'' ''_tmp/m/0'' ?d")
  obtain res2 d2 where run2: "save_file_at sample_cfg 7 ''data'' ''../b'' (sample_disk []) = (res2, d2)"
    by (cases "save_file_at sample_cfg 7 ''data'' ''../b'' (sample_disk [])")
  have "changes {k. prefix [''srv'', ''store''] k} ?d d'"
    using save_file_at_contained [OF _ _ _ _ run] by (simp add: path_eval)
  then have "node_at d' [''srv'', ''b''] = Some (File ''old'')"
    using changes_node [of _ ?d d' "[''srv'', ''b'']" "File ''old''"] by simp
  then show ?thesis
    using run run2 save_file_at_contained [OF _ _ _ _ run2] by (simp add: path_eval)
qed

section \<open>Saving by content\<close>

definition stored_rel :: "string \<Rightarrow> string \<Rightarrow> string" where
  "stored_rel m fname = (take 2 m @ ''/'' @ take 2 (drop 2 m) @ ''/'' @ m) @ extension fname"

definition stored_path :: "string \<Rightarrow> string \<Rightarrow> string \<Rightarrow> string" where
  "stored_path scn m fname = path_append scn (stored_rel m fname)"

lemma stored_rel_not_absolute: "hex_md5 m \<Longrightarrow> \<not> is_absolute (stored_rel m fname)"
  using hex_md5_no_slash [of m] by (cases m) (auto simp: stored_rel_def is_absolute_def hex_md5_def)

lemma stored_rel_eq: "hex_md5 m \<Longrightarrow> \<exists>base. md5_to_rel_path m = Inr base \<and> base @ extension fname = stored_rel m fname"
  using md5_to_rel_path_eq [of m] by (simp add: stored_rel_def)

lemma save_file_run:
  assumes wf: "wf_disk d" and f: "faults d = []" and m: "hex_md5 m"
    and abs: "path_append (path_append (root_dir cfg) scn) (stored_rel m fname) = p"
    and p: "creatable d p" "node_at d (key d (temp_path p r)) \<noteq> Some Dir" "CHR ''/'' \<in> set p"
  shows "\<exists>d'. save_file cfg MD5 r fname data scn m d = (Inr (Some (stored_path scn m fname)), d')
    \<and> faults d' = [] \<and> (if lookup d p = None then lookup d' p = Some (File data) else d' = d)"
proof -
  have m0: "m \<noteq> []" using m by (auto simp: hex_md5_def)
  obtain base where base: "md5_to_rel_path m = Inr base" "base @ extension fname = stored_rel m fname"
    using stored_rel_eq [OF m, of fname] by blast
  have unfold: "save_file cfg MD5 r fname data scn m
      = io_bind (fs_exists p) (\<lambda>ex.
          if ex then io_return (Some (stored_path scn m fname))
          else io_bind (with_ec (create_directories (parent_path p))) (\<lambda>ec.
            case ec of
              Inl _ \<Rightarrow> io_return None
            | Inr _ \<Rightarrow> io_bind (write_disk r p data) (\<lambda>ok.
                if \<not> ok then io_return None else io_return (Some (stored_path scn m fname)))))"
    unfolding save_file_def Let_def
    by (simp only: m0 if_False base sum.case abs [folded stored_path_def] stored_path_def [symmetric])
  show ?thesis
  proof (cases "lookup d p")
    case (Some n)
    with f show ?thesis by (simp add: unfold fs_exists_def io_bind_def io_return_def)
  next
    case None
    obtain e d1 where d1: "with_ec (create_directories (parent_path p)) d = (Inr e, d1)" "faults d1 = []"
        "wf_disk d1" "cwd d1 = cwd d" "node_at d1 (butlast (key d p)) = Some Dir" "e = Inr ()"
        "\<forall>j. \<not> prefix j (butlast (key d p)) \<longrightarrow> node_at d1 j = node_at d j"
      using make_parent [OF wf f p(1)] parent_path_not_Nil [OF p(3)] by blast
    note after = creatable_after [OF p(1) d1(3,4,5,7)]
    have "node_at d1 (key d1 (temp_path p r)) \<noteq> Some Dir"
      using after(3) [OF p(2)] d1(4) by (simp add: key_def)
    moreover have "\<not> has_size d1 p data"
      using after(2) None by (simp add: has_size_def)
    ultimately obtain d' where d': "write_disk r p data d1 = (Inr True, d')" "faults d' = []"
        "lookup d' p = Some (File data)"
      using write_disk_ok [OF d1(3,2) after(1), of r data] by auto
    have "fs_exists p d = (Inr False, d)"
      using f None by (simp add: fs_exists_def)
    then show ?thesis
      using d1(1,6) d' None by (simp add: unfold io_bind_def io_return_def)
  qed
qed

text \<open>C10: without faults, \<open>save_file\<close> under an MD5 and a relative scene answers the storage path, the
  scene, the two-level directory of the MD5 and the MD5 with the extension of the file name.  When
  nothing is stored there the data is written and \<open>get_file\<close> with the answer gives it back; when
  something is, the disk is untouched.\<close>

theorem save_file_stores:
  assumes wf: "wf_disk d" and f: "faults d = []" and root: "root_dir cfg \<noteq> []"
    and scn: "\<not> is_absolute scn" "scn \<noteq> []" and m: "hex_md5 m"
    and p: "creatable d (path_append (root_dir cfg) (stored_path scn m fname))"
      "node_at d (key d (temp_path (path_append (root_dir cfg) (stored_path scn m fname)) r)) \<noteq> Some Dir"
  shows "\<exists>d'. save_file cfg MD5 r fname data scn m d = (Inr (Some (stored_path scn m fname)), d')
    \<and> (if lookup d (path_append (root_dir cfg) (stored_path scn m fname)) = None
       then get_file cfg (stored_path scn m fname) d' = (Inr (Some data), d')
       else d' = d)"
proof -
  have "\<not> is_absolute (stored_path scn m fname)"
    using scn stored_rel_not_absolute [OF m] by (auto simp: stored_path_def path_append_def is_absolute_append)
  then have sl: "CHR ''/'' \<in> set (path_append (root_dir cfg) (stored_path scn m fname))"
    using path_append_slash root by blast
  have "path_append (path_append (root_dir cfg) scn) (stored_rel m fname)
      = path_append (root_dir cfg) (stored_path scn m fname)"
    unfolding stored_path_def by (rule path_append_assoc [OF scn(1) stored_rel_not_absolute [OF m] root scn(2)])
  from save_file_run [OF wf f m this p sl, of MD5 data] show ?thesis
    using get_file_ok by (auto split: if_splits)
qed

theorem save_file_stores_witness:
  "\<exists>d'. save_file sample_cfg toy_MD5 7 ''x.txt'' ''data'' ''default'' ''0123456789abcdef0123456789abcdef'' (sample_disk [])
       = (Inr (Some ''default/01/23/0123456789abcdef0123456789abcdef.txt''), d')
     \<and> get_file sample_cfg ''default/01/23/0123456789abcdef0123456789abcdef.txt'' d' = (Inr (Some ''data''), d')"
proof -
  let ?m = "''0123456789abcdef0123456789abcdef''"
  have stored: "stored_path ''default'' ?m ''x.txt'' = ''default/01/23/0123456789abcdef0123456789abcdef.txt''"
    by (simp add: stored_path_def stored_rel_def extension_def path_append_def filename_def is_absolute_def numeral_2_eq_2)
  have hex: "hex_md5 ?m"
    by (simp add: hex_md5_def isxdigit_def is_digit_def)
  have p: "path_append (root_dir sample_cfg) (stored_path ''default'' ?m ''x.txt'')
      = ''store/default/01/23/0123456789abcdef0123456789abcdef.txt''"
    unfolding stored by (simp add: path_append_def filename_def is_absolute_def)
  let ?p = "''store/default/01/23/0123456789abcdef0123456789abcdef.txt''"
  have ok: "creatable (sample_disk []) ?p" "\<not> dir_only ?p" "lookup (sample_disk []) ?p = None"
    by (simp_all add: path_eval)
  have "\<exists>d'. save_file sample_cfg toy_MD5 7 ''x.txt'' ''data'' ''default'' ?m (sample_disk [])
        = (Inr (Some (stored_path ''default'' ?m ''x.txt'')), d')
      \<and> (if lookup (sample_disk []) (path_append (root_dir sample_cfg) (stored_path ''default'' ?m ''x.txt'')) = None
         then get_file sample_cfg (stored_path ''default'' ?m ''x.txt'') d' = (Inr (Some ''data''), d')
         else d' = sample_disk [])"
    by (rule save_file_stores)
      (use hex ok sample_temp_not_dir [OF ok(2)] in \<open>simp_all only: p\<close>, simp_all add: is_absolute_def)
  then show ?thesis
    unfolding stored p [unfolded stored] by (simp only: ok if_True simp_thms)
qed

text \<open>The scene is not checked: an absolute scene takes \<open>save_file\<close> out of the root directory, and
  the file is stored under a directory the client chose.\<close>

theorem save_file_scene_escapes:
  "\<exists>d'. save_file sample_cfg toy_MD5 7 ''x.txt'' ''data'' ''/etc'' ''0123456789abcdef0123456789abcdef'' (sample_disk [])
       = (Inr (Some ''/etc/01/23/0123456789abcdef0123456789abcdef.txt''), d')
     \<and> lookup d' ''/etc/01/23/0123456789abcdef0123456789abcdef.txt'' = Some (File ''data'')"
proof -
  let ?m = "''0123456789abcdef0123456789abcdef''"
  let ?p = "''/etc/01/23/0123456789abcdef0123456789abcdef.txt''"
  have rel: "stored_rel ?m ''x.txt'' = ''01/23/0123456789abcdef0123456789abcdef.txt''"
    by (simp add: stored_rel_def extension_def filename_def numeral_2_eq_2)
  have stored: "stored_path ''/etc'' ?m ''x.txt'' = ?p"
    by (simp add: stored_path_def rel path_append_def filename_def is_absolute_def)
  have abs: "path_append (path_append (root_dir sample_cfg) ''/etc'') (stored_rel ?m ''x.txt'') = ?p"
    by (simp add: rel path_append_def filename_def is_absolute_def)
  have hex: "hex_md5 ?m" by (simp add: hex_md5_def isxdigit_def is_digit_def)
  have "creatable (sample_disk []) ?p" "\<not> dir_only ?p" "lookup (sample_disk []) ?p = None"
    by (simp_all add: path_eval)
  then show ?thesis
    using save_file_run [OF _ _ hex abs, of "sample_disk []" 7 toy_MD5 "''data''"]
      sample_temp_not_dir [of ?p "[]" 7] stored by auto
qed

section \<open>Chunk directories\<close>

lemma children_iff:
  assumes "wf_disk d"
  shows "(x, n) \<in> set (children d k) \<longleftrightarrow> node_at d (k @ [x]) = Some n"
proof -
  have "distinct (map fst (nodes d))" using assms by (simp add: wf_disk_def)
  then have "node_at d (k @ [x]) = Some n \<longleftrightarrow> (k @ [x], n) \<in> set (nodes d)"
    by (simp add: node_at_def map_of_eq_Some_iff)
  moreover have "(x, n) \<in> set (children d k) \<longleftrightarrow> (\<exists>j. (j, n) \<in> set (nodes d) \<and> j \<noteq> [] \<and> butlast j = k \<and> last j = x)"
    by (auto simp: children_def)
  moreover have "j \<noteq> [] \<and> butlast j = k \<and> last j = x \<longleftrightarrow> j = k @ [x]" for j
    by (metis append_butlast_last_id butlast_snoc last_snoc snoc_eq_iff_butlast)
  ultimately show ?thesis by simp
qed

lemma get_shard_index_run:
  assumes "wf_disk d" "faults d = []" "p \<noteq> []"
  shows "\<exists>xs. get_shard_index p d = (Inr xs, d)
    \<and> set xs = {i. lookup d p = Some Dir \<and> (\<exists>x s. node_at d (key d p @ [x]) = Some (File s) \<and> stoi x = Inr i)}"
proof (cases "lookup d p = Some Dir")
  case True
  let ?xs = "List.map_filter shard_index_of (children d (key d p))"
  have "get_shard_index p d = (Inr ?xs, d)"
    using True assms(2)
    by (simp add: get_shard_index_def fs_exists_def is_directory_def directory_iterator_def io_bind_def io_return_def)
  moreover have "set ?xs = {i. \<exists>x s. node_at d (key d p @ [x]) = Some (File s) \<and> stoi x = Inr i}"
    using children_iff [OF assms(1), of _ _ "key d p"]
    by (force simp: set_map_filter shard_index_of_def split: node.splits sum.splits)
  ultimately show ?thesis using True by simp
next
  case False
  then have "get_shard_index p d = (Inr [], d)"
    using assms(2) by (cases "lookup d p")
      (simp_all add: get_shard_index_def fs_exists_def is_directory_def io_bind_def io_return_def)
  with False show ?thesis by simp
qed

text \<open>\<open>get_shard_index\<close> lists, without changing the disk, exactly the numbers that \<open>std::stoi\<close>
  reads at the start of the names of the regular files in the directory; a missing directory has
  none.\<close>

theorem get_shard_index_lists:
  assumes "wf_disk d" "faults d = []" "p \<noteq> []"
  shows "\<exists>xs. get_shard_index p d = (Inr xs, d)
    \<and> set xs = {i. lookup d p = Some Dir \<and> (\<exists>x s. node_at d (key d p @ [x]) = Some (File s) \<and> stoi x = Inr i)}"
  by (rule get_shard_index_run [OF assms])

theorem get_shard_index_lists_witness:
  "\<exists>xs. get_shard_index ''.'' (sample_disk []) = (Inr xs, sample_disk []) \<and> set xs = {}"
  using get_shard_index_lists [of "sample_disk []" "''.''"]
  by (auto simp: path_eval stoi_def strtol_def strtol_digits_def is_digit_def isspace_def split: if_splits)

text \<open>When the rename fails, \<open>write_disk\<close> reports failure but leaves its temporary file, and the
  scan of the chunk directory takes that file for the chunk: it reads the number before the dot.\<close>

theorem failed_chunk_counted:
  "\<exists>d'. write_disk 7 ''0'' ''hi'' (sample_disk [None, None, None, None, Some 0]) = (Inr False, d')
     \<and> get_shard_index ''.'' d' = (Inr [0], d')"
proof -
  let ?t = "[''srv'', ''0.tmp.100007'']"
  have suffix: "generate_temp_suffix 7 = ''100007''"
    by (simp add: generate_temp_suffix_def to_string_nat.simps digit_char_def char_of_def bit_0)
  define d2 where "d2 = (sample_disk [Some 0])\<lparr>nodes := nodes (sample_disk []) @ [(?t, File ''hi'')]\<rparr>"
  have "write_disk 7 ''0'' ''hi'' (sample_disk [None, None, None, None, Some 0]) = (Inr False, d2\<lparr>faults := []\<rparr>)"
    by (simp add: write_disk_def same_size_def write_and_rename_def fs_exists_def create_directories_def
        ofs_open_def ofs_write_def ofs_close_def fs_rename_def fs_remove_def fs_error_def guarded_def sys_def
        with_ec_def io_bind_def io_return_def io_throw_def io_catch_def path_eval key_def node_at_def
        put_node_def content_def writable_def suffix sample_disk_def d2_def)
  moreover have "get_shard_index ''.'' (d2\<lparr>faults := []\<rparr>) = (Inr [0], d2\<lparr>faults := []\<rparr>)"
    by (simp add: get_shard_index_def fs_exists_def is_directory_def directory_iterator_def guarded_def sys_def
        io_bind_def io_return_def path_eval key_def node_at_def d2_def sample_disk_def children_def
        shard_index_of_def map_filter_simps stoi_def strtol_def strtol_digits_def is_digit_def isspace_def)
  ultimately show ?thesis by blast
qed

end
