(* ===== verification/Multipart.thy ===== *)
theory Multipart
  imports Prelude
begin

text \<open>
  \<open>server/MultipartParser\<close>: the form of a \<open>multipart/form-data\<close> body.  The scanning loop works on
  positions in the body, as the code does; the length of a part is computed in \<open>size_t\<close>, modulo
  \<open>2\<^sup>6\<^sup>4\<close>.  The reference \<open>render_form\<close> writes a body the way browsers do, and parsing undoes it.
\<close>

section \<open>The form\<close>

record MultipartForm =
  form_filename :: string
  form_content :: string
  form_content_type :: string
  params :: "string \<rightharpoonup> string"

definition empty_form :: MultipartForm where
  "empty_form = \<lparr>form_filename = [], form_content = [], form_content_type = [], params = Map.empty\<rparr>"

definition get_param :: "MultipartForm \<Rightarrow> string \<Rightarrow> string \<Rightarrow> string" where
  "get_param form k default_val = (case params form k of Some v \<Rightarrow> v | None \<Rightarrow> default_val)"

definition has_file :: "MultipartForm \<Rightarrow> bool" where
  "has_file form \<longleftrightarrow> form_content form \<noteq> []"

section \<open>Parsing\<close>

abbreviation CR :: char where "CR \<equiv> CHR 0x0D"
abbreviation LF :: char where "LF \<equiv> CHR 0x0A"
abbreviation QUOTE :: char where "QUOTE \<equiv> CHR 0x22"

definition crlf2 :: string where
  "crlf2 = [CR, LF, CR, LF]"

text \<open>The value after \<open>key=\<close> in a header, quoted or up to a delimiter.\<close>

definition extract_value :: "string \<Rightarrow> string \<Rightarrow> string" where
  "extract_value header k =
     (case find_sub k header of
        None \<Rightarrow> []
      | Some pos \<Rightarrow>
          let start = pos + length k
          in if length header \<le> start \<or> header ! start \<noteq> CHR ''='' then []
             else
               let start1 = start + 1
               in if start1 < length header \<and> header ! start1 = QUOTE
                  then (case find_from [QUOTE] header (start1 + 1) of
                          None \<Rightarrow> []
                        | Some e \<Rightarrow> substr header (start1 + 1) (e - (start1 + 1)))
                  else takeWhile (\<lambda>c. c \<notin> set ''; '' \<union> {CR, LF}) (drop start1 header))"

text \<open>Subtraction in \<open>size_t\<close>.\<close>

definition size_sub :: "nat \<Rightarrow> nat \<Rightarrow> nat" where
  "size_sub a b = nat ((int a - int b) mod 2 ^ 64)"

definition add_part :: "string \<Rightarrow> string \<Rightarrow> string \<Rightarrow> MultipartForm \<Rightarrow> MultipartForm" where
  "add_part name fname data form =
     (if fname \<noteq> [] then form\<lparr>form_filename := fname, form_content := data\<rparr>
      else if name \<noteq> [] then form\<lparr>params := (params form)(name \<mapsto> data)\<rparr>
      else form)"

text \<open>The end of the data: the line end before the next delimiter is not part of it.\<close>

definition data_end :: "string \<Rightarrow> nat \<Rightarrow> nat" where
  "data_end body next_boundary =
     (if 2 \<le> next_boundary \<and> body ! (next_boundary - 2) = CR \<and> body ! (next_boundary - 1) = LF
      then next_boundary - 2 else next_boundary)"

lemma find_from_bounds: "find_from p s pos = Some i \<Longrightarrow> pos \<le> i \<and> i + length p \<le> length s"
  by (auto simp: find_from_def split: if_splits dest!: find_sub_Some_le)

function parse_loop :: "string \<Rightarrow> string \<Rightarrow> nat \<Rightarrow> MultipartForm \<Rightarrow> MultipartForm" where
  "parse_loop body boundary pos form =
     (let delimiter = ''--'' @ boundary;
          end_delimiter = delimiter @ ''--''
      in case find_from delimiter body pos of
           None \<Rightarrow> form
         | Some part_start \<Rightarrow>
             if part_start + length end_delimiter \<le> length body
                \<and> substr body part_start (length end_delimiter) = end_delimiter
             then form
             else
               let header_start = part_start + length delimiter
               in if length body < header_start + 2 then form
                  else if body ! header_start = CR \<and> body ! (header_start + 1) = LF
                  then (case find_from crlf2 body (header_start + 2) of
                          None \<Rightarrow> form
                        | Some header_end \<Rightarrow>
                            let header_part =
                                  substr body (header_start + 2) (header_end - (header_start + 2));
                                data_start = header_end + 4
                            in case find_from delimiter body data_start of
                                 None \<Rightarrow> form
                               | Some next_boundary \<Rightarrow>
                                   parse_loop body boundary next_boundary
                                     (add_part (extract_value header_part ''name'')
                                        (extract_value header_part ''filename'')
                                        (substr body data_start
                                           (size_sub (data_end body next_boundary) data_start)) form))
                  else parse_loop body boundary header_start form)"
  by pat_completeness auto
termination
  by (relation "measure (\<lambda>(body, boundary, pos, form). length body - pos)")
    (auto dest!: find_from_bounds)

declare parse_loop.simps [simp del]

definition strip_quotes :: "string \<Rightarrow> string" where
  "strip_quotes b = (if 2 \<le> length b \<and> hd b = QUOTE \<and> last b = QUOTE then substr b 1 (length b - 2) else b)"

definition parse_form :: "string \<Rightarrow> string \<Rightarrow> MultipartForm option" where
  "parse_form content_type body =
     (case find_sub ''boundary='' content_type of
        None \<Rightarrow> None
      | Some pos \<Rightarrow>
          Some (parse_loop body (strip_quotes (drop (pos + length ''boundary='') content_type)) 0 empty_form))"

section \<open>Rendering a form\<close>

datatype part = Field string string | Upload string string string

definition disposition :: string where
  "disposition = ''Content-Disposition: form-data; name=''"

definition field_header :: "string \<Rightarrow> string" where
  "field_header n = disposition @ [QUOTE] @ n @ [QUOTE]"

fun part_header :: "part \<Rightarrow> string" where
  "part_header (Field n v) = field_header n"
| "part_header (Upload n f v) = field_header n @ ''; filename='' @ [QUOTE] @ f @ [QUOTE]"

fun part_data :: "part \<Rightarrow> string" where
  "part_data (Field n v) = v"
| "part_data (Upload n f v) = v"

definition render_part :: "string \<Rightarrow> part \<Rightarrow> string" where
  "render_part boundary p = ''--'' @ boundary @ [CR, LF] @ part_header p @ crlf2 @ part_data p @ [CR, LF]"

definition render_form :: "string \<Rightarrow> part list \<Rightarrow> string" where
  "render_form boundary ps = concat (map (render_part boundary) ps) @ ''--'' @ boundary @ ''--''"

fun form_of_part :: "part \<Rightarrow> MultipartForm \<Rightarrow> MultipartForm" where
  "form_of_part (Field n v) form = form\<lparr>params := (params form)(n \<mapsto> v)\<rparr>"
| "form_of_part (Upload n f v) form = form\<lparr>form_filename := f, form_content := v\<rparr>"

text \<open>
  What a well-behaved sender keeps to: names without quotes or line ends, and a boundary without a
  carriage return that does not occur in the data.
\<close>

fun good_part :: "string \<Rightarrow> part \<Rightarrow> bool" where
  "good_part boundary (Field n v) \<longleftrightarrow> n \<noteq> [] \<and> QUOTE \<notin> set n \<and> CR \<notin> set n
     \<and> \<not> contains ''filename='' n \<and> \<not> contains (''--'' @ boundary) v"
| "good_part boundary (Upload n f v) \<longleftrightarrow> QUOTE \<notin> set n \<and> CR \<notin> set n \<and> \<not> contains ''filename'' n
     \<and> f \<noteq> [] \<and> QUOTE \<notin> set f \<and> CR \<notin> set f \<and> \<not> contains (''--'' @ boundary) v"

section \<open>Lemmas\<close>

text \<open>A pattern cannot run over a character it does not have.\<close>

lemma find_sub_skip:
  assumes "c \<notin> set p" "p \<noteq> []" "\<not> contains p xs"
  shows "find_sub p (xs @ c # ys) = map_option (\<lambda>i. Suc (length xs) + i) (find_sub p ys)"
  using assms(3)
proof (induction xs)
  case Nil
  have "\<not> prefix p (c # ys)" using assms(1,2) by (cases p) auto
  then show ?case by (simp add: option.map_comp comp_def)
next
  case (Cons x xs)
  have "\<not> contains p xs"
    using Cons.prems by (auto simp: contains_def split: if_splits)
  moreover have "\<not> prefix p (x # xs @ c # ys)"
  proof
    assume p: "prefix p (x # xs @ c # ys)"
    show False
    proof (cases "length p \<le> Suc (length xs)")
      case True
      then have "prefix p (x # xs)"
        using p by (metis append_Cons length_Cons prefix_length_prefix prefixI)
      then show False
        using Cons.prems by (auto simp: contains_def split: if_splits)
    next
      case False
      have "prefix (x # xs @ [c]) (x # xs @ c # ys)" by simp
      then have "prefix (x # xs @ [c]) p"
        using p by (rule prefix_length_prefix) (use False in simp)
      then show False using assms(1) by (auto simp: prefix_def)
    qed
  qed
  ultimately show ?case
    using Cons.IH by (simp add: option.map_comp comp_def)
qed

lemma find_sub_append: "find_sub p xs = Some i \<Longrightarrow> find_sub p (xs @ ys) = Some i"
proof (induction xs arbitrary: i)
  case Nil
  then show ?case by (cases ys) (auto split: if_splits)
next
  case (Cons x xs)
  show ?case
  proof (cases "prefix p (x # xs)")
    case True
    then have "prefix p (x # xs @ ys)" by (metis append_Cons prefix_prefix)
    with Cons True show ?thesis by simp
  next
    case False
    then obtain j where j: "find_sub p xs = Some j" "i = Suc j" using Cons.prems by auto
    then have "length p \<le> length (x # xs)" using find_sub_Some_le by fastforce
    then have "\<not> prefix p (x # xs @ ys)"
      using False by (metis append_Cons prefix_length_prefix prefixI)
    with j Cons.IH show ?thesis by simp
  qed
qed

lemma find_sub_absent: "\<not> contains p xs \<Longrightarrow> find_sub p xs = None"
  by (simp add: contains_def)

lemma find_sub_here: "find_sub p (p @ ys) = Some 0"
  by (rule find_sub_SomeI) auto

lemma find_from_append: "find_from p (xs @ ys) (length xs) = map_option (\<lambda>i. length xs + i) (find_sub p ys)"
  by (simp add: find_from_def)

lemma size_sub_ge: "b \<le> a \<Longrightarrow> a - b < 2 ^ 64 \<Longrightarrow> size_sub a b = a - b"
proof -
  assume "b \<le> a" "a - b < 2 ^ 64"
  then have "int a - int b = int (a - b)" "int (a - b) mod 2 ^ 64 = int (a - b)"
    by simp_all
  then show ?thesis by (simp only: size_sub_def nat_int)
qed

lemma extract_quoted:
  assumes "find_sub k (pre @ k @ ''='' @ [QUOTE] @ v @ [QUOTE] @ rest) = Some (length pre)" "QUOTE \<notin> set v"
  shows "extract_value (pre @ k @ ''='' @ [QUOTE] @ v @ [QUOTE] @ rest) k = v"
proof -
  let ?h = "pre @ k @ ''='' @ [QUOTE] @ v @ [QUOTE] @ rest" and ?s = "length pre + length k"
  have "find_from [QUOTE] ((pre @ k @ ''='' @ [QUOTE]) @ v @ [QUOTE] @ rest) (length (pre @ k @ ''='' @ [QUOTE]))
      = Some (?s + 2 + length v)"
    unfolding find_from_append using assms(2) find_char_eq [of QUOTE "v @ [QUOTE] @ rest"]
    by (simp add: takeWhile_until)
  then have "find_from [QUOTE] ?h (?s + 2) = Some (?s + 2 + length v)" by simp
  moreover have "?h ! ?s = CHR ''=''" "?h ! (?s + 1) = QUOTE"
    by (simp_all add: nth_append)
  ultimately show ?thesis
    using assms(1) by (simp add: extract_value_def Let_def substr_def)
qed

lemma disposition_facts:
  "find_sub ''name'' (disposition @ rest) = Some 32" "\<not> contains ''filename'' disposition"
  "length disposition = 37" "CR \<notin> set disposition"
  by (simp_all add: disposition_def contains_def)

lemma extract_name: "QUOTE \<notin> set n \<Longrightarrow> extract_value (field_header n @ rest) ''name'' = n"
  using extract_quoted [of "''name''" "''Content-Disposition: form-data; ''" n rest]
    disposition_facts(1) [of "[QUOTE] @ n @ [QUOTE] @ rest"]
  by (simp add: field_header_def disposition_def)

lemma find_filename:
  "find_sub ''filename'' (field_header n @ rest)
    = map_option (\<lambda>i. 38 + i) (find_sub ''filename'' (n @ QUOTE # rest))"
proof -
  have "field_header n @ rest = disposition @ QUOTE # (n @ QUOTE # rest)"
    by (simp add: field_header_def)
  moreover have "find_sub ''filename'' (disposition @ QUOTE # (n @ QUOTE # rest))
      = map_option (\<lambda>i. Suc (length disposition) + i) (find_sub ''filename'' (n @ QUOTE # rest))"
    by (rule find_sub_skip) (simp_all add: disposition_facts)
  ultimately show ?thesis
    unfolding disposition_facts(3) by simp
qed

lemma extract_no_filename:
  assumes "\<not> contains ''filename='' n"
  shows "extract_value (field_header n) ''filename'' = []"
proof (cases "find_sub ''filename'' n")
  case None
  then have "find_sub ''filename'' (n @ QUOTE # []) = None"
    using find_sub_skip [of QUOTE "''filename''" n "[]"] by (simp add: contains_def)
  then show ?thesis
    using find_filename [of n "[]"] by (simp add: extract_value_def)
next
  case (Some i)
  have len: "i + 8 \<le> length n" using find_sub_Some_le [OF Some] by simp
  obtain t where t: "drop i n = ''filename'' @ t"
    using find_sub_Some_prefix [OF Some] by (auto simp: prefix_def)
  have "find_sub ''filename'' (n @ [QUOTE]) = Some i"
    using find_sub_append [OF Some] .
  then have f: "find_sub ''filename'' (field_header n) = Some (38 + i)"
    using find_filename [of n "[]"] by simp
  have "field_header n ! (38 + i + 8) = (n @ [QUOTE]) ! (i + 8)"
    using disposition_facts(3) by (simp add: field_header_def nth_append add.commute)
  moreover have "(n @ [QUOTE]) ! (i + 8) \<noteq> CHR ''=''"
  proof
    assume eq: "(n @ [QUOTE]) ! (i + 8) = CHR ''=''"
    then have lt: "i + 8 < length n" using len by (auto simp: nth_append split: if_splits)
    then obtain c t' where "t = c # t'" using t by (cases t) (auto dest: arg_cong [where f = length])
    moreover have "c = CHR ''=''"
      using eq lt t \<open>t = c # t'\<close> nth_drop [of i n 8] by (simp add: nth_append)
    ultimately have "n = take i n @ ''filename='' @ t'"
      using t append_take_drop_id [of i n] by simp
    then show False using assms unfolding contains_iff sublist_def by blast
  qed
  ultimately show ?thesis
    using f by (simp add: extract_value_def)
qed

lemma extract_filename:
  assumes "\<not> contains ''filename'' n" "QUOTE \<notin> set f"
  shows "extract_value (field_header n @ ''; filename='' @ [QUOTE] @ f @ [QUOTE]) ''filename'' = f"
proof -
  let ?pre = "field_header n @ ''; ''" and ?t = "''filename='' @ [QUOTE] @ f @ [QUOTE]"
  have "find_sub ''filename'' (n @ QUOTE # ''; '' @ ?t)
      = map_option (\<lambda>i. Suc (length n) + i) (find_sub ''filename'' (''; '' @ ?t))"
    using assms(1) by (intro find_sub_skip) simp_all
  then have "find_sub ''filename'' (?pre @ ?t) = Some (length ?pre)"
    using find_filename [of n "''; '' @ ?t"] disposition_facts(3) by (simp add: field_header_def)
  from extract_quoted [of "''filename''" ?pre f "[]"] this assms(2) show ?thesis by simp
qed

lemma part_values:
  assumes "good_part b p"
  shows "add_part (extract_value (part_header p) ''name'') (extract_value (part_header p) ''filename'')
    (part_data p) form = form_of_part p form"
proof (cases p)
  case (Field n v)
  with assms extract_name [of n "[]"] extract_no_filename [of n] show ?thesis
    by (simp add: add_part_def)
next
  case (Upload n f v)
  then have "extract_value (part_header p) ''filename'' = f"
    using assms extract_filename [of n f] by (simp del: append_Cons)
  with assms Upload show ?thesis by (simp add: add_part_def)
qed

lemma part_header_no_CR: "good_part b p \<Longrightarrow> CR \<notin> set (part_header p)"
  using disposition_facts(4) by (cases p) (auto simp: field_header_def)

lemma part_data_free: "good_part b p \<Longrightarrow> \<not> contains (''--'' @ b) (part_data p)"
  by (cases p) auto

lemma find_sub_first_char: "c \<notin> set xs \<Longrightarrow> find_sub (c # p) (xs @ c # p @ ys) = Some (length xs)"
  by (induction xs) auto

lemma render_form_delimiter: "\<exists>r. render_form b ps = (''--'' @ b) @ r"
  by (cases ps) (simp_all add: render_form_def render_part_def)

text \<open>One turn of the loop on a rendered part.\<close>

lemma parse_loop_part:
  assumes good: "good_part b p" and b: "CR \<notin> set b" and R: "R = (''--'' @ b) @ r"
    and len: "length (pre @ render_part b p @ R) < 2 ^ 64"
  shows "parse_loop (pre @ render_part b p @ R) b (length pre) form
    = parse_loop (pre @ render_part b p @ R) b (length (pre @ render_part b p)) (form_of_part p form)"
proof -
  define delim where "delim = ''--'' @ b"
  define h where "h = part_header p"
  define d where "d = part_data p"
  define body where "body = pre @ render_part b p @ R"
  have body: "body = pre @ delim @ [CR, LF] @ h @ crlf2 @ d @ [CR, LF] @ R"
    by (simp add: body_def render_part_def delim_def h_def d_def)
  let ?hs = "length pre + length delim"
  have "find_from delim (pre @ (delim @ [CR, LF] @ h @ crlf2 @ d @ [CR, LF] @ R)) (length pre) = Some (length pre)"
    unfolding find_from_append by (simp add: find_sub_here)
  then have s1: "find_from delim body (length pre) = Some (length pre)" by (simp add: body)
  have s2: "substr body (length pre) (length (delim @ ''--'')) \<noteq> delim @ ''--''"
    by (simp add: body substr_def)
  have s3: "?hs + 2 \<le> length body" "body ! ?hs = CR" "body ! (?hs + 1) = LF"
    by (simp_all add: body nth_append)
  have "find_sub crlf2 (h @ crlf2 @ d @ [CR, LF] @ R) = Some (length h)"
    using find_sub_first_char [OF part_header_no_CR [OF good], of "[LF, CR, LF]"] by (simp add: crlf2_def h_def)
  then have s4: "find_from crlf2 body (?hs + 2) = Some (?hs + 2 + length h)"
    using find_from_append [of crlf2 "pre @ delim @ [CR, LF]" "h @ crlf2 @ d @ [CR, LF] @ R"] by (simp add: body)
  have s5: "substr body (?hs + 2) (?hs + 2 + length h - (?hs + 2)) = h"
    by (simp add: body substr_def)
  let ?ds = "?hs + 2 + length h + 4"
  have CRd: "CR \<notin> set delim" "delim \<noteq> []" using b by (auto simp: delim_def)
  have "find_sub delim (LF # R) = Some 1"
    using find_sub_here [of delim r] R by (auto simp: delim_def)
  then have "find_sub delim (d @ CR # LF # R) = Some (length d + 2)"
    using find_sub_skip [OF CRd, of d "LF # R"] part_data_free [OF good] by (simp add: d_def delim_def)
  then have "find_from delim ((pre @ delim @ [CR, LF] @ h @ crlf2) @ d @ CR # LF # R)
      (length (pre @ delim @ [CR, LF] @ h @ crlf2))
      = Some (length (pre @ delim @ [CR, LF] @ h @ crlf2) + (length d + 2))"
    unfolding find_from_append by simp
  moreover have dsX: "?ds = length (pre @ delim @ [CR, LF] @ h @ crlf2)"
    by (simp add: crlf2_def)
  moreover have bodyX: "body = (pre @ delim @ [CR, LF] @ h @ crlf2) @ d @ CR # LF # R"
    by (simp add: body)
  ultimately have s6: "find_from delim body ?ds = Some (?ds + length d + 2)"
    by (simp only: add.assoc)
  let ?nb = "?ds + length d + 2"
  have "body ! (?ds + length d) = CR" "body ! (?ds + length d + 1) = LF"
    by (simp_all add: body nth_append crlf2_def)
  then have s7: "data_end body ?nb = ?ds + length d"
    by (simp add: data_end_def add.assoc)
  have "length d < 2 ^ 64" using len by (simp add: body_def [symmetric]) (simp add: body)
  then have s8: "size_sub (?ds + length d) ?ds = length d"
    using size_sub_ge [of ?ds "?ds + length d"] by simp
  have s9: "substr body ?ds (length d) = d"
    unfolding dsX bodyX substr_def drop_append by simp
  have s10: "?nb = length (pre @ render_part b p)"
    by (simp add: render_part_def delim_def h_def d_def crlf2_def)
  have vals: "add_part (extract_value h ''name'') (extract_value h ''filename'') d form = form_of_part p form"
    using part_values [OF good] by (simp add: h_def d_def)
  have "parse_loop body b (length pre) form = parse_loop body b ?nb (form_of_part p form)"
    by (subst parse_loop.simps)
      (use s1 s2 s3 s4 s5 s6 s7 s8 s9 vals in \<open>simp add: delim_def [symmetric] Let_def del: append_Cons\<close>)
  then show ?thesis
    unfolding s10 body_def [symmetric] .
qed

lemma parse_loop_render:
  assumes "\<forall>p \<in> set ps. good_part b p" "CR \<notin> set b" "length (pre @ render_form b ps) < 2 ^ 64"
  shows "parse_loop (pre @ render_form b ps) b (length pre) form = fold form_of_part ps form"
  using assms
proof (induction ps arbitrary: pre form)
  case Nil
  let ?delim = "''--'' @ b"
  have f: "find_from ?delim (pre @ (?delim @ ''--'')) (length pre) = Some (length pre)"
    unfolding find_from_append by (simp only: find_sub_here option.map) simp
  show ?case
    by (subst parse_loop.simps)
      (use f in \<open>simp add: render_form_def Let_def substr_def\<close>)
next
  case (Cons p ps)
  have eq: "pre @ render_form b (p # ps) = pre @ render_part b p @ render_form b ps"
    by (simp add: render_form_def)
  obtain r where r: "render_form b ps = (''--'' @ b) @ r"
    using render_form_delimiter by blast
  have "parse_loop ((pre @ render_part b p) @ render_form b ps) b (length (pre @ render_part b p)) (form_of_part p form)
      = fold form_of_part ps (form_of_part p form)"
    using Cons.prems eq by (intro Cons.IH) auto
  with parse_loop_part [OF _ Cons.prems(2) r] Cons.prems show ?case
    unfolding eq by simp
qed

lemma parse_form_render:
  assumes "\<forall>p \<in> set ps. good_part b p" "CR \<notin> set b" "QUOTE \<notin> set b" "length (render_form b ps) < 2 ^ 64"
    and "q = b \<or> q = [QUOTE] @ b @ [QUOTE]"
  shows "parse_form (''multipart/form-data; boundary='' @ q) (render_form b ps)
    = Some (fold form_of_part ps empty_form)"
proof -
  have "strip_quotes q = b"
    using assms(3,5) by (cases b rule: rev_cases) (auto simp: strip_quotes_def substr_def)
  moreover have "find_sub ''boundary='' (''multipart/form-data; boundary='' @ q) = Some 21"
    by simp
  ultimately show ?thesis
    using parse_loop_render [of ps b "[]" empty_form] assms(1,2,4) by (simp add: parse_form_def)
qed

text \<open>C9: parsing a rendered form gives back its fields, a later one overriding an earlier one of the
  same name, and the last uploaded file, byte for byte; the boundary may be quoted in the content
  type.\<close>

theorem parse_render_form:
  assumes "\<forall>p \<in> set ps. good_part b p" "CR \<notin> set b" "QUOTE \<notin> set b" "length (render_form b ps) < 2 ^ 64"
    and "q = b \<or> q = [QUOTE] @ b @ [QUOTE]"
  shows "parse_form (''multipart/form-data; boundary='' @ q) (render_form b ps)
    = Some (fold form_of_part ps empty_form)"
  by (rule parse_form_render [OF assms])

definition sample_parts :: "part list" where
  "sample_parts = [Field ''scene'' ''avatar'', Upload ''file'' ''a.txt'' ''hello'', Field ''scene'' ''doc'']"

theorem parse_render_form_witness:
  "\<exists>form. parse_form ''multipart/form-data; boundary=XyZ'' (render_form ''XyZ'' sample_parts) = Some form
     \<and> form_filename form = ''a.txt'' \<and> form_content form = ''hello'' \<and> get_param form ''scene'' [] = ''doc''"
proof -
  have "\<forall>p \<in> set sample_parts. good_part ''XyZ'' p"
    by (simp add: sample_parts_def contains_def)
  moreover have "length (render_form ''XyZ'' sample_parts) < 2 ^ 64"
    by (simp add: sample_parts_def render_form_def render_part_def field_header_def disposition_def crlf2_def)
  ultimately show ?thesis
    using parse_render_form [of sample_parts "''XyZ''" "''XyZ''"]
    by (simp add: sample_parts_def empty_form_def get_param_def)
qed

text \<open>A part whose delimiter follows its header at once (no line end, so no data) makes the length
  \<open>data_end - data_start\<close> wrap around, and the parser takes the rest of the body, the closing
  delimiter included, for the value.\<close>

theorem parse_form_empty_part_wraps:
  "map_option (\<lambda>form. params form ''a'')
     (parse_form ''multipart/form-data; boundary=X''
       (''--X'' @ [CR, LF] @ field_header ''a'' @ crlf2 @ ''--X--''))
   = Some (Some ''--X--'')"
  by (simp add: parse_form_def strip_quotes_def parse_loop.simps Let_def find_from_def substr_def
      crlf2_def field_header_def disposition_def extract_value_def add_part_def data_end_def size_sub_def
      empty_form_def)

end
