(* ===== verification/HttpContext.thy ===== *)
theory HttpContext
  imports Multipart Utils Json "HOL-Library.AList"
begin

text \<open>
  \<open>server/HttpContext.h\<close>: what a handler receives and the responses it sends.  A request has the
  parts the code reads; a response is its status line, header fields and body.  The JSON printer is
  a parameter: a response whose text cannot be dumped is an exception.  \<open>get_form\<close> fills the cache
  of the context.  \<open>parse_multipart\<close> is the older parser for one file.
\<close>

section \<open>Requests, responses and the context\<close>

record StringRequest =
  req_method :: verb
  req_target :: string
  req_version :: nat
  req_keep_alive :: bool
  req_content_type :: string
  req_body :: string

record Response =
  res_status :: nat
  res_version :: nat
  res_keep_alive :: bool
  res_fields :: "(string \<times> string) list"
  res_body :: string

record HttpContext =
  req :: StringRequest
  ctx_method :: string
  ctx_path :: string
  query :: "string \<rightharpoonup> string"
  path_suffix :: string
  cached_form :: "MultipartForm option"

definition set_field :: "string \<Rightarrow> string \<Rightarrow> Response \<Rightarrow> Response" where
  "set_field k v res = res\<lparr>res_fields := AList.update k v (res_fields res)\<rparr>"

text \<open>\<open>prepare_payload\<close> records the length of the body.\<close>

definition prepare_payload :: "Response \<Rightarrow> Response" where
  "prepare_payload res = set_field ''Content-Length'' (to_string_nat (length (res_body res))) res"

text \<open>A new message keeps the connection when its version is 1.1.\<close>

definition new_response :: "nat \<Rightarrow> nat \<Rightarrow> Response" where
  "new_response st version = \<lparr>res_status = st, res_version = version, res_keep_alive = (11 \<le> version),
     res_fields = [], res_body = []\<rparr>"

definition make_response :: "HttpContext \<Rightarrow> string \<Rightarrow> string \<Rightarrow> nat \<Rightarrow> Response" where
  "make_response ctx text content_type st =
     (let res = new_response st (req_version (req ctx));
          res = set_field ''Server'' ''CDFS/1.0'' res;
          res = set_field ''Content-Type'' content_type res;
          res = res\<lparr>res_keep_alive := req_keep_alive (req ctx)\<rparr>;
          res = res\<lparr>res_body := text\<rparr>;
          res = prepare_payload res;
          res = set_field ''Access-Control-Allow-Origin'' ''*'' res;
          res = set_field ''Access-Control-Allow-Methods'' ''GET, POST, OPTIONS, PUT, DELETE'' res;
          res = set_field ''Access-Control-Allow-Headers'' ''*'' res
      in set_field ''Access-Control-Expose-Headers'' ''Content-Disposition'' res)"

definition text_response :: "HttpContext \<Rightarrow> string \<Rightarrow> nat \<Rightarrow> Response" where
  "text_response ctx text st = make_response ctx text ''text/plain; charset=utf-8'' st"

definition html_response :: "HttpContext \<Rightarrow> string \<Rightarrow> nat \<Rightarrow> Response" where
  "html_response ctx text st = make_response ctx text ''text/html; charset=utf-8'' st"

definition json_response :: "json_api \<Rightarrow> HttpContext \<Rightarrow> json \<Rightarrow> nat \<Rightarrow> Response result" where
  "json_response J ctx data st =
     (case json_dump J data of
        None \<Rightarrow> Inl (Runtime_error ''json'')
      | Some s \<Rightarrow> Inr (make_response ctx s ''application/json'' st))"

definition success_body :: "json \<Rightarrow> string \<Rightarrow> json" where
  "success_body data msg = JObj [(''data'', data), (''message'', JStr msg), (''status'', JStr ''ok'')]"

definition error_body :: "string \<Rightarrow> json" where
  "error_body msg = JObj [(''data'', JNull), (''message'', JStr msg), (''status'', JStr ''fail'')]"

definition success :: "json_api \<Rightarrow> HttpContext \<Rightarrow> json \<Rightarrow> string \<Rightarrow> Response result" where
  "success J ctx data msg = json_response J ctx (success_body data msg) 200"

definition error :: "json_api \<Rightarrow> HttpContext \<Rightarrow> string \<Rightarrow> nat \<Rightarrow> Response result" where
  "error J ctx msg st = json_response J ctx (error_body msg) st"

definition not_found :: "json_api \<Rightarrow> HttpContext \<Rightarrow> string \<Rightarrow> Response result" where
  "not_found J ctx msg = error J ctx msg 404"

text \<open>The form is parsed once; a body that is no form leaves the cache empty and counts as an empty
  form.\<close>

definition get_form :: "HttpContext \<Rightarrow> MultipartForm \<times> HttpContext" where
  "get_form ctx =
     (case cached_form ctx of
        Some form \<Rightarrow> (form, ctx)
      | None \<Rightarrow>
          (case parse_form (req_content_type (req ctx)) (req_body (req ctx)) of
             None \<Rightarrow> (empty_form, ctx)
           | Some form \<Rightarrow> (form, ctx\<lparr>cached_form := Some form\<rparr>)))"

definition is_multipart :: "HttpContext \<Rightarrow> bool" where
  "is_multipart ctx \<longleftrightarrow> contains ''multipart/form-data'' (req_content_type (req ctx))"

text \<open>\<open>parse_multipart\<close>: the file name and the content of the first part.\<close>

definition parse_multipart :: "HttpContext \<Rightarrow> (string \<times> string) option" where
  "parse_multipart ctx =
     (let body = req_body (req ctx);
          content_type = req_content_type (req ctx)
      in case find_sub ''boundary='' content_type of
           None \<Rightarrow> None
         | Some pos_boundary \<Rightarrow>
             let boundary = drop (pos_boundary + length ''boundary='') content_type;
                 delimiter = ''--'' @ boundary
             in case find_sub delimiter body of
                  None \<Rightarrow> None
                | Some pos_start \<Rightarrow>
                    (case find_from crlf2 body pos_start of
                       None \<Rightarrow> None
                     | Some pos_header_end \<Rightarrow>
                         let header_part = substr body pos_start (pos_header_end - pos_start);
                             filename_key = ''filename='' @ [QUOTE]
                         in case find_sub filename_key header_part of
                              None \<Rightarrow> None
                            | Some pos_filename \<Rightarrow>
                                let filename_start = pos_filename + length filename_key
                                in case find_from [QUOTE] header_part filename_start of
                                     None \<Rightarrow> None
                                   | Some filename_end \<Rightarrow>
                                       let data_start = pos_header_end + 4
                                       in case find_from delimiter body data_start of
                                            None \<Rightarrow> None
                                          | Some pos_next_boundary \<Rightarrow>
                                              Some (substr header_part filename_start (filename_end - filename_start),
                                                substr body data_start
                                                  (size_sub (data_end body pos_next_boundary) data_start))))"

section \<open>Properties\<close>

definition field_of :: "Response \<Rightarrow> string \<Rightarrow> string option" where
  "field_of res k = map_of (res_fields res) k"

lemma field_set_field: "field_of (set_field k v res) j = (if j = k then Some v else field_of res j)"
  by (simp add: field_of_def set_field_def update_conv')

lemma set_field_parts [simp]:
  "res_status (set_field k v res) = res_status res" "res_version (set_field k v res) = res_version res"
  "res_keep_alive (set_field k v res) = res_keep_alive res" "res_body (set_field k v res) = res_body res"
  by (simp_all add: set_field_def)

lemma field_update_parts [simp]:
  "field_of (res\<lparr>res_keep_alive := b\<rparr>) = field_of res" "field_of (res\<lparr>res_body := t\<rparr>) = field_of res"
  by (simp_all add: field_of_def fun_eq_iff)

text \<open>What a client receives: the status line, every header field and the body.\<close>

definition received :: "HttpContext \<Rightarrow> nat \<Rightarrow> string \<Rightarrow> string \<Rightarrow> Response \<Rightarrow> bool" where
  "received ctx st content_type text res \<longleftrightarrow>
     res_status res = st \<and> res_version res = req_version (req ctx) \<and> res_keep_alive res = req_keep_alive (req ctx)
     \<and> res_body res = text
     \<and> field_of res = [''Server'' \<mapsto> ''CDFS/1.0'', ''Content-Type'' \<mapsto> content_type,
         ''Content-Length'' \<mapsto> to_string_nat (length text),
         ''Access-Control-Allow-Origin'' \<mapsto> ''*'',
         ''Access-Control-Allow-Methods'' \<mapsto> ''GET, POST, OPTIONS, PUT, DELETE'',
         ''Access-Control-Allow-Headers'' \<mapsto> ''*'',
         ''Access-Control-Expose-Headers'' \<mapsto> ''Content-Disposition'']"

lemma make_response_received: "received ctx st content_type text (make_response ctx text content_type st)"
  by (auto simp: received_def make_response_def prepare_payload_def new_response_def Let_def field_set_field fun_eq_iff)
    (simp add: field_of_def)

lemma json_response_received:
  assumes "json_codec J" "canonical j" "json_response J ctx j st = Inr res"
  shows "\<exists>text. received ctx st ''application/json'' text res \<and> json_parse J text = Some j"
  using assms json_codec.parse_dump [OF assms(1,2)] make_response_received
  by (fastforce simp: json_response_def split: option.splits)

lemma json_response_sends:
  assumes "json_codec J" "ascii_json j"
  shows "\<exists>res. json_response J ctx j st = Inr res"
  using json_codec.dump_ascii [OF assms] by (auto simp: json_response_def)


definition sample_request :: "verb \<Rightarrow> string \<Rightarrow> StringRequest" where
  "sample_request v target = \<lparr>req_method = v, req_target = target, req_version = 11,
     req_keep_alive = True, req_content_type = [], req_body = []\<rparr>"

definition sample_ctx :: "string \<Rightarrow> HttpContext" where
  "sample_ctx sfx = \<lparr>req = sample_request Verb_get ''/x'', ctx_method = ''GET'', ctx_path = ''/x'',
     query = Map.empty, path_suffix = sfx, cached_form = None\<rparr>"


text \<open>Asking for the form again gives the same form, and the request is untouched.\<close>

lemma get_form_stable:
  "fst (get_form (snd (get_form ctx))) = fst (get_form ctx)" "req (snd (get_form ctx)) = req ctx"
  by (auto simp: get_form_def split: option.splits)

lemma success_sends:
  assumes "json_codec J" "ascii_json data" "canonical data" "ascii msg"
  shows "\<exists>res. success J ctx data msg = Inr res \<and> res_status res = 200
    \<and> json_parse J (res_body res) = Some (success_body data msg)"
proof -
  have body: "ascii_json (success_body data msg)" "canonical (success_body data msg)"
    using assms by (simp_all add: success_body_def ascii_def)
  obtain res where res: "json_response J ctx (success_body data msg) 200 = Inr res"
    using json_response_sends [OF assms(1) body(1)] by blast
  with json_response_received [OF assms(1) body(2) res] show ?thesis
    by (auto simp: success_def received_def)
qed

lemma error_sends:
  assumes "json_codec J" "ascii msg"
  shows "\<exists>res. error J ctx msg st = Inr res \<and> res_status res = st \<and> json_parse J (res_body res) = Some (error_body msg)"
proof -
  have body: "ascii_json (error_body msg)" "canonical (error_body msg)"
    using assms by (simp_all add: error_body_def ascii_def)
  obtain res where res: "json_response J ctx (error_body msg) st = Inr res"
    using json_response_sends [OF assms(1) body(1)] by blast
  with json_response_received [OF assms(1) body(2) res] show ?thesis
    by (auto simp: error_def received_def)
qed

end
