(* ===== verification/Router.thy ===== *)
theory Router
  imports HttpContext UrlUtils "HOL-Library.Multiset"
begin

text \<open>
  \<open>server/Router\<close>: exact routes in a map, prefix routes in a vector kept in order of decreasing
  length, and the dispatch of a request to the handler of its exact route, else to the handler of
  its longest matching prefix, else to the 404 page.  \<open>std::sort\<close> may put routes of equal length in
  any order, so the sorting function is a parameter with the contract \<open>route_sort\<close>.  A handler is
  abstract here; an empty \<open>std::function\<close> is \<open>None\<close>.
\<close>

section \<open>State\<close>

record 'h PrefixRouteEntry =
  route_method :: verb
  route_prefix :: string
  route_handler :: "'h option"

record 'h router =
  routers :: "verb \<times> string \<Rightarrow> 'h option option"
  prefix_routes :: "'h PrefixRouteEntry list"

definition empty_router :: "'h router" where
  "empty_router = \<lparr>routers = (\<lambda>_. None), prefix_routes = []\<rparr>"

section \<open>Operations\<close>

definition add_route :: "verb \<Rightarrow> string \<Rightarrow> 'h option \<Rightarrow> 'h router \<Rightarrow> 'h router" where
  "add_route m p h r = r\<lparr>routers := (routers r)((m, p) \<mapsto> h)\<rparr>"

definition add_prefix ::
  "('h PrefixRouteEntry list \<Rightarrow> 'h PrefixRouteEntry list) \<Rightarrow> verb \<Rightarrow> string \<Rightarrow> 'h option \<Rightarrow> 'h router \<Rightarrow> 'h router" where
  "add_prefix srt m p h r =
     r\<lparr>prefix_routes := srt (prefix_routes r @ [\<lparr>route_method = m, route_prefix = p, route_handler = h\<rparr>])\<rparr>"

text \<open>What a dispatch leads to: a call of a handler with its context, or a response.\<close>

datatype 'h action = Call 'h HttpContext | Send "Response result"

definition make_ctx :: "StringRequest \<Rightarrow> string \<Rightarrow> (string \<rightharpoonup> string) \<Rightarrow> string \<Rightarrow> HttpContext" where
  "make_ctx rq raw_path qs sfx = \<lparr>req = rq, ctx_method = VerbToString (req_method rq),
     ctx_path = raw_path, query = qs, path_suffix = sfx, cached_form = None\<rparr>"

text \<open>The 404 page of the router; Beast's version string is a parameter.\<close>

definition router_not_found :: "string \<Rightarrow> StringRequest \<Rightarrow> Response" where
  "router_not_found beast_version rq =
     (let res = new_response 404 (req_version rq);
          res = set_field ''Server'' beast_version res;
          res = set_field ''Content-Type'' ''text/html'' res;
          res = res\<lparr>res_keep_alive := req_keep_alive rq\<rparr>;
          res = res\<lparr>res_body := ''404 Not Found - Powered by Boost.Beast''\<rparr>
      in prepare_payload res)"

text \<open>The loop over the prefix routes.\<close>

fun match_prefix ::
  "json_api \<Rightarrow> StringRequest \<Rightarrow> string \<Rightarrow> (string \<rightharpoonup> string) \<Rightarrow> 'h PrefixRouteEntry list \<Rightarrow> 'h action option" where
  "match_prefix J rq raw_path qs [] = None"
| "match_prefix J rq raw_path qs (route # routes) =
     (if req_method rq \<noteq> route_method route then match_prefix J rq raw_path qs routes
      else if find_sub (route_prefix route) raw_path \<noteq> Some 0 then match_prefix J rq raw_path qs routes
      else if length raw_path < length (route_prefix route) then match_prefix J rq raw_path qs routes
      else
        let sfx = drop (length (route_prefix route)) raw_path;
            ctx = make_ctx rq raw_path qs sfx
        in case route_handler route of
             None \<Rightarrow> Some (Send (HttpContext.not_found J ctx ''Internal Server Error''))
           | Some h \<Rightarrow> Some (Call h ctx))"

text \<open>The state is the counter \<open>g_total_requests\<close>.\<close>

definition dispatch :: "json_api \<Rightarrow> string \<Rightarrow> 'h router \<Rightarrow> StringRequest \<Rightarrow> (64 word, 'h action) io" where
  "dispatch J beast_version r rq = (\<lambda>total.
     let total' = total + 1;
         (raw_path, raw_query) = splitTarget (req_target rq)
     in case parseQuery raw_query of
          Inl e \<Rightarrow> (Inl e, total')
        | Inr query_params \<Rightarrow>
            (case routers r (req_method rq, raw_path) of
               Some (Some h) \<Rightarrow> (Inr (Call h (make_ctx rq raw_path query_params [])), total')
             | Some None \<Rightarrow> (Inl Bad_function_call, total')
             | None \<Rightarrow>
                 (case match_prefix J rq raw_path query_params (prefix_routes r) of
                    Some act \<Rightarrow> (Inr act, total')
                  | None \<Rightarrow> (Inr (Send (Inr (router_not_found beast_version rq))), total'))))"

section \<open>The order of the prefix routes\<close>

definition longest_first :: "'h PrefixRouteEntry list \<Rightarrow> bool" where
  "longest_first rs \<longleftrightarrow> sorted_wrt (\<lambda>a b. length (route_prefix b) \<le> length (route_prefix a)) rs"

locale route_sort =
  fixes srt :: "'h PrefixRouteEntry list \<Rightarrow> 'h PrefixRouteEntry list"
  assumes sort_perm: "mset (srt rs) = mset rs"
    and sort_order: "longest_first (srt rs)"
begin

lemma set_sort: "set (srt rs) = set rs"
  using sort_perm by (metis set_mset_mset)

lemma add_prefix_order: "longest_first (prefix_routes (add_prefix srt m p h r))"
  by (simp add: add_prefix_def sort_order)

lemma add_prefix_set:
  "set (prefix_routes (add_prefix srt m p h r))
    = insert \<lparr>route_method = m, route_prefix = p, route_handler = h\<rparr> (set (prefix_routes r))"
  by (simp add: add_prefix_def set_sort)

end

sublocale route_sort \<subseteq> routes: invariant_machine
  "\<lambda>e. add_prefix srt (fst e) (fst (snd e)) (snd (snd e))" "\<lambda>r. longest_first (prefix_routes r)"
  by unfold_locales (rule add_prefix_order)

text \<open>A stable sort meets the contract.\<close>

definition stable_sort :: "'h PrefixRouteEntry list \<Rightarrow> 'h PrefixRouteEntry list" where
  "stable_sort rs = rev (sort_key (\<lambda>e. length (route_prefix e)) (rev rs))"

lemma stable_sort_order: "longest_first (stable_sort rs)"
  using sorted_sort_key [of "\<lambda>e. length (route_prefix e)" "rev rs"]
  by (simp add: longest_first_def stable_sort_def sorted_map sorted_wrt_rev)

interpretation stable: route_sort stable_sort
  by unfold_locales (simp_all add: stable_sort_order, simp add: stable_sort_def)

section \<open>Dispatch\<close>

definition matches :: "StringRequest \<Rightarrow> string \<Rightarrow> 'h PrefixRouteEntry \<Rightarrow> bool" where
  "matches rq raw_path e \<longleftrightarrow> route_method e = req_method rq \<and> prefix (route_prefix e) raw_path"

lemma find_sub_start: "find_sub p s = Some 0 \<longleftrightarrow> prefix p s"
  by (cases s) auto

definition prefix_action :: "json_api \<Rightarrow> StringRequest \<Rightarrow> string \<Rightarrow> (string \<rightharpoonup> string) \<Rightarrow> 'h PrefixRouteEntry \<Rightarrow> 'h action" where
  "prefix_action J rq raw_path qs e =
     (let ctx = make_ctx rq raw_path qs (drop (length (route_prefix e)) raw_path)
      in case route_handler e of
           None \<Rightarrow> Send (HttpContext.not_found J ctx ''Internal Server Error'')
         | Some h \<Rightarrow> Call h ctx)"

lemma match_prefix_Cons:
  "match_prefix J rq raw_path qs (e # es) =
     (if matches rq raw_path e then Some (prefix_action J rq raw_path qs e)
      else match_prefix J rq raw_path qs es)"
  by (auto simp: matches_def find_sub_start prefix_action_def Let_def dest: prefix_length_le split: option.splits)

declare match_prefix.simps(2) [simp del]

text \<open>The first match in the order of the vector, hence a longest one.\<close>

lemma match_prefix_longest:
  assumes "longest_first es" "e' \<in> set es" "matches rq raw_path e'"
  shows "\<exists>e \<in> set es. matches rq raw_path e \<and> match_prefix J rq raw_path qs es = Some (prefix_action J rq raw_path qs e)
    \<and> (\<forall>x \<in> set es. matches rq raw_path x \<longrightarrow> length (route_prefix x) \<le> length (route_prefix e))"
  using assms
proof (induction es)
  case (Cons x es)
  show ?case
  proof (cases "matches rq raw_path x")
    case True
    with Cons.prems(1) show ?thesis
      by (intro bexI [of _ x]) (auto simp: match_prefix_Cons longest_first_def)
  next
    case False
    with Cons show ?thesis by (auto simp: match_prefix_Cons longest_first_def)
  qed
qed simp

lemma match_prefix_None:
  "(\<And>e. e \<in> set es \<Longrightarrow> \<not> matches rq raw_path e) \<Longrightarrow> match_prefix J rq raw_path qs es = None"
  by (induction es) (auto simp: match_prefix_Cons)

section \<open>Registrations\<close>

datatype 'h registration = Exact verb string "'h option" | Prefix verb string "'h option"

fun register :: "('h PrefixRouteEntry list \<Rightarrow> 'h PrefixRouteEntry list) \<Rightarrow> 'h registration \<Rightarrow> 'h router \<Rightarrow> 'h router" where
  "register srt (Exact m p h) r = add_route m p h r"
| "register srt (Prefix m p h) r = add_prefix srt m p h r"

definition build :: "('h PrefixRouteEntry list \<Rightarrow> 'h PrefixRouteEntry list) \<Rightarrow> 'h registration list \<Rightarrow> 'h router" where
  "build srt regs = fold (register srt) regs empty_router"

text \<open>What was registered: the last exact route of a method and path, and all prefix routes.\<close>

fun exact_handler :: "'h registration list \<Rightarrow> verb \<Rightarrow> string \<Rightarrow> 'h option option" where
  "exact_handler [] m p = None"
| "exact_handler (Exact m' p' h # regs) m p =
     (case exact_handler regs m p of
        Some x \<Rightarrow> Some x
      | None \<Rightarrow> if m' = m \<and> p' = p then Some h else None)"
| "exact_handler (Prefix _ _ _ # regs) m p = exact_handler regs m p"

definition prefix_entries :: "'h registration list \<Rightarrow> 'h PrefixRouteEntry set" where
  "prefix_entries regs = {\<lparr>route_method = m, route_prefix = p, route_handler = h\<rparr> | m p h. Prefix m p h \<in> set regs}"

context route_sort
begin

lemma register_routers:
  "routers (fold (register srt) regs r) (m, p)
    = (case exact_handler regs m p of Some x \<Rightarrow> Some x | None \<Rightarrow> routers r (m, p))"
proof (induction regs arbitrary: r)
  case (Cons reg regs)
  then show ?case by (cases reg) (auto simp: add_route_def add_prefix_def split: option.splits)
qed simp

lemma register_prefixes:
  "longest_first (prefix_routes r) \<Longrightarrow>
     longest_first (prefix_routes (fold (register srt) regs r))
     \<and> set (prefix_routes (fold (register srt) regs r)) = prefix_entries regs \<union> set (prefix_routes r)"
proof (induction regs arbitrary: r)
  case Nil
  then show ?case by (simp add: prefix_entries_def)
next
  case (Cons reg regs)
  show ?case
  proof (cases reg)
    case (Exact m p h)
    with Cons.IH [of "add_route m p h r"] Cons.prems show ?thesis
      by (auto simp: add_route_def prefix_entries_def)
  next
    case (Prefix m p h)
    with Cons.IH [of "add_prefix srt m p h r"] add_prefix_order [of m p h r] add_prefix_set [of m p h r]
    show ?thesis by (auto simp: prefix_entries_def)
  qed
qed

lemma build_routers: "routers (build srt regs) (m, p) = exact_handler regs m p"
  by (simp add: build_def register_routers empty_router_def split: option.split)

lemma dispatch_built:
  assumes "splitTarget (req_target rq) = (raw_path, raw_query)" "parseQuery raw_query = Inr qs"
  shows "dispatch J bv (build srt regs) rq cnt =
      (case exact_handler regs (req_method rq) raw_path of
         Some (Some h) \<Rightarrow> (Inr (Call h (make_ctx rq raw_path qs [])), cnt + 1)
       | Some None \<Rightarrow> (Inl Bad_function_call, cnt + 1)
       | None \<Rightarrow>
           (case match_prefix J rq raw_path qs (prefix_routes (build srt regs)) of
              Some act \<Rightarrow> (Inr act, cnt + 1)
            | None \<Rightarrow> (Inr (Send (Inr (router_not_found bv rq))), cnt + 1)))"
  using build_routers [of regs "req_method rq" raw_path] assms by (simp add: dispatch_def Let_def)

lemma build_prefixes:
  "longest_first (prefix_routes (build srt regs)) \<and> set (prefix_routes (build srt regs)) = prefix_entries regs"
  using register_prefixes [of empty_router regs] by (simp add: build_def empty_router_def longest_first_def)

end

text \<open>C6: a request with a readable query goes to the handler of its exact route when one is registered
  for its method and path, whatever prefixes match; otherwise to a registered prefix route of its
  method that no other matching route exceeds in length, with the rest of the path as suffix;
  otherwise it gets the 404 page.  The order of registration and the order in which the sort leaves
  routes of equal length do not matter.  Every request is counted once.\<close>

theorem dispatch_routes:
  assumes sort: "route_sort srt" and target: "splitTarget (req_target rq) = (raw_path, raw_query)"
    and q: "parseQuery raw_query = Inr qs"
  shows "(\<forall>h. exact_handler regs (req_method rq) raw_path = Some (Some h) \<longrightarrow>
        dispatch J bv (build srt regs) rq cnt = (Inr (Call h (make_ctx rq raw_path qs [])), cnt + 1))
    \<and> (exact_handler regs (req_method rq) raw_path = None \<longrightarrow>
        (if \<exists>e \<in> prefix_entries regs. matches rq raw_path e
         then \<exists>e \<in> prefix_entries regs. matches rq raw_path e
           \<and> (\<forall>x \<in> prefix_entries regs. matches rq raw_path x \<longrightarrow> length (route_prefix x) \<le> length (route_prefix e))
           \<and> dispatch J bv (build srt regs) rq cnt = (Inr (prefix_action J rq raw_path qs e), cnt + 1)
         else dispatch J bv (build srt regs) rq cnt = (Inr (Send (Inr (router_not_found bv rq))), cnt + 1)))"
proof -
  note pre = route_sort.build_prefixes [OF sort, of regs]
  note run = route_sort.dispatch_built [OF sort target q, of J bv regs cnt]
  have "\<exists>e \<in> prefix_entries regs. matches rq raw_path e
      \<and> (\<forall>x \<in> prefix_entries regs. matches rq raw_path x \<longrightarrow> length (route_prefix x) \<le> length (route_prefix e))
      \<and> dispatch J bv (build srt regs) rq cnt = (Inr (prefix_action J rq raw_path qs e), cnt + 1)"
    if "e' \<in> prefix_entries regs" "matches rq raw_path e'" "exact_handler regs (req_method rq) raw_path = None" for e'
    using match_prefix_longest [of "prefix_routes (build srt regs)" e' rq raw_path J qs] pre that
    by (auto simp: run)
  moreover have "match_prefix J rq raw_path qs (prefix_routes (build srt regs)) = None"
    if "\<not> (\<exists>e \<in> prefix_entries regs. matches rq raw_path e)"
    using match_prefix_None pre that by blast
  ultimately show ?thesis
    using run by (auto simp del: split_paired_Ex)
qed

definition sample_regs :: "nat registration list" where
  "sample_regs = [Prefix Verb_get ''/group1/'' (Some 1), Prefix Verb_get ''/group1/view/'' (Some 2),
     Exact Verb_post ''/upload'' (Some 3)]"

lemma sample_prefix_entries:
  "prefix_entries sample_regs = {\<lparr>route_method = Verb_get, route_prefix = ''/group1/'', route_handler = Some 1\<rparr>,
     \<lparr>route_method = Verb_get, route_prefix = ''/group1/view/'', route_handler = Some 2\<rparr>}"
  by (auto simp: prefix_entries_def sample_regs_def)

theorem dispatch_routes_witness:
  "dispatch ref_json [] (build stable_sort sample_regs) (sample_request Verb_post ''/upload?'') 0
     = (Inr (Call 3 (make_ctx (sample_request Verb_post ''/upload?'') ''/upload'' Map.empty [])), 1)
   \<and> dispatch ref_json [] (build stable_sort sample_regs) (sample_request Verb_get ''/group1/view/x'') 0
     = (Inr (Call 2 (make_ctx (sample_request Verb_get ''/group1/view/x'') ''/group1/view/x'' Map.empty ''x'')), 1)
   \<and> dispatch ref_json [] (build stable_sort sample_regs) (sample_request Verb_get ''/upload'') 0
     = (Inr (Send (Inr (router_not_found [] (sample_request Verb_get ''/upload'')))), 1)"
proof -
  let ?rq1 = "sample_request Verb_post ''/upload?''" and ?rq2 = "sample_request Verb_get ''/group1/view/x''"
    and ?rq3 = "sample_request Verb_get ''/upload''"
  note routes = dispatch_routes [OF stable.route_sort_axioms, of _ _ "[]" Map.empty sample_regs ref_json "[]" 0]
  have t: "splitTarget (req_target ?rq1) = (''/upload'', [])" "splitTarget (req_target ?rq2) = (''/group1/view/x'', [])"
      "splitTarget (req_target ?rq3) = (''/upload'', [])" "parseQuery [] = Inr Map.empty"
    by (simp_all add: sample_request_def splitTarget_def substr_def parseQuery_def Let_def)
  have "exact_handler sample_regs Verb_post ''/upload'' = Some (Some 3)"
      "exact_handler sample_regs Verb_get ''/upload'' = None"
      "exact_handler sample_regs Verb_get ''/group1/view/x'' = None"
    by (simp_all add: sample_regs_def)
  then show ?thesis
    using routes [OF t(1,4)] routes [OF t(2,4)] routes [OF t(3,4)]
    by (auto simp: sample_prefix_entries matches_def prefix_action_def sample_request_def)
qed

text \<open>A query with a malformed percent escape makes \<open>dispatch\<close> throw whatever routes are
  registered; no response is sent for it.\<close>

theorem dispatch_bad_query_throws:
  assumes "splitTarget (req_target rq) = (raw_path, raw_query)" "parseQuery raw_query = Inl e"
  shows "dispatch J bv r rq n = (Inl e, n + 1)"
  using assms by (simp add: dispatch_def Let_def)

theorem dispatch_bad_query_throws_witness:
  "\<exists>e. dispatch ref_json [] (build stable_sort sample_regs) (sample_request Verb_post ''/upload?a=%zz'') 0 = (Inl e, 1)"
proof -
  have t: "splitTarget (req_target (sample_request Verb_post ''/upload?a=%zz'')) = (''/upload'', ''a=%zz'')"
    by (simp add: sample_request_def splitTarget_def substr_def Let_def)
  obtain e where "parseQuery ''a=%zz'' = Inl e"
    by (simp add: parseQuery_def parse_query_loop.simps parse_pair_def substr_def decode.simps isxdigit_def is_digit_def Let_def)
  from dispatch_bad_query_throws [OF t this, of ref_json "[]" "build stable_sort sample_regs" 0] show ?thesis
    by auto
qed

end
