(* ===== verification/Mime.thy ===== *)
theory Mime
  imports FsPath
begin

text \<open>\<open>common/MineMap.h\<close>: the content type of a file by its extension, case-insensitively.\<close>

definition mime_map :: "(string \<times> string) list" where
  "mime_map = [
     (''.jpg'', ''image/jpeg''), (''.jpeg'', ''image/jpeg''), (''.png'', ''image/png''),
     (''.gif'', ''image/gif''), (''.bmp'', ''image/bmp''), (''.webp'', ''image/webp''),
     (''.svg'', ''image/svg+xml''), (''.ico'', ''image/x-icon''),
     (''.html'', ''text/html''), (''.htm'', ''text/html''), (''.css'', ''text/css''),
     (''.js'', ''application/javascript''), (''.json'', ''application/json''),
     (''.txt'', ''text/plain''), (''.md'', ''text/markdown''),
     (''.woff'', ''font/woff''), (''.woff2'', ''font/woff2''), (''.ttf'', ''font/ttf''),
     (''.pdf'', ''application/pdf''), (''.zip'', ''application/zip''), (''.gz'', ''application/gzip''),
     (''.mp4'', ''video/mp4''), (''.mp3'', ''audio/mpeg''), (''.wav'', ''audio/wav'')]"

definition get_mime_type :: "string \<Rightarrow> string" where
  "get_mime_type file_path =
     (case map_of mime_map (map tolower (extension file_path)) of
        Some t \<Rightarrow> t
      | None \<Rightarrow> ''application/octet-stream'')"

lemma tolower_idem: "tolower (tolower c) = tolower c"
proof (cases "65 \<le> ch_code c \<and> ch_code c \<le> 90")
  case True
  then have "ch_code (char_of (ch_code c + 32) :: char) = ch_code c + 32" by simp
  with True show ?thesis by (simp add: tolower_def)
qed (auto simp: tolower_def)

lemma mime_map_keys: "distinct (map fst mime_map) \<and> (\<forall>k \<in> fst ` set mime_map. map tolower k = k)"
  by (simp add: mime_map_def tolower_def)

text \<open>The type depends on the extension up to case only.\<close>

lemma get_mime_type_case:
  "map tolower (extension p) = map tolower (extension q) \<Longrightarrow> get_mime_type p = get_mime_type q"
  by (simp add: get_mime_type_def)

end
