(* ===== verification/FileCtl.thy ===== *)
theory FileCtl
  imports FileStoreProps MetadataProps HttpContext Mime
begin

text \<open>
  \<open>controller/FileCtl\<close>: the request handlers, over the metadata store, the disk and the counter of
  concurrent uploads.  A handler sends exactly one response, which is its result, or lets an
  exception out.  The libraries, the clock (\<open>std::time\<close>) and the random suffix of temporary files
  are in the environment.  The counter is an unbounded integer here and a \<open>std::atomic<int>\<close> in the
  code; it never exceeds twenty by more than the number of threads that are being refused (see
  \<open>UploadConc\<close>), so 32 bits are never left.
\<close>

section \<open>State and environment\<close>

record ('db, 'it) env =
  env_db :: "('db, 'it) leveldb_api"
  env_json :: json_api
  env_MD5 :: "string \<Rightarrow> 8 word list"
  env_cfg :: StoreConfig
  env_time :: u64
  env_rand :: nat
  env_dir_body :: string

record 'db server =
  meta_store :: "'db metadata_store"
  files :: disk
  concurrent_uploads :: int

definition MAX_CONCURRENT_UPLOADS :: int where
  "MAX_CONCURRENT_UPLOADS = 20"

definition on_disk :: "(disk, 'a) io \<Rightarrow> ('db server, 'a) io" where
  "on_disk m = (\<lambda>s. case m (files s) of (r, d) \<Rightarrow> (r, s\<lparr>files := d\<rparr>))"

text \<open>\<open>sender(...)\<close> of a response whose construction may throw.\<close>

definition send :: "Response result \<Rightarrow> ('s, Response) io" where
  "send r = (case r of Inl e \<Rightarrow> io_throw e | Inr res \<Rightarrow> io_return res)"

text \<open>The result of \<open>save_meta\<close> is not looked at.\<close>

definition keep_meta :: "('db, 'it) env \<Rightarrow> MetaFile \<Rightarrow> ('db server, unit) io" where
  "keep_meta E meta = (\<lambda>s. (Inr (), s\<lparr>meta_store := snd (save_meta (env_db E) (env_json E) meta (meta_store s))\<rparr>))"

section \<open>Handlers\<close>

definition handleCheck :: "('db, 'it) env \<Rightarrow> HttpContext \<Rightarrow> ('db server, Response) io" where
  "handleCheck E ctx = (\<lambda>s.
     case query ctx ''md5'' of
       None \<Rightarrow> send (error (env_json E) ctx ''md5 is empty'' 400) s
     | Some file_md5 \<Rightarrow>
         if file_md5 = [] then send (error (env_json E) ctx ''md5 is empty'' 400) s
         else if exists_meta (env_db E) (env_json E) (meta_store s) file_md5
         then send (success (env_json E) ctx (JObj []) ''file exist'') s
         else send (success (env_json E) ctx (JObj []) ''file not exist'') s)"

text \<open>The \<open>data\<close> member of the answer to an upload or a merge.\<close>

definition upload_data :: "string \<Rightarrow> MetaFile \<Rightarrow> json" where
  "upload_data full_url meta = JObj [
     (''md5'', JStr (md5 meta)),
     (''mtime'', JInt (sint (mtime meta))),
     (''name'', JStr (name meta)),
     (''path'', JStr (path meta)),
     (''scene'', JStr (scene meta)),
     (''size'', JInt (sint (fsize meta))),
     (''url'', JStr full_url)]"

definition new_meta :: "('db, 'it) env \<Rightarrow> 'db metadata_store \<Rightarrow> string \<Rightarrow> string \<Rightarrow> string \<Rightarrow> nat \<Rightarrow> string \<Rightarrow> MetaFile" where
  "new_meta E st nm scn m sz p = default_MetaFile\<lparr>name := nm, scene := scn, md5 := m, fsize := of_nat sz,
     path := p, mtime := env_time E, peers := [get_peer_id st]\<rparr>"

text \<open>The \<open>try\<close> block of \<open>handleUpload\<close>.\<close>

definition store_upload :: "('db, 'it) env \<Rightarrow> HttpContext \<Rightarrow> string \<Rightarrow> string \<Rightarrow> string \<Rightarrow> string \<Rightarrow>
    ('db server, Response) io" where
  "store_upload E ctx fname clean data scn =
     (let file_md5 = md5_hex (env_MD5 E) data
      in io_bind (on_disk (save_file (env_cfg E) (env_MD5 E) (env_rand E) fname data scn file_md5)) (\<lambda>file_path.
           if clean = []
           then io_throw (Invalid_argument ''[FileStore] Filename is empty after trimming special characters.'')
           else (case file_path of
                   None \<Rightarrow> io_throw Bad_optional_access
                 | Some p \<Rightarrow> (\<lambda>s.
                     let meta = new_meta E (meta_store s) clean scn file_md5 (length data) p
                     in io_bind (keep_meta E meta) (\<lambda>_ s'.
                          let full_url = get_domain (meta_store s') @ ''/'' @ path meta
                          in send (success (env_json E) ctx (upload_data full_url meta) ''Upload success'') s') s))))"

definition handleUpload :: "('db, 'it) env \<Rightarrow> HttpContext \<Rightarrow> ('db server, Response) io" where
  "handleUpload E ctx = (\<lambda>s.
     let J = env_json E;
         current = concurrent_uploads s;
         s1 = s\<lparr>concurrent_uploads := current + 1\<rparr>
     in if MAX_CONCURRENT_UPLOADS \<le> current
        then send (error J ctx ''Server busy, too many uploads'' 400)
               (s1\<lparr>concurrent_uploads := concurrent_uploads s1 - 1\<rparr>)
        else
          (case (case query ctx ''md5'' of
                   None \<Rightarrow> None
                 | Some file_md5 \<Rightarrow>
                     if file_md5 = [] then None else get_meta (env_db E) J (meta_store s1) file_md5) of
             Some meta \<Rightarrow> send (success J ctx (to_json meta) ''Deduplication success'') s1
           | None \<Rightarrow>
               if \<not> is_multipart ctx then send (error J ctx ''Request is not a multipart/form-data'' 400) s1
               else
                 let form = fst (get_form ctx)
                 in if form_content form = [] then send (error J ctx ''File content is empty'' 400) s1
                    else
                      let fname = form_filename form;
                          data = form_content form;
                          scn = get_param form ''scene'' ''default''
                      in if \<not> check_file_ext fname (list_files (env_cfg E))
                         then send (error J ctx ''File extension not allowed'' 400) s1
                         else
                           let clean = (if is_enable_trim_filename (meta_store s1)
                                        then trim_filename_special_char fname else fname)
                           in io_catch (store_upload E ctx fname clean data scn)
                                (\<lambda>e. send (error J ctx (what e) 400)) s1))"

text \<open>\<open>body.open\<close>: the file, a missing file, or another error (a file where a directory should be,
  or a failure of the system).\<close>

datatype open_result = Opened string | No_such_file | Open_error

definition body_open :: "string \<Rightarrow> string \<Rightarrow> (disk, open_result) io" where
  "body_open dir_body p = io_bind sys (\<lambda>f d.
     (Inr (if f \<noteq> None then Open_error
           else (case lookup d p of
                   Some (File s) \<Rightarrow> Opened s
                 | Some Dir \<Rightarrow> Opened dir_body
                 | None \<Rightarrow>
                     if p \<noteq> [] \<and> (\<exists>j \<in> set (prefixes (key d p)). case node_at d j of Some (File _) \<Rightarrow> True | _ \<Rightarrow> False)
                     then Open_error else No_such_file)), d))"

definition handleDownload :: "('db, 'it) env \<Rightarrow> HttpContext \<Rightarrow> ('db server, Response) io" where
  "handleDownload E ctx =
     (let rel_path = path_suffix ctx
      in if rel_path = [] then send (HttpContext.not_found (env_json E) ctx ''File path missing'')
         else
           let abs_path = get_root_dir (env_cfg E) @ rel_path
           in io_bind (on_disk (body_open (env_dir_body E) abs_path)) (\<lambda>r.
                case r of
                  No_such_file \<Rightarrow> send (HttpContext.not_found (env_json E) ctx ''File not found'')
                | Open_error \<Rightarrow> send (error (env_json E) ctx ''File open error'' 400)
                | Opened data \<Rightarrow>
                    let res = (new_response 200 (req_version (req ctx)))\<lparr>res_body := data\<rparr>;
                        res = set_field ''Server'' ''MyDFS'' res;
                        res = set_field ''Content-Length'' (to_string_nat (length data)) res;
                        res = set_field ''Content-Type'' (get_mime_type abs_path) res
                    in io_return (case query ctx ''attname'' of
                         Some new_filename \<Rightarrow>
                           if new_filename \<noteq> []
                           then set_field ''Content-Disposition''
                                  (''attachment; filename='' @ [QUOTE] @ new_filename @ [QUOTE]) res
                           else set_field ''Content-Disposition'' ''inline'' res
                       | None \<Rightarrow> set_field ''Content-Disposition'' ''inline'' res)))"

definition handleCheckChunk :: "('db, 'it) env \<Rightarrow> HttpContext \<Rightarrow> ('db server, Response) io" where
  "handleCheckChunk E ctx =
     (let file_md5 = (case query ctx ''md5'' of None \<Rightarrow> [] | Some m \<Rightarrow> m)
      in if file_md5 = [] then send (error (env_json E) ctx ''md5 is empty'' 400)
         else
           let file_path = get_root_dir (env_cfg E) @ ''/'' @ get_temp_dir (env_cfg E) @ ''/'' @ file_md5
           in io_bind (on_disk (get_shard_index file_path)) (\<lambda>chunks.
                send (success (env_json E) ctx (JObj [(''list'', JArr (map JInt chunks))]) [])))"

definition handleChunkUpload :: "('db, 'it) env \<Rightarrow> HttpContext \<Rightarrow> ('db server, Response) io" where
  "handleChunkUpload E ctx =
     (let form = fst (get_form ctx);
          file_md5 = get_param form ''md5'' [];
          data = form_content form;
          chunk_index = get_param form ''chunk'' []
      in if file_md5 = [] \<or> data = [] \<or> chunk_index = []
         then send (error (env_json E) ctx ''md5 or content or chunk is empty'' 400)
         else
           let file_path = get_temp_dir (env_cfg E) @ ''/'' @ file_md5 @ ''/'' @ chunk_index
           in io_bind (on_disk (save_file_at (env_cfg E) (env_rand E) data file_path)) (\<lambda>ret.
                if ret then send (success (env_json E) ctx (JObj [(''chunk'', JStr chunk_index)]) [])
                else send (error (env_json E) ctx ''Save file failed'' 400)))"

subsection \<open>Merging\<close>

text \<open>The directory \<open>handleMerge\<close> looks for the chunks in; the blank after the slash is the code's.\<close>

definition merge_dir :: "StoreConfig \<Rightarrow> string \<Rightarrow> string" where
  "merge_dir cfg file_md5 = path_append (get_root_dir cfg @ ''/ '' @ get_temp_dir cfg) file_md5"

text \<open>
  The loop over the chunks.  \<open>good\<close> is the state of the output stream: inserting an empty buffer or a
  failed write sets its fail bit, and then the later insertions do nothing.
\<close>

fun append_chunks :: "string \<Rightarrow> string \<Rightarrow> bool \<Rightarrow> int list \<Rightarrow> (disk, unit) io" where
  "append_chunks out dir good [] = io_return ()"
| "append_chunks out dir good (idx # rest) =
     io_bind (ifs_open (path_append dir (to_string_int idx))) (\<lambda>chunk.
       case chunk of
         None \<Rightarrow> io_throw (Runtime_error (''Cannot open chunk: '' @ to_string_int idx))
       | Some data \<Rightarrow>
           if good \<and> data \<noteq> [] then io_bind (ofs_write out data) (\<lambda>ok. append_chunks out dir ok rest)
           else append_chunks out dir False rest)"

text \<open>Steps 4 to 7: concatenate into a temporary file, move it into place, drop the chunks.\<close>

definition merge_files :: "StoreConfig \<Rightarrow> string \<Rightarrow> string \<Rightarrow> string \<Rightarrow> int list \<Rightarrow> (disk, string \<times> nat) io" where
  "merge_files cfg file_md5 fname scn indices =
     (let dir = merge_dir cfg file_md5;
          merged = path_append (parent_path dir) (file_md5 @ ''.merged'')
      in io_bind (ofs_open merged) (\<lambda>opened.
           if \<not> opened then io_throw (Runtime_error ''Cannot create merge output file'')
           else io_bind (append_chunks merged dir True indices) (\<lambda>_.
             io_bind (ofs_close merged) (\<lambda>_.
               case md5_to_rel_path file_md5 of
                 Inl e \<Rightarrow> io_throw e
               | Inr base_rel_path \<Rightarrow>
                   let final_rel_path = base_rel_path @ extension fname;
                       final_abs_path = path_append (path_append (get_root_dir cfg) scn) final_rel_path
                   in io_bind (create_directories (parent_path final_abs_path)) (\<lambda>_.
                      io_bind (fs_rename merged final_abs_path) (\<lambda>_.
                      io_bind (remove_all dir) (\<lambda>_.
                      io_bind (file_size final_abs_path) (\<lambda>sz.
                        io_return (path_append scn final_rel_path, sz)))))))))"

definition merge_chunks :: "('db, 'it) env \<Rightarrow> HttpContext \<Rightarrow> string \<Rightarrow> string \<Rightarrow> string \<Rightarrow> ('db server, Response) io" where
  "merge_chunks E ctx file_md5 fname scn =
     io_bind (on_disk (directory_iterator (merge_dir (env_cfg E) file_md5))) (\<lambda>es.
       let indices = List.map_filter shard_index_of es
       in if indices = [] then send (error (env_json E) ctx ''No chunks found'' 400)
          else io_bind (on_disk (merge_files (env_cfg E) file_md5 fname scn (sort indices))) (\<lambda>(p, sz) s.
            let meta = new_meta E (meta_store s) fname scn file_md5 sz p
            in io_bind (keep_meta E meta) (\<lambda>_ s'.
                 let full_url = get_domain (meta_store s') @ ''/'' @ path meta
                 in send (success (env_json E) ctx (upload_data full_url meta) ''Merge success'') s') s))"

definition handleMerge :: "('db, 'it) env \<Rightarrow> HttpContext \<Rightarrow> ('db server, Response) io" where
  "handleMerge E ctx =
     (let form = fst (get_form ctx);
          file_md5 = get_param form ''md5'' [];
          fname = get_param form ''filename'' [];
          scn = get_param form ''scene'' ''default''
      in if file_md5 = [] \<or> fname = [] then send (error (env_json E) ctx ''md5 or filename is empty'' 400)
         else io_bind (on_disk (fs_exists (merge_dir (env_cfg E) file_md5))) (\<lambda>ex.
           if \<not> ex then send (error (env_json E) ctx ''Chunk directory not found or expired'' 400)
           else io_catch (merge_chunks E ctx file_md5 fname scn)
                  (\<lambda>e. send (error (env_json E) ctx (''Merge failed: '' @ what e) 400))))"

end
