(* ===== verification/UploadProps.thy ===== *)
theory UploadProps
  imports FileCtlProps
begin

text \<open>
  Uploading a file as a whole, across the router's context, the file store and the metadata store:
  what an accepted upload leaves behind, and what the check and the download of the same file then
  answer.
\<close>

section \<open>Texts\<close>

lemma ascii_simps [simp]:
  "ascii []" "ascii (x # xs) \<longleftrightarrow> ch_code x < 128 \<and> ascii xs" "ascii (xs @ ys) \<longleftrightarrow> ascii xs \<and> ascii ys"
  by (auto simp: ascii_def)

lemma ascii_subset: "ascii t \<Longrightarrow> set s \<subseteq> set t \<Longrightarrow> ascii s"
  by (auto simp: ascii_def)

lemma ascii_hex: "hex_md5 m \<Longrightarrow> ascii m"
  by (fastforce simp: ascii_def hex_md5_def isxdigit_def is_digit_def)

lemma ascii_parts: "ascii s \<Longrightarrow> ascii (take n s)" "ascii s \<Longrightarrow> ascii (drop n s)"
  by (auto intro: ascii_subset dest: in_set_takeD in_set_dropD)

lemma set_filename: "set (filename p) \<subseteq> set p"
  by (auto simp: filename_def dest: set_takeWhileD)

lemma ascii_extension: "ascii p \<Longrightarrow> ascii (extension p)"
  by (auto simp: extension_def Let_def dest!: set_takeWhileD subsetD [OF set_filename] intro!: ascii_subset [of p])

lemma ascii_path_append: "ascii p \<Longrightarrow> ascii q \<Longrightarrow> ascii (path_append p q)"
  by (simp add: path_append_def)

lemma ascii_trim: "ascii p \<Longrightarrow> ascii (trim_filename_special_char p)"
  by (auto simp: trim_filename_special_char_def Let_def dest!: in_set_butlastD list.set_sel(2) [rotated] set_remove_dot_runs
      intro!: ascii_subset [of p])

lemma ascii_stored_path: "hex_md5 m \<Longrightarrow> ascii scn \<Longrightarrow> ascii fname \<Longrightarrow> ascii (stored_path scn m fname)"
  by (simp add: stored_path_def stored_rel_def ascii_path_append ascii_parts ascii_hex ascii_extension)

section \<open>What an upload records\<close>

text \<open>The upload form of a request without an MD5 of its own.\<close>

definition upload_ctx :: "HttpContext \<Rightarrow> string \<Rightarrow> string \<Rightarrow> string \<Rightarrow> bool" where
  "upload_ctx ctx fname data scn \<longleftrightarrow> query ctx ''md5'' = None \<and> is_multipart ctx \<and> data \<noteq> []
     \<and> (let form = fst (get_form ctx)
        in form_filename form = fname \<and> form_content form = data \<and> get_param form ''scene'' ''default'' = scn)"

definition upload_name :: "'db metadata_store \<Rightarrow> string \<Rightarrow> string" where
  "upload_name st fname = (if is_enable_trim_filename st then trim_filename_special_char fname else fname)"

definition upload_meta :: "('db, 'it) env \<Rightarrow> 'db metadata_store \<Rightarrow> string \<Rightarrow> string \<Rightarrow> string \<Rightarrow> MetaFile" where
  "upload_meta E st fname data scn =
     (let m = md5_hex (env_MD5 E) data
      in new_meta E st (upload_name st fname) scn m (length data) (stored_path scn m fname))"

text \<open>Nothing is stored at the path yet, and a file can be put there.\<close>

definition vacant :: "disk \<Rightarrow> nat \<Rightarrow> string \<Rightarrow> bool" where
  "vacant d r p \<longleftrightarrow> wf_disk d \<and> faults d = [] \<and> creatable d p \<and> node_at d (key d (temp_path p r)) \<noteq> Some Dir
     \<and> lookup d p = None"

lemma upload_meta_simps:
  "md5 (upload_meta E st fname data scn) = md5_hex (env_MD5 E) data"
  "path (upload_meta E st fname data scn) = stored_path scn (md5_hex (env_MD5 E) data) fname"
  by (simp_all add: upload_meta_def new_meta_def Let_def)

lemma upload_meta_storable:
  assumes "json_codec J" "digest (env_MD5 E)" "ascii fname" "ascii scn" "ascii (get_peer_id st)"
  shows "storable J (upload_meta E st fname data scn)"
proof -
  have hex: "hex_md5 (md5_hex (env_MD5 E) data)" using digest.hex_md5_hex [OF assms(2)] .
  have "ascii (upload_name st fname)" using assms(3) by (simp add: upload_name_def ascii_trim)
  then have "ascii_json (to_json (upload_meta E st fname data scn))"
    using assms(4,5) ascii_hex [OF hex] ascii_stored_path [OF hex assms(4,3)]
    by (simp add: to_json_def upload_meta_def new_meta_def default_MetaFile_def Let_def)
  with hex show ?thesis
    by (intro json_codec.storable_ascii [OF assms(1)]) (simp_all add: upload_meta_def new_meta_def default_MetaFile_def Let_def)
qed

lemma handleUpload_new:
  assumes "concurrent_uploads s < 20" "upload_ctx ctx fname data scn"
    "check_file_ext fname (allow_extensions (env_cfg E))"
  shows "handleUpload E ctx s = io_catch (store_upload E ctx fname (upload_name (meta_store s) fname) data scn)
      (\<lambda>e. send (error (env_json E) ctx (what e) 400)) (s\<lparr>concurrent_uploads := concurrent_uploads s + 1\<rparr>)"
  using assms
  by (simp add: handleUpload_def upload_ctx_def upload_name_def Let_def MAX_CONCURRENT_UPLOADS_def list_files_def)

lemma upload_data_text:
  "ascii url \<Longrightarrow> ascii (md5 m) \<Longrightarrow> ascii (name m) \<Longrightarrow> ascii (path m) \<Longrightarrow> ascii (scene m) \<Longrightarrow>
     ascii_json (upload_data url m)" "canonical (upload_data url m)"
  by (simp_all add: upload_data_def)

lemma body_open_file:
  "faults d = [] \<Longrightarrow> lookup d p = Some (File t) \<Longrightarrow> body_open b p d = (Inr (Opened t), d)"
  by (simp add: body_open_def io_bind_def)

text \<open>A download of a file: the response carries the bytes, their number, the type of the name and the
  disposition the query asks for, and nothing changes.\<close>

lemma download_file:
  assumes "faults (files s) = []" "path_suffix ctx \<noteq> []"
    and "lookup (files s) (root_dir (env_cfg E) @ path_suffix ctx) = Some (File data)"
  shows "\<exists>res. handleDownload E ctx s = (Inr res, s) \<and> res_status res = 200 \<and> res_body res = data"
  using assms(2) body_open_file [OF assms(1,3), of "env_dir_body E"]
  by (auto simp: handleDownload_def Let_def get_root_dir_def on_disk_def io_bind_def io_return_def new_response_def
      set_field_def split: option.split)

lemma store_upload_run:
  assumes md5: "digest (env_MD5 E)" and root: "filename (root_dir (env_cfg E)) \<noteq> []"
    and scn: "\<not> is_absolute scn" "scn \<noteq> []" and clean: "clean \<noteq> []"
    and p: "vacant (files s) (env_rand E)
      (path_append (root_dir (env_cfg E)) (stored_path scn (md5_hex (env_MD5 E) data) fname))"
    and meta: "meta = new_meta E (meta_store s) clean scn (md5_hex (env_MD5 E) data) (length data)
      (stored_path scn (md5_hex (env_MD5 E) data) fname)"
    and ok: "save_meta (env_db E) (env_json E) meta (meta_store s) = (ok, st')"
    and dom: "get_domain st' = dmn"
  shows "\<exists>d'. store_upload E ctx fname clean data scn s
      = send (success (env_json E) ctx (upload_data (dmn @ ''/'' @ path meta) meta) ''Upload success'')
          (s\<lparr>files := d', meta_store := st'\<rparr>)
    \<and> faults d' = [] \<and> lookup d' (root_dir (env_cfg E) @ ''/'' @ path meta) = Some (File data)"
proof -
  let ?m = "md5_hex (env_MD5 E) data" and ?root = "root_dir (env_cfg E)"
  let ?p = "path_append ?root (stored_path scn ?m fname)"
  have hex: "hex_md5 ?m" using digest.hex_md5_hex [OF md5] .
  have root': "?root \<noteq> []" using root by (auto simp: filename_def)
  have rel: "\<not> is_absolute (stored_path scn ?m fname)"
    using scn stored_rel_not_absolute [OF hex] by (auto simp: stored_path_def path_append_def is_absolute_append)
  have abs: "path_append (path_append ?root scn) (stored_rel ?m fname) = ?p"
    unfolding stored_path_def by (rule path_append_assoc [OF scn(1) stored_rel_not_absolute [OF hex] root' scn(2)])
  obtain d' where d': "save_file (env_cfg E) (env_MD5 E) (env_rand E) fname data scn ?m (files s)
        = (Inr (Some (stored_path scn ?m fname)), d')" "faults d' = []" "lookup d' ?p = Some (File data)"
    using save_file_run [OF _ _ hex abs, of "files s" "env_rand E" "env_MD5 E" data] p path_append_slash [OF rel root']
    by (auto simp: vacant_def)
  moreover have "?p = ?root @ ''/'' @ path meta"
    using rel root meta by (simp add: path_append_def new_meta_def)
  ultimately show ?thesis
    using clean ok dom meta
    by (intro exI [of _ d']) (simp add: store_upload_def Let_def on_disk_def io_bind_def keep_meta_def)
qed

lemma save_meta_config: "save_meta D J meta st = (ok, st') \<Longrightarrow> get_domain st' = get_domain st"
  by (auto simp: save_meta_def save_meta_commit_def get_domain_def split: if_splits prod.splits)

text \<open>An upload of new content through a free slot, with an allowed extension, a name that is not
  empty once cleaned, a relative scene and a healthy disk, is answered with the metadata of the
  file; the check of its MD5 then says that the file exists, and the download of the path in the
  answer, below the prefix the server mounts, gives back exactly the uploaded bytes.\<close>

lemma upload_check_download:
  assumes db: "metadata_db (env_db E) entries view cursor (env_json E)"
    and reach: "reach (env_db E) (env_json E) entries (meta_store s) c"
    and md5: "digest (env_MD5 E)" and root: "filename (root_dir (env_cfg E)) \<noteq> []"
    and up: "concurrent_uploads s < 20" "upload_ctx ctx fname data scn"
      "check_file_ext fname (allow_extensions (env_cfg E))" "upload_name (meta_store s) fname \<noteq> []"
    and scn: "\<not> is_absolute scn" "scn \<noteq> []"
    and texts: "ascii fname" "ascii scn" "ascii (get_peer_id (meta_store s))" "ascii (get_domain (meta_store s))"
    and meta: "meta = upload_meta E (meta_store s) fname data scn" "c (md5 meta) = None" "path_free meta c"
    and disk: "vacant (files s) (env_rand E) (path_append (root_dir (env_cfg E)) (path meta))"
    and saved: "save_meta (env_db E) (env_json E) meta (meta_store s) = (True, st')"
    and check: "query cctx ''md5'' = Some (md5 meta)" and down: "path_suffix dctx = ''/'' @ path meta"
  shows "\<exists>res s' res1 res2. handleUpload E ctx s = (Inr res, s') \<and> res_status res = 200
    \<and> json_parse (env_json E) (res_body res) = Some (success_body
        (upload_data (get_domain (meta_store s) @ ''/'' @ path meta) meta) ''Upload success'')
    \<and> handleCheck E cctx s' = (Inr res1, s')
    \<and> json_parse (env_json E) (res_body res1) = Some (success_body (JObj []) ''file exist'')
    \<and> handleDownload E dctx s' = (Inr res2, s') \<and> res_status res2 = 200 \<and> res_body res2 = data"
proof -
  have J: "json_codec (env_json E)" using db by (simp add: metadata_db_def)
  have hex: "hex_md5 (md5 meta)" using digest.hex_md5_hex [OF md5] meta(1) by (simp add: upload_meta_simps)
  have sto: "storable (env_json E) meta" unfolding meta(1) by (rule upload_meta_storable [OF J md5 texts(1-3)])
  have "store_ok (env_json E) entries st' (c(md5 meta \<mapsto> meta))"
    using metadata_db.save_meta_ok [OF db metadata_db.reach_store_ok [OF db reach] sto meta(3) saved] meta(2)
    by (simp add: spec_save_def domIff)
  then have found: "get_meta (env_db E) (env_json E) st' (md5 meta) = Some meta"
    using store_ok_observe(1) [OF db _ hex] by simp
  let ?url = "get_domain (meta_store s) @ ''/'' @ path meta"
  let ?s = "s\<lparr>concurrent_uploads := concurrent_uploads s + 1\<rparr>"
  obtain d' where d': "store_upload E ctx fname (upload_name (meta_store s) fname) data scn ?s
      = send (success (env_json E) ctx (upload_data ?url meta) ''Upload success'') (?s\<lparr>files := d', meta_store := st'\<rparr>)"
      "faults d' = []" "lookup d' (root_dir (env_cfg E) @ ''/'' @ path meta) = Some (File data)"
    using store_upload_run [OF md5 root scn up(4), of ?s data fname meta True st' "get_domain (meta_store s)" ctx]
      disk saved save_meta_config [OF saved] meta(1) by (auto simp: upload_meta_def Let_def new_meta_def)
  have "ascii_json (upload_data ?url meta)"
    using texts ascii_hex [OF hex] ascii_stored_path [OF hex texts(2,1)] ascii_trim [OF texts(1)] meta(1)
    by (intro upload_data_text) (simp_all add: upload_meta_def new_meta_def upload_name_def Let_def)
  then obtain res where res: "success (env_json E) ctx (upload_data ?url meta) ''Upload success'' = Inr res"
      "res_status res = 200" "json_parse (env_json E) (res_body res) = Some (success_body (upload_data ?url meta) ''Upload success'')"
    using success_sends [OF J _ upload_data_text(2), of ?url meta "''Upload success''" ctx] by auto
  obtain res1 where res1: "success (env_json E) cctx (JObj []) ''file exist'' = Inr res1"
      "json_parse (env_json E) (res_body res1) = Some (success_body (JObj []) ''file exist'')"
    using success_sends [OF J, of "JObj []" "''file exist''" cctx] by auto
  let ?s' = "?s\<lparr>files := d', meta_store := st'\<rparr>"
  have "handleUpload E ctx s = (Inr res, ?s')"
    using handleUpload_new [OF up(1-3)] d'(1) res(1) by (simp add: io_catch_def send_def io_return_def)
  moreover have "handleCheck E cctx ?s' = (Inr res1, ?s')"
    using check found hex res1(1)
    by (auto simp: handleCheck_def exists_meta_def send_def io_return_def hex_md5_def)
  moreover have "\<exists>res2. handleDownload E dctx ?s' = (Inr res2, ?s') \<and> res_status res2 = 200 \<and> res_body res2 = data"
    by (rule download_file) (use down d'(2,3) in simp_all)
  ultimately show ?thesis using res res1(2) by blast
qed

section \<open>An upload that meets the hypotheses\<close>

definition upload_parts :: "part list" where
  "upload_parts = [Upload ''file'' ''a.txt'' ''hi'']"

lemma upload_parts_ctx: "upload_ctx (form_ctx upload_parts Map.empty) ''a.txt'' ''hi'' ''default''"
proof -
  have "fst (get_form (form_ctx upload_parts Map.empty)) = fold form_of_part upload_parts empty_form"
    by (rule get_form_rendered) (simp_all add: upload_parts_def form_eval)
  then show ?thesis
    by (simp add: upload_ctx_def Let_def upload_parts_def get_param_def empty_form_def)
qed

lemma toy_md5_hi: "md5_hex toy_MD5 ''hi'' = ''02020202020202020202020202020248''"
  by code_simp

lemma sample_upload_path:
  "stored_path ''default'' (md5_hex toy_MD5 ''hi'') ''a.txt'' = ''default/02/02/02020202020202020202020202020248.txt''"
  unfolding toy_md5_hi
  by (simp add: stored_path_def stored_rel_def extension_def path_append_def filename_def is_absolute_def numeral_2_eq_2)

lemma sample_upload_vacant: "vacant (sample_disk []) 7 ''store/default/02/02/02020202020202020202020202020248.txt''"
proof -
  have "\<not> dir_only ''store/default/02/02/02020202020202020202020202020248.txt''" by (simp add: path_eval)
  from sample_temp_not_dir [OF this] show ?thesis
    by (simp add: vacant_def) (simp add: path_eval)
qed

section \<open>A prepared disk\<close>

definition prepared_disk :: disk where
  "prepared_disk = \<lparr>nodes = nodes (sample_disk []) @ [([''srv'', ''store''], Dir), ([''srv'', ''store'', ''_tmp''], Dir),
      ([''srv'', ''store'', ''_big''], Dir)], cwd = [''srv''], faults = []\<rparr>"

lemma sample_init: "FileStore_init sample_cfg (sample_disk []) = (Inr (), prepared_disk)"
  by (simp add: FileStore_init_def create_directories_def io_bind_def io_catch_def io_return_def guarded_def sys_def
      key_def resolve_def step_name_def is_absolute_def put_node_def node_at_def sample_disk_def prepared_disk_def)

lemma prepared_faults: "faults prepared_disk = []"
  by (simp add: prepared_disk_def)

end
