(* ===== verification/MergeProps.thy ===== *)
theory MergeProps
  imports UploadProps
begin

text \<open>
  Merging the chunks of a file.  \<open>handleMerge\<close> looks for them in a directory whose name has a
  blank that \<open>handleChunkUpload\<close> does not write, so chunks uploaded through the server are never
  found.  Where the directory it looks in does hold numbered chunks, the merged file is their
  concatenation in the order of the numbers.
\<close>

section \<open>Where the chunks are and where they are looked for\<close>

lemma key_slash:
  "p \<noteq> [] \<Longrightarrow> key d (p @ ''/'' @ q) = fold step_name (split_slash q) (key d p)"
  using split_slash_append [of p q] by (simp add: key_def resolve_def is_absolute_append)

lemma key_slash_name: "p \<noteq> [] \<Longrightarrow> plain_name x \<Longrightarrow> key d (p @ ''/'' @ x) = key d p @ [x]"
  using key_slash [of p d x] by (simp add: split_slash_single step_name_def plain_name_def)

text \<open>Names for which the two directories can be told apart.\<close>

definition plain_store :: "StoreConfig \<Rightarrow> bool" where
  "plain_store cfg \<longleftrightarrow> store_ready cfg \<and> plain_name (temp_dir cfg)"

lemma plain_storeD:
  "plain_store cfg \<Longrightarrow> store_ready cfg" "plain_store cfg \<Longrightarrow> root_dir cfg \<noteq> []"
  "plain_store cfg \<Longrightarrow> plain_name (temp_dir cfg)" "plain_store cfg \<Longrightarrow> plain_name (CHR '' '' # temp_dir cfg)"
  using store_ready_root [of cfg] by (auto simp: plain_store_def plain_name_def)

lemma merge_dir_key:
  assumes "plain_store cfg" "plain_name m"
  shows "merge_dir cfg m = root_dir cfg @ ''/'' @ (CHR '' '' # temp_dir cfg) @ ''/'' @ m"
    and "key d (merge_dir cfg m) = key d (root_dir cfg) @ [CHR '' '' # temp_dir cfg, m]"
proof -
  note t = plain_storeD [OF assms(1)]
  have f: "filename (root_dir cfg @ ''/'' @ (CHR '' '' # temp_dir cfg)) \<noteq> []"
    using t(4) by (subst filename_slash_name) (auto simp: plain_name_def)
  have "\<not> is_absolute m" using assms(2) by (cases m) (auto simp: plain_name_def is_absolute_def)
  with f show eq: "merge_dir cfg m = root_dir cfg @ ''/'' @ (CHR '' '' # temp_dir cfg) @ ''/'' @ m"
    by (simp add: merge_dir_def path_append_def get_root_dir_def get_temp_dir_def)
  have "key d (merge_dir cfg m) = key d ((root_dir cfg @ ''/'' @ (CHR '' '' # temp_dir cfg)) @ ''/'' @ m)"
    unfolding eq by simp
  also have "\<dots> = key d (root_dir cfg) @ [CHR '' '' # temp_dir cfg, m]"
    using t(2) assms(2) by (subst key_slash_name, simp, simp, subst key_slash_name [OF t(2,4)]) simp
  finally show "key d (merge_dir cfg m) = key d (root_dir cfg) @ [CHR '' '' # temp_dir cfg, m]" .
qed

lemma chunk_below:
  assumes "plain_store cfg" "\<not> contains ''..'' (chunk_rel cfg m i)"
  shows "prefix (key d (root_dir cfg) @ [temp_dir cfg]) (key d (chunk_dir cfg m @ ''/'' @ i))"
proof -
  note t = plain_storeD [OF assms(1)]
  have "''..'' \<notin> set (split_slash (chunk_rel cfg m i))" using no_dotdot [OF assms(2)] .
  then have nd: "''..'' \<notin> set (split_slash (m @ ''/'' @ i))"
    using split_slash_append [of "temp_dir cfg" "m @ ''/'' @ i"] by (simp add: chunk_rel_def)
  have "key d ((root_dir cfg @ ''/'' @ temp_dir cfg) @ ''/'' @ (m @ ''/'' @ i))
      = fold step_name (split_slash (m @ ''/'' @ i)) (key d (root_dir cfg @ ''/'' @ temp_dir cfg))"
    by (rule key_slash) simp
  then show ?thesis
    using fold_step_extends [OF nd] key_slash_name [OF t(2,3)] by (simp add: chunk_dir_def)
qed

text \<open>A chunk upload does not make or change the directory the merge looks in, whatever faults it
  meets.\<close>

lemma chunk_save_frame:
  assumes cfg: "plain_store cfg" and wf: "wf_disk d" and names: "plain_name i" "plain_name m"
    and run: "save_file_at cfg r data (chunk_rel cfg m' i) d = (res, d')"
  shows "wf_disk d'" "cwd d' = cwd d"
    "node_at d' (key d (merge_dir cfg m)) = node_at d (key d (merge_dir cfg m))"
proof -
  note t = plain_storeD [OF cfg]
  have "wf_disk d' \<and> cwd d' = cwd d \<and> node_at d' (key d (merge_dir cfg m)) = node_at d (key d (merge_dir cfg m))"
  proof (cases "contains ''..'' (chunk_rel cfg m' i)")
    case True
    with run wf show ?thesis by (simp add: save_file_at_def io_return_def)
  next
    case False
    let ?p = "chunk_dir cfg m' @ ''/'' @ i" and ?k = "key d (merge_dir cfg m)" and ?b = "key d (root_dir cfg) @ [temp_dir cfg]"
    have path: "path_append (root_dir cfg) (chunk_rel cfg m' i) = ?p"
      using chunk_path(1) [of cfg m' i] t(1) by (simp add: store_ready_def)
    have nd: "\<not> dir_only ?p" using chunk_key(2) [OF names(1) t(2)] .
    have below: "prefix ?b (key d ?p)" using chunk_below [OF cfg False] .
    have last: "key d ?p = key d (chunk_dir cfg m') @ [i]" using chunk_key(1) [OF names(1) t(2)] .
    have "prefix (key d (root_dir cfg) @ [temp_dir cfg]) (key d (chunk_dir cfg m'))"
      using fold_step_extends [of "split_slash m'" "?b"] False no_dotdot [OF False]
        key_slash [of "root_dir cfg @ ''/'' @ temp_dir cfg" d m'] key_slash_name [OF t(2,3), of d]
        split_slash_append [of "temp_dir cfg" "m' @ ''/'' @ i"] split_slash_append [of m' i]
      by (simp add: chunk_dir_def chunk_rel_def)
    then have temp: "prefix ?b (key d (temp_path ?p r))"
      using temp_path_shape(2) [OF nd, of d r] last by (simp add: prefix_prefix)
    note fr = save_file_at_frame [OF wf _ run, unfolded path, OF nd]
    have off: "\<not> prefix ?k j" if "prefix ?b j" for j
      using that merge_dir_key(2) [OF cfg names(2), of d] by (auto simp: prefix_def)
    show ?thesis
      using fr off [OF below] off [OF temp] changes_off [OF fr(2), of ?k] by (auto simp: changes_def on_way_def)
  qed
  then show "wf_disk d'" "cwd d' = cwd d"
    "node_at d' (key d (merge_dir cfg m)) = node_at d (key d (merge_dir cfg m))" by blast+
qed

section \<open>Uploaded chunks are not found\<close>

text \<open>The parameters of a merge form.\<close>

definition merge_form :: "HttpContext \<Rightarrow> string \<Rightarrow> string \<Rightarrow> string \<Rightarrow> bool" where
  "merge_form ctx m fname scn \<longleftrightarrow> (let form = fst (get_form ctx)
     in get_param form ''md5'' [] = m \<and> get_param form ''filename'' [] = fname
        \<and> get_param form ''scene'' ''default'' = scn \<and> m \<noteq> [] \<and> fname \<noteq> [])"

definition plain_chunk :: "HttpContext \<Rightarrow> bool" where
  "plain_chunk ctx \<longleftrightarrow> plain_name (get_param (fst (get_form ctx)) ''chunk'' [])"

lemma handleChunkUpload_frame:
  assumes cfg: "plain_store (env_cfg E)" and wf: "wf_disk (files s)" and names: "plain_chunk ctx" "plain_name m"
  shows "wf_disk (files (snd (handleChunkUpload E ctx s)))"
    and "lookup (files (snd (handleChunkUpload E ctx s))) (merge_dir (env_cfg E) m) = lookup (files s) (merge_dir (env_cfg E) m)"
proof -
  let ?form = "fst (get_form ctx)" and ?cfg = "env_cfg E"
  let ?m = "get_param ?form ''md5'' []" and ?i = "get_param ?form ''chunk'' []"
  obtain res d' where run: "save_file_at ?cfg (env_rand E) (form_content ?form) (chunk_rel ?cfg ?m ?i) (files s) = (res, d')"
    by (cases "save_file_at ?cfg (env_rand E) (form_content ?form) (chunk_rel ?cfg ?m ?i) (files s)")
  have "files (snd (handleChunkUpload E ctx s)) = files s \<or> files (snd (handleChunkUpload E ctx s)) = d'"
    using run by (cases res) (auto simp: handleChunkUpload_def Let_def chunk_rel_def get_temp_dir_def on_disk_def
        io_bind_def send_state split: if_splits)
  moreover note fr = chunk_save_frame [OF cfg wf _ names(2) run]
  ultimately show "wf_disk (files (snd (handleChunkUpload E ctx s)))"
    and "lookup (files (snd (handleChunkUpload E ctx s))) (merge_dir (env_cfg E) m) = lookup (files s) (merge_dir (env_cfg E) m)"
    using names(1) wf by (auto simp: plain_chunk_def lookup_def key_def)
qed

lemma merge_refused:
  assumes "lookup (files s) (merge_dir (env_cfg E) m) = None" "faults (files s) = []" "merge_form ctx m fname scn"
  shows "handleMerge E ctx s = send (error (env_json E) ctx ''Chunk directory not found or expired'' 400) s"
  using assms by (simp add: handleMerge_def merge_form_def Let_def on_disk_def fs_exists_def io_bind_def)

text \<open>C30: chunks uploaded through the server are never merged: when the directory the merge looks in
  (its name has a blank the chunk upload does not use) was not there before, then after any number
  of chunk uploads, successful or not, the merge of any of these files is refused and changes
  nothing.\<close>

theorem merge_never_finds_chunks:
  assumes "plain_store (env_cfg E)" "wf_disk (files s)" "plain_name m"
    "lookup (files s) (merge_dir (env_cfg E) m) = None" "\<forall>c \<in> set ctxs. plain_chunk c"
    and s': "s' = fold (\<lambda>c s. snd (handleChunkUpload E c s)) ctxs s" "faults (files s') = []"
    and form: "merge_form ctx m fname scn"
  shows "handleMerge E ctx s' = send (error (env_json E) ctx ''Chunk directory not found or expired'' 400) s'"
proof -
  have "lookup (files s') (merge_dir (env_cfg E) m) = None"
    using assms(2,4,5) unfolding s'(1)
  proof (induction ctxs arbitrary: s)
    case (Cons c ctxs)
    with handleChunkUpload_frame [OF assms(1) Cons.prems(1) _ assms(3), of c] show ?case by simp
  qed simp
  then show ?thesis by (rule merge_refused [OF _ s'(2) form])
qed

definition merge_parts :: "part list" where
  "merge_parts = [Field ''md5'' ''abcd'', Field ''filename'' ''a.txt'']"

lemma merge_parts_form: "merge_form (form_ctx merge_parts q) ''abcd'' ''a.txt'' ''default''"
proof -
  have "fst (get_form (form_ctx merge_parts q)) = fold form_of_part merge_parts empty_form"
    by (rule get_form_rendered) (simp_all add: merge_parts_def form_eval)
  then show ?thesis
    by (simp add: merge_form_def Let_def merge_parts_def get_param_def empty_form_def)
qed

theorem merge_never_finds_chunks_witness:
  "\<exists>res s'. handleChunkUpload sample_env (form_ctx chunk_parts Map.empty) sample_server = (Inr res, s')
     \<and> res_status res = 200
     \<and> handleMerge sample_env (form_ctx merge_parts Map.empty) s'
       = send (error ref_json (form_ctx merge_parts Map.empty) ''Chunk directory not found or expired'' 400) s'"
proof -
  obtain res d' where up: "handleChunkUpload sample_env (form_ctx chunk_parts Map.empty) sample_server
      = (Inr res, sample_server\<lparr>files := d'\<rparr>)" "res_status res = 200" "faults d' = []"
    using sample_chunk_upload by blast
  have "plain_store sample_cfg" "plain_name ''abcd''" "plain_chunk (form_ctx chunk_parts Map.empty)"
    using chunk_parts_form [of Map.empty]
    by (simp_all add: plain_store_def store_ready_def plain_name_def filename_def is_absolute_def plain_chunk_def
        chunk_form_def Let_def)
  moreover have "lookup (sample_disk []) (merge_dir sample_cfg ''abcd'') = None"
    by (simp add: merge_dir_def get_root_dir_def get_temp_dir_def) (simp add: path_eval)
  ultimately have "handleMerge sample_env (form_ctx merge_parts Map.empty) (sample_server\<lparr>files := d'\<rparr>)
      = send (error ref_json (form_ctx merge_parts Map.empty) ''Chunk directory not found or expired'' 400)
          (sample_server\<lparr>files := d'\<rparr>)"
    using merge_never_finds_chunks [of sample_env sample_server "''abcd''" "[form_ctx chunk_parts Map.empty]"
        "sample_server\<lparr>files := d'\<rparr>" "form_ctx merge_parts Map.empty" "''a.txt''" "''default''"]
      merge_parts_form [of Map.empty] up by simp
  with up show ?thesis by blast
qed

section \<open>Merging numbered chunks\<close>

lemma append_chunks_ok:
  assumes "faults d = []" "wf_disk d" "node_at d k = Some (File t)" "k = key d out" "k \<noteq> []"
    and "\<forall>i \<in> set is. lookup d (path_append dir (to_string_int i)) = Some (File (f i)) \<and> f i \<noteq> []
      \<and> key d (path_append dir (to_string_int i)) \<noteq> k"
  shows "\<exists>d'. append_chunks out dir True is d = (Inr (), d') \<and> faults d' = [] \<and> wf_disk d' \<and> cwd d' = cwd d
    \<and> node_at d' = (node_at d)(k \<mapsto> File (t @ concat (map f is)))"
  using assms
proof (induction "is" arbitrary: d t)
  case Nil
  then show ?case by (auto simp: io_return_def)
next
  case (Cons i "is")
  let ?d = "put_node k (File (t @ f i)) d"
  have at: "node_at ?d = (node_at d)(k \<mapsto> File (t @ f i))"
    using Cons.prems(5) by (auto simp: fun_eq_iff node_at_put)
  have wf: "wf_disk ?d"
    using Cons.prems wf_parent by (intro wf_put) auto
  have look: "lookup ?d (path_append dir (to_string_int j)) = Some (File (f j))" if "j \<in> set is" for j
    using Cons.prems(6) that at by (auto simp: lookup_def)
  have pre: "faults ?d = []" "node_at ?d k = Some (File (t @ f i))" "k = key ?d out"
      "\<forall>i \<in> set is. lookup ?d (path_append dir (to_string_int i)) = Some (File (f i)) \<and> f i \<noteq> []
        \<and> key ?d (path_append dir (to_string_int i)) \<noteq> k"
    using Cons.prems look at by auto
  obtain d' where d': "append_chunks out dir True is ?d = (Inr (), d')" "faults d' = []" "wf_disk d'"
      "cwd d' = cwd ?d" "node_at d' = (node_at ?d)(k \<mapsto> File ((t @ f i) @ concat (map f is)))"
    using Cons.IH [OF pre(1) wf pre(2,3) Cons.prems(5) pre(4)] by blast
  have "node_at d' = (node_at d)(k \<mapsto> File (t @ concat (map f (i # is))))"
    unfolding d'(5) at by simp
  with d'(1-4) show ?case
    using Cons.prems by (auto simp: io_bind_def ifs_open_def ofs_write_def content_def Let_def)
qed

lemma map_of_filter_key: "map_of (filter (\<lambda>e. P (fst e)) xs) k = (if P k then map_of xs k else None)"
  by (induction xs) auto

lemma node_at_remove_all:
  "node_at (d\<lparr>nodes := filter (\<lambda>e. \<not> prefix k (fst e)) (nodes d)\<rparr>) j
    = (if j = [] then Some Dir else if prefix k j then None else node_at d j)"
  using map_of_filter_key [of "\<lambda>x. \<not> prefix k x" "nodes d" j] by (simp add: node_at_def)

lemma distinct_children:
  assumes "wf_disk d"
  shows "distinct (map fst (children d k))"
proof -
  have "distinct (map fst [(last j, n). (j, n) \<leftarrow> xs, j \<noteq> [], butlast j = k])"
    if "distinct (map fst xs)" for xs :: "(string list \<times> node) list"
    using that
  proof (induction xs)
    case (Cons x xs)
    have "j = fst x" if "j \<noteq> []" "fst x \<noteq> []" "butlast j = butlast (fst x)" "last j = last (fst x)" for j
      using that by (metis append_butlast_last_id)
    with Cons show ?case by (cases x) force
  qed simp
  with assms show ?thesis by (simp add: children_def wf_disk_def)
qed

lemma parent_path_slash:
  assumes "CHR ''/'' \<notin> set x" "p \<noteq> []" "last p \<noteq> CHR ''/''"
  shows "parent_path (p @ ''/'' @ x) = p"
proof -
  have "dropWhile (\<lambda>c. c \<noteq> CHR ''/'') (rev x @ CHR ''/'' # rev p) = CHR ''/'' # rev p"
    using assms(1) by (subst dropWhile_append2) auto
  moreover have "dropWhile (\<lambda>c. c = CHR ''/'') (rev p) = rev p"
    using assms(2,3) by (cases p rule: rev_cases) auto
  ultimately have "dir_part (p @ ''/'' @ x) = p" by (simp add: dir_part_def)
  with assms(2) show ?thesis by (simp add: parent_path_def)
qed

text \<open>The temporary file of the merge.\<close>

definition merged_file :: "StoreConfig \<Rightarrow> string \<Rightarrow> string" where
  "merged_file cfg m = path_append (parent_path (merge_dir cfg m)) (m @ ''.merged'')"

lemma merged_file_key:
  assumes "plain_store cfg" "plain_name m"
  shows "key d (merged_file cfg m) = key d (root_dir cfg) @ [CHR '' '' # temp_dir cfg, m @ ''.merged'']"
    and "\<not> dir_only (merged_file cfg m)"
proof -
  note t = plain_storeD [OF assms(1)]
  let ?b = "root_dir cfg @ ''/'' @ (CHR '' '' # temp_dir cfg)"
  have x: "plain_name (m @ ''.merged'')" using assms(2) by (auto simp: plain_name_def)
  have "last ?b \<noteq> CHR ''/''" using t(3) by (auto simp: plain_name_def dest: last_in_set)
  then have "parent_path (?b @ ''/'' @ m) = ?b"
    using assms(2) by (intro parent_path_slash) (auto simp: plain_name_def)
  moreover have "filename ?b \<noteq> []"
    using t(4) by (subst filename_slash_name) (auto simp: plain_name_def)
  moreover have "\<not> is_absolute (m @ ''.merged'')"
    using assms(2) by (cases m) (auto simp: plain_name_def is_absolute_def)
  ultimately have eq: "merged_file cfg m = ?b @ ''/'' @ (m @ ''.merged'')"
    using merge_dir_key(1) [OF assms] by (simp add: merged_file_def path_append_def)
  show "key d (merged_file cfg m) = key d (root_dir cfg) @ [CHR '' '' # temp_dir cfg, m @ ''.merged'']"
    unfolding eq using key_slash_name [of ?b "m @ ''.merged''" d, OF _ x] key_slash_name [OF t(2,4), of d] by simp
  have "filename (merged_file cfg m) = m @ ''.merged''"
    unfolding eq using x by (intro filename_slash_name) (simp add: plain_name_def)
  then show "\<not> dir_only (merged_file cfg m)"
    using x by (auto simp: dir_only_def plain_name_def)
qed

text \<open>
  The disk before a merge: the chunk directory is there and its files are the chunks, named by
  their numbers; the target can be created and is not inside the directory of the chunks.
\<close>

definition numbered :: "disk \<Rightarrow> string \<Rightarrow> nat set \<Rightarrow> (nat \<Rightarrow> string) \<Rightarrow> bool" where
  "numbered d dir N f \<longleftrightarrow> lookup d dir = Some Dir \<and> finite N \<and> N \<noteq> {} \<and> (\<forall>i \<in> N. i < 2 ^ 31 \<and> f i \<noteq> [])
     \<and> (\<forall>x n. node_at d (key d dir @ [x]) = Some n \<longleftrightarrow> (\<exists>i \<in> N. x = to_string_nat i \<and> n = File (f i)))"

definition merge_target :: "StoreConfig \<Rightarrow> string \<Rightarrow> string \<Rightarrow> string \<Rightarrow> string" where
  "merge_target cfg scn m fname = path_append (path_append (root_dir cfg) scn) (stored_rel m fname)"

definition merge_ready :: "StoreConfig \<Rightarrow> disk \<Rightarrow> string \<Rightarrow> string \<Rightarrow> bool" where
  "merge_ready cfg d m p \<longleftrightarrow> wf_disk d \<and> faults d = [] \<and> creatable d p
     \<and> node_at d (key d (merged_file cfg m)) \<noteq> Some Dir
     \<and> \<not> prefix (key d (root_dir cfg) @ [CHR '' '' # temp_dir cfg]) (key d p)"

lemma chunk_of_merge_dir:
  assumes "plain_store cfg" "plain_name m"
  shows "key d (path_append (merge_dir cfg m) (to_string_nat i)) = key d (merge_dir cfg m) @ [to_string_nat i]"
    and "\<not> dir_only (path_append (merge_dir cfg m) (to_string_nat i))"
    and "path_append (merge_dir cfg m) (to_string_nat i) \<noteq> []"
proof -
  have "filename (merge_dir cfg m) = m"
    using filename_slash_name [of m "root_dir cfg @ ''/'' @ (CHR '' '' # temp_dir cfg)"] merge_dir_key(1) [OF assms] assms(2)
    by (simp add: plain_name_def)
  moreover have "\<not> is_absolute (to_string_nat i)"
    using to_string_nat_plain(1) [of i] by (cases "to_string_nat i") (auto simp: plain_name_def is_absolute_def)
  ultimately have eq: "path_append (merge_dir cfg m) (to_string_nat i) = merge_dir cfg m @ ''/'' @ to_string_nat i"
    using assms(2) by (simp add: path_append_def plain_name_def)
  have ne: "merge_dir cfg m \<noteq> []" using merge_dir_key(1) [OF assms] by simp
  show "key d (path_append (merge_dir cfg m) (to_string_nat i)) = key d (merge_dir cfg m) @ [to_string_nat i]"
    unfolding eq by (rule key_slash_name [OF ne to_string_nat_plain(1)])
  have "filename (path_append (merge_dir cfg m) (to_string_nat i)) = to_string_nat i"
    unfolding eq using to_string_nat_plain(1) [of i] by (intro filename_slash_name) (simp add: plain_name_def)
  then show "\<not> dir_only (path_append (merge_dir cfg m) (to_string_nat i))"
    using to_string_nat_plain(1) [of i] by (auto simp: dir_only_def plain_name_def)
  show "path_append (merge_dir cfg m) (to_string_nat i) \<noteq> []"
    unfolding eq by simp
qed

lemma collect_chunks:
  assumes cfg: "plain_store cfg" "plain_name m" and rdy: "merge_ready cfg d m p"
    and N: "numbered d (merge_dir cfg m) N f" "set is \<subseteq> N"
  shows "\<exists>d1 d2. ofs_open (merged_file cfg m) d = (Inr True, d1)
    \<and> append_chunks (merged_file cfg m) (merge_dir cfg m) True (map int is) d1 = (Inr (), d2)
    \<and> faults d2 = [] \<and> wf_disk d2 \<and> cwd d2 = cwd d
    \<and> node_at d2 = (node_at d)(key d (merged_file cfg m) \<mapsto> File (concat (map f is)))"
proof -
  let ?k = "key d (merged_file cfg m)" and ?dir = "merge_dir cfg m"
  let ?d1 = "put_node ?k (File []) d"
  note mk = merged_file_key [OF cfg] and dk = merge_dir_key(2) [OF cfg]
  have wf: "wf_disk d" "faults d = []" using rdy by (simp_all add: merge_ready_def)
  have "node_at d (key d ?dir) = Some Dir" using N(1) by (simp add: numbered_def lookup_dir)
  from wf_parent [OF wf(1) this] have w: "writable d (merged_file cfg m)"
    using rdy mk dk [of d] by (simp add: writable_def merge_ready_def butlast_append)
  then have opened: "ofs_open (merged_file cfg m) d = (Inr True, ?d1)"
    using wf(2) by (simp add: ofs_open_def io_bind_def)
  have at: "node_at ?d1 = (node_at d)(?k \<mapsto> File [])" using mk(1) by (auto simp: fun_eq_iff node_at_put)
  have wf1: "wf_disk ?d1" using wf(1) w mk(1) by (intro wf_put) (auto simp: writable_def)
  have "lookup ?d1 (path_append ?dir (to_string_int j)) = Some (File (f (nat j))) \<and> f (nat j) \<noteq> []
      \<and> key ?d1 (path_append ?dir (to_string_int j)) \<noteq> ?k" if j: "j \<in> set (map int is)" for j
  proof -
    obtain i where i: "j = int i" "i \<in> N" using j N(2) by auto
    have "node_at d (key d ?dir @ [to_string_nat i]) = Some (File (f i))" "f i \<noteq> []"
      using N(1) i(2) by (auto simp: numbered_def)
    moreover have "key d ?dir @ [to_string_nat i] \<noteq> ?k"
      using mk(1) [of d] dk [of d] by simp
    ultimately show ?thesis
      using i(1) chunk_of_merge_dir(1) [OF cfg, of d i] chunk_of_merge_dir(2,3) [OF cfg, of i] at by (simp add: lookup_file to_string_int_def)
  qed
  then have "\<exists>d2. append_chunks (merged_file cfg m) ?dir True (map int is) ?d1 = (Inr (), d2) \<and> faults d2 = []
      \<and> wf_disk d2 \<and> cwd d2 = cwd ?d1
      \<and> node_at d2 = (node_at ?d1)(?k \<mapsto> File ([] @ concat (map (\<lambda>j. f (nat j)) (map int is))))"
    using wf(2) mk(1) [of d] by (intro append_chunks_ok [OF _ wf1]) (auto simp: node_at_put)
  with opened show ?thesis by (auto simp: at comp_def)
qed

text \<open>Moving the merged file to its place and dropping the chunks.\<close>

lemma place_merged:
  assumes cfg: "plain_store cfg" "plain_name m" and rdy: "merge_ready cfg d m p" and sl: "CHR ''/'' \<in> set p"
    and dir: "lookup d (merge_dir cfg m) = Some Dir"
    and d2: "faults d2 = []" "wf_disk d2" "cwd d2 = cwd d"
      "node_at d2 = (node_at d)(key d (merged_file cfg m) \<mapsto> File c)"
  shows "\<exists>d3 d4 d5. create_directories (parent_path p) d2 = (Inr (), d3) \<and> fs_rename (merged_file cfg m) p d3 = (Inr (), d4)
    \<and> remove_all (merge_dir cfg m) d4 = (Inr (), d5) \<and> file_size p d5 = (Inr (length c), d5)
    \<and> faults d5 = [] \<and> lookup d5 p = Some (File c) \<and> lookup d5 (merge_dir cfg m) = None"
proof -
  define b where "b = key d (root_dir cfg) @ [CHR '' '' # temp_dir cfg]"
  let ?k = "key d (merged_file cfg m)"
  have mk: "?k = b @ [m @ ''.merged'']" and nm: "\<not> dir_only (merged_file cfg m)"
    using merged_file_key [OF cfg] by (simp_all add: b_def)
  have dk: "key d (merge_dir cfg m) = b @ [m]" using merge_dir_key(2) [OF cfg, of d] by (simp add: b_def)
  have cr: "creatable d p" and off: "\<not> prefix b (key d p)" using rdy by (simp_all add: merge_ready_def b_def)
  have nd: "\<not> dir_only p" using cr by (simp add: creatable_def)
  have k2: "key d2 q = key d q" for q using d2(3) by (simp add: key_def)
  have nek: "\<not> prefix (b @ [x]) j" if "prefix j (key d p)" for j x
    using off that by (meson append_prefixD prefix_order.trans)
  have par: "parent_path p \<noteq> []" using parent_path_not_Nil [OF sl] .
  have kp: "key d2 (parent_path p) = butlast (key d p)" using resolve_parent [OF nd par] k2 by (simp add: key_def)
  have "node_at d2 j = node_at d j" if "prefix j (butlast (key d p))" for j
    using nek [OF prefix_order.trans [OF that prefixeq_butlast]] mk d2(4) by auto
  then have "clear_way d2 (butlast (key d p))"
    using cr by (simp add: clear_way_def creatable_def)
  then obtain d3 where d3: "create_directories (parent_path p) d2 = (Inr (), d3)" "faults d3 = []" "wf_disk d3"
      "cwd d3 = cwd d2" "node_at d3 (butlast (key d p)) = Some Dir"
      "\<forall>j. \<not> prefix j (butlast (key d p)) \<longrightarrow> node_at d3 j = node_at d2 j"
    using create_directories_ok [OF d2(1) _ par d2(2)] kp by (auto simp: changes_def)
  have k3: "key d3 q = key d q" for q using d3(4) k2 by (simp add: key_def)
  have out: "node_at d3 (b @ [x]) = node_at d2 (b @ [x])" for x
    using d3(6) nek [of "b @ [x]" x] prefix_order.trans [OF _ prefixeq_butlast] by blast
  have nekp: "key d p \<noteq> []" "b @ [x] \<noteq> key d p" for x using key_not_Nil [OF nd] nek [of "key d p" x] by auto
  have at3: "node_at d3 ?k = Some (File c)" "node_at d3 (b @ [m]) = Some Dir"
    using out d2(4) mk dk dir by (simp_all add: lookup_dir)
  have "node_at d3 (key d p) = node_at d (key d p)"
    using d3(6) not_prefix_butlast [OF nekp(1), of "key d p"] d2(4) mk nekp(2) [of "m @ ''.merged''"] by auto
  then have atp: "node_at d3 (key d p) \<noteq> Some Dir" using cr by (simp add: creatable_def)
  let ?d4 = "put_node (key d p) (File c) (del_node ?k d3)"
  have "lookup d3 (merged_file cfg m) = Some (File c)" "writable d3 p"
    using at3(1) atp nm k3 d3(5) nd by (auto simp: lookup_file writable_def dir_only_def filename_def)
  then have ren: "fs_rename (merged_file cfg m) p d3 = (Inr (), ?d4)"
    using d3(2) k3 by (simp add: fs_rename_def)
  have at4: "node_at ?d4 (b @ [m]) = Some Dir" using at3(2) mk nekp(2) [of m] by (simp add: node_at_put node_at_del)
  let ?d5 = "?d4\<lparr>nodes := filter (\<lambda>e. \<not> prefix (b @ [m]) (fst e)) (nodes ?d4)\<rparr>"
  have k5: "key ?d5 q = key d q" for q using k3 by (simp add: key_def)
  have "lookup ?d4 (merge_dir cfg m) = Some Dir"
    using at4 dk k3 dir by (simp add: lookup_dir)
  then have rem: "remove_all (merge_dir cfg m) ?d4 = (Inr (), ?d5)"
    using d3(2) dk k3 by (simp add: remove_all_def)
  have "node_at ?d5 (key d p) = Some (File c)" "node_at ?d5 (b @ [m]) = None"
    using nek [of "key d p" m] nekp(1) by (simp_all add: node_at_remove_all node_at_put)
  then have "lookup ?d5 p = Some (File c)" "lookup ?d5 (merge_dir cfg m) = None"
    using nd dk temp_path_shape(5) [OF nd] by (simp_all add: lookup_file lookup_def k5)
  with d3(1,2) ren rem show ?thesis
    by (intro exI [of _ d3] exI [of _ ?d4] exI [of _ ?d5]) (simp add: file_size_def)
qed

lemma merge_files_ok:
  assumes cfg: "plain_store cfg" and m: "hex_md5 m"
    and rdy: "merge_ready cfg d m (merge_target cfg scn m fname)" "CHR ''/'' \<in> set (merge_target cfg scn m fname)"
    and N: "numbered d (merge_dir cfg m) N f" "set is \<subseteq> N"
  shows "\<exists>d'. merge_files cfg m fname scn (map int is) d
      = (Inr (stored_path scn m fname, length (concat (map f is))), d') \<and> faults d' = []
    \<and> lookup d' (merge_target cfg scn m fname) = Some (File (concat (map f is))) \<and> lookup d' (merge_dir cfg m) = None"
proof -
  have pm: "plain_name m"
    using hex_md5_no_slash [OF m] m by (auto simp: plain_name_def hex_md5_def)
  obtain d1 d2 where d2: "ofs_open (merged_file cfg m) d = (Inr True, d1)"
      "append_chunks (merged_file cfg m) (merge_dir cfg m) True (map int is) d1 = (Inr (), d2)"
      "faults d2 = []" "wf_disk d2" "cwd d2 = cwd d"
      "node_at d2 = (node_at d)(key d (merged_file cfg m) \<mapsto> File (concat (map f is)))"
    using collect_chunks [OF cfg pm rdy(1) N] by blast
  have dir: "lookup d (merge_dir cfg m) = Some Dir" using N(1) by (simp add: numbered_def)
  obtain d3 d4 d5 where d5: "create_directories (parent_path (merge_target cfg scn m fname)) d2 = (Inr (), d3)"
      "fs_rename (merged_file cfg m) (merge_target cfg scn m fname) d3 = (Inr (), d4)"
      "remove_all (merge_dir cfg m) d4 = (Inr (), d5)"
      "file_size (merge_target cfg scn m fname) d5 = (Inr (length (concat (map f is))), d5)"
      "faults d5 = []" "lookup d5 (merge_target cfg scn m fname) = Some (File (concat (map f is)))"
      "lookup d5 (merge_dir cfg m) = None"
    using place_merged [OF cfg pm rdy dir d2(3-6)] by blast
  obtain base where base: "md5_to_rel_path m = Inr base" "base @ extension fname = stored_rel m fname"
    using stored_rel_eq [OF m] by blast
  have "merge_files cfg m fname scn (map int is) d = (Inr (stored_path scn m fname, length (concat (map f is))), d5)"
    using d2(1-3) d5(1-4)
    by (simp add: merge_files_def Let_def merged_file_def [symmetric] io_bind_def ofs_close_def io_return_def base
        merge_target_def [symmetric] get_root_dir_def stored_path_def)
  with d5(5-7) show ?thesis by blast
qed

lemma map_filter_Some: "(\<And>x. x \<in> set xs \<Longrightarrow> g x = Some (h x)) \<Longrightarrow> List.map_filter g xs = map h xs"
  by (induction xs) (auto simp: map_filter_simps)

lemma sort_map_int: "distinct xs \<Longrightarrow> set xs = N \<Longrightarrow> sort (map int xs) = map int (sorted_list_of_set N)"
  by (rule sorted_distinct_set_unique) (auto simp: distinct_map sorted_wrt_map)

text \<open>What the scan of a directory of numbered files gives.\<close>

lemma numbered_indices:
  assumes wf: "wf_disk d" and N: "numbered d dir N f"
  shows "sort (List.map_filter shard_index_of (children d (key d dir))) = map int (sorted_list_of_set N)"
proof -
  let ?es = "children d (key d dir)" and ?g = "\<lambda>e. nat (the (shard_index_of e))"
  have e: "(\<exists>i \<in> N. e = (to_string_nat i, File (f i)))" if "e \<in> set ?es" for e
    using that N children_iff [OF wf, of "fst e" "snd e" "key d dir"] by (auto simp: numbered_def prod_eq_iff)
  have idx: "shard_index_of (to_string_nat i, File (f i)) = Some (int i)" if "i \<in> N" for i
    using that N stoi_to_string_nat [of i "[]"] by (auto simp: numbered_def shard_index_of_def)
  have sh: "shard_index_of e = Some (int (?g e))" if "e \<in> set ?es" for e
    using e [OF that] idx by auto
  have is_idx: "List.map_filter shard_index_of ?es = map int (map ?g ?es)"
    using map_filter_Some [of ?es shard_index_of "\<lambda>e. int (?g e)"] sh by (simp add: comp_def)
  have "set (map ?g ?es) = N"
  proof
    show "set (map ?g ?es) \<subseteq> N" using e idx by fastforce
    have "(to_string_nat i, File (f i)) \<in> set ?es" if "i \<in> N" for i
      using that N children_iff [OF wf, of "to_string_nat i" "File (f i)" "key d dir"] by (auto simp: numbered_def)
    then show "N \<subseteq> set (map ?g ?es)" using idx by force
  qed
  moreover have "inj_on ?g (set ?es)"
  proof (rule inj_onI)
    fix a b assume "a \<in> set ?es" "b \<in> set ?es" "?g a = ?g b"
    with e [of a] e [of b] idx show "a = b" by auto
  qed
  then have "distinct (map ?g ?es)"
    using distinct_children [OF wf, of "key d dir"] by (simp add: distinct_map)
  ultimately have "sort (map int (map ?g ?es)) = map int (sorted_list_of_set N)"
    by (rule sort_map_int [rotated])
  then show ?thesis by (simp add: is_idx)
qed

lemma merge_target_slash:
  assumes "plain_store cfg" "hex_md5 m"
  shows "CHR ''/'' \<in> set (merge_target cfg scn m fname)"
  unfolding merge_target_def
  using plain_storeD(2) [OF assms(1)]
  by (intro path_append_slash [OF stored_rel_not_absolute [OF assms(2)]]) (auto simp: path_append_def is_absolute_def)

text \<open>C4: where the directory the merge looks in holds the chunks as non-empty files named by their
  numbers, the merge answers with success, the file at the storage path is the concatenation of
  the chunks in the order of their numbers (not of their names), and the chunk directory is
  gone.\<close>

theorem merge_concatenates:
  assumes J: "json_codec (env_json E)" and cfg: "plain_store (env_cfg E)" and m: "hex_md5 m"
    and form: "merge_form ctx m fname scn"
    and N: "numbered (files s) (merge_dir (env_cfg E) m) N f"
    and rdy: "merge_ready (env_cfg E) (files s) m (merge_target (env_cfg E) scn m fname)"
    and texts: "ascii fname" "ascii scn" "ascii (get_domain (meta_store s))"
  shows "\<exists>res s'. handleMerge E ctx s = (Inr res, s') \<and> res_status res = 200
    \<and> lookup (files s') (merge_target (env_cfg E) scn m fname) = Some (File (concat (map f (sorted_list_of_set N))))
    \<and> lookup (files s') (merge_dir (env_cfg E) m) = None"
proof -
  let ?dir = "merge_dir (env_cfg E) m" and ?is = "sorted_list_of_set N" and ?c = "concat (map f (sorted_list_of_set N))"
  have wf: "wf_disk (files s)" "faults (files s) = []" using rdy by (simp_all add: merge_ready_def)
  have dir: "lookup (files s) ?dir = Some Dir" and fin: "finite N" "N \<noteq> {}" using N by (auto simp: numbered_def)
  note idx = numbered_indices [OF wf(1) N]
  have ne: "List.map_filter shard_index_of (children (files s) (key (files s) ?dir)) \<noteq> []"
    using idx fin by (auto simp: sorted_list_of_set.sorted_key_list_of_set_eq_Nil_iff)
  obtain d' where d': "merge_files (env_cfg E) m fname scn (map int ?is) (files s) = (Inr (stored_path scn m fname, length ?c), d')"
      "lookup d' (merge_target (env_cfg E) scn m fname) = Some (File ?c)" "lookup d' ?dir = None"
    using merge_files_ok [OF cfg m rdy merge_target_slash [OF cfg m] N, of ?is] fin by auto
  define meta where "meta = new_meta E (meta_store s) fname scn m (length ?c) (stored_path scn m fname)"
  obtain ok st' where st': "save_meta (env_db E) (env_json E) meta (meta_store s) = (ok, st')"
    by (cases "save_meta (env_db E) (env_json E) meta (meta_store s)")
  let ?url = "get_domain st' @ ''/'' @ path meta"
  have "ascii_json (upload_data ?url meta)"
    using texts ascii_hex [OF m] ascii_stored_path [OF m texts(2,1)] save_meta_config [OF st']
    by (intro upload_data_text) (simp_all add: meta_def new_meta_def)
  then obtain res where res: "success (env_json E) ctx (upload_data ?url meta) ''Merge success'' = Inr res" "res_status res = 200"
    using success_sends [OF J _ upload_data_text(2), of ?url meta "''Merge success''" ctx] by auto
  have "merge_chunks E ctx m fname scn s = (Inr res, s\<lparr>files := d', meta_store := st'\<rparr>)"
    using wf(2) dir ne d'(1) st' res(1)
    by (simp add: merge_chunks_def on_disk_def directory_iterator_def io_bind_def Let_def idx keep_meta_def
        meta_def [symmetric] send_def io_return_def)
  then have "handleMerge E ctx s = (Inr res, s\<lparr>files := d', meta_store := st'\<rparr>)"
    using form wf(2) dir
    by (simp add: handleMerge_def merge_form_def Let_def on_disk_def fs_exists_def io_bind_def io_catch_def)
  with res(2) d'(2,3) show ?thesis by auto
qed

section \<open>A merge that meets the hypotheses\<close>

definition merge_md5 :: string where
  "merge_md5 = ''0123456789abcdef0123456789abcdef''"

definition merge_nodes :: "(string list \<times> node) list" where
  "merge_nodes = [([''srv''], Dir), ([''srv'', ''store''], Dir), ([''srv'', ''store'', '' _tmp''], Dir),
     ([''srv'', ''store'', '' _tmp'', merge_md5], Dir),
     ([''srv'', ''store'', '' _tmp'', merge_md5, ''10''], File ''ten''),
     ([''srv'', ''store'', '' _tmp'', merge_md5, ''9''], File ''nine,'')]"

definition merge_disk :: disk where
  "merge_disk = \<lparr>nodes = merge_nodes, cwd = [''srv''], faults = []\<rparr>"

definition merge_request :: "part list" where
  "merge_request = [Field ''md5'' merge_md5, Field ''filename'' ''a.txt'']"

lemma merge_request_form: "merge_form (form_ctx merge_request q) merge_md5 ''a.txt'' ''default''"
proof -
  have "fst (get_form (form_ctx merge_request q)) = fold form_of_part merge_request empty_form"
    by (rule get_form_rendered) (simp_all add: merge_request_def form_eval merge_md5_def)
  then show ?thesis
    by (simp add: merge_form_def Let_def merge_request_def get_param_def empty_form_def merge_md5_def)
qed

lemma merge_disk_simps [simp]:
  "key merge_disk p = resolve [''srv''] p" "faults merge_disk = []" "wf_disk merge_disk"
  by (auto simp: key_def merge_disk_def merge_nodes_def wf_disk_def node_at_def)

lemma merge_disk_node: "node_at merge_disk k = (if k = [] then Some Dir else map_of merge_nodes k)"
  by (simp add: node_at_def merge_disk_def)

lemma merge_target_sample:
  "merge_target sample_cfg ''default'' merge_md5 ''a.txt'' = ''store/default/01/23/0123456789abcdef0123456789abcdef.txt''"
  by (simp add: merge_target_def stored_rel_def merge_md5_def extension_def path_append_def filename_def is_absolute_def
      numeral_2_eq_2)

lemma merge_sample_cfg: "plain_store sample_cfg" "hex_md5 merge_md5" "plain_name merge_md5"
  by (simp_all add: plain_store_def store_ready_def plain_name_def filename_def is_absolute_def merge_md5_def
      hex_md5_def isxdigit_def is_digit_def)

lemma merge_sample_key: "resolve [''srv''] (merge_dir sample_cfg merge_md5) = [''srv'', ''store'', '' _tmp'', merge_md5]"
  using merge_dir_key(2) [OF merge_sample_cfg(1,3), of merge_disk] by (simp add: resolve_def step_name_def is_absolute_def)

lemma merge_sample_numbered:
  "numbered merge_disk (merge_dir sample_cfg merge_md5) {9, 10} (\<lambda>i. if i = 9 then ''nine,'' else ''ten'')"
proof -
  have names: "to_string_nat 9 = ''9''" "to_string_nat 10 = ''10''"
    by (simp_all add: to_string_nat.simps digit_char_def char_of_def bit_iff_odd)
  have ne: "merge_dir sample_cfg merge_md5 \<noteq> []" using merge_dir_key(1) [OF merge_sample_cfg(1,3)] by simp
  show ?thesis
    using ne by (auto simp: numbered_def lookup_def merge_sample_key names) (auto simp: merge_disk_node merge_nodes_def split: if_splits)
qed

lemma merge_sample_ready:
  "merge_ready sample_cfg merge_disk merge_md5 ''store/default/01/23/0123456789abcdef0123456789abcdef.txt''"
proof -
  have "resolve [''srv''] (merged_file sample_cfg merge_md5) = [''srv'', ''store'', '' _tmp'', merge_md5 @ ''.merged'']"
    using merged_file_key(1) [OF merge_sample_cfg(1,3), of merge_disk] by (simp add: resolve_def step_name_def is_absolute_def)
  then show ?thesis
    by (simp add: merge_ready_def) (simp add: path_eval merge_disk_node merge_nodes_def)
qed

theorem merge_concatenates_witness:
  "\<exists>res s'. handleMerge sample_env (form_ctx merge_request Map.empty) (sample_server\<lparr>files := merge_disk\<rparr>) = (Inr res, s')
     \<and> res_status res = 200
     \<and> lookup (files s') ''store/default/01/23/0123456789abcdef0123456789abcdef.txt'' = Some (File ''nine,ten'')"
proof -
  have "ascii (get_domain sample_empty)"
    by (simp add: get_domain_def sample_empty_def MetadataStore_open_def default_metaConfig_def)
  then show ?thesis
    using merge_concatenates [of sample_env merge_md5 "form_ctx merge_request Map.empty" "''a.txt''" "''default''"
        "sample_server\<lparr>files := merge_disk\<rparr>" "{9, 10}" "\<lambda>i. if i = 9 then ''nine,'' else ''ten''"]
      ref_codec.json_codec_axioms merge_sample_cfg merge_request_form merge_sample_numbered merge_sample_ready
    by (auto simp: merge_target_sample)
qed

end
