(* ===== verification/Metrics.thy ===== *)
theory Metrics
  imports Prelude
begin

text \<open>
  The process-wide counters of \<open>common/global.cc\<close>.  They are atomics of fixed width and wrap
  around; an update is one step.
\<close>

record metrics =
  total_requests :: "64 word"
  bytes_sent :: "64 word"
  bytes_received :: "64 word"
  active_connections :: "32 word"
  total_latency_us :: "64 word"
  max_latency_us :: "32 word"

definition init_metrics :: metrics where
  "init_metrics = \<lparr>total_requests = 0, bytes_sent = 0, bytes_received = 0, active_connections = 0,
     total_latency_us = 0, max_latency_us = 0\<rparr>"

text \<open>
  What \<open>on_write\<close> does with the duration of a request in microseconds.  The loop around
  \<open>compare_exchange_weak\<close> stores the duration, narrowed to \<open>int\<close>, when it exceeds the maximum;
  its failed attempts change nothing.
\<close>

definition record_latency :: "int \<Rightarrow> metrics \<Rightarrow> metrics" where
  "record_latency duration m =
     (if 0 < duration
      then let m' = m\<lparr>total_latency_us := total_latency_us m + word_of_int duration\<rparr>;
               current_max = sint (max_latency_us m')
           in if current_max < duration then m'\<lparr>max_latency_us := word_of_int duration\<rparr> else m'
      else m)"

lemma record_latency_same [simp]:
  "total_requests (record_latency t m) = total_requests m" "bytes_sent (record_latency t m) = bytes_sent m"
  "bytes_received (record_latency t m) = bytes_received m"
  "active_connections (record_latency t m) = active_connections m"
  by (simp_all add: record_latency_def Let_def)

text \<open>Below 2147483648 microseconds the maximum is the maximum.\<close>

lemma record_latency_max:
  assumes "0 \<le> sint (max_latency_us m)" "t < 2 ^ 31"
  shows "sint (max_latency_us (record_latency t m)) = max (sint (max_latency_us m)) t"
proof -
  have "sint (word_of_int t :: 32 word) = t" if "0 < t"
    using assms(2) that by (simp add: signed_of_int signed_take_bit_int_eq_self_iff)
  then show ?thesis
    using assms(1) by (auto simp: record_latency_def Let_def max_def)
qed

text \<open>A request of 2147483648 microseconds or a little more (36 minutes) makes the maximum negative.\<close>

lemma record_latency_overflows:
  "sint (max_latency_us (record_latency (2 ^ 31) init_metrics)) = - (2 ^ 31)"
  by (simp add: record_latency_def init_metrics_def Let_def signed_of_int signed_take_bit_eq_if_negative)

end
