(* ===== verification/Session.thy ===== *)
theory Session
  imports HttpContext Metrics
begin

text \<open>
  \<open>server/HttpSession\<close> and \<open>server/cServer\<close>: the connections and the acceptor as a machine driven by
  the completions that Asio delivers.  A session holds the state of its socket, its buffer, its
  timer and its outstanding operation; a handler is a function on the session, the counters and the
  application behind the router (a parameter), and the step relation says when the runtime may call
  it.  The shared pointer that keeps a session alive is in the handler of its outstanding read or
  write, so a session without one is destroyed; the handler of the timer holds a plain \<open>this\<close>.
  Handlers are taken as atomic.  An exception that leaves a handler ends the worker thread that ran
  it, as in \<open>test/server_test.cc\<close>.
\<close>

section \<open>State\<close>

datatype error_code =
    No_error
  | End_of_stream
  | Operation_aborted
  | Broken_pipe
  | Connection_reset
  | Timed_out
  | Bad_method
  | Bad_version
  | Bad_target
  | Bad_value
  | Other_error

datatype severity = Log_debug | Log_info | Log_warn | Log_error

text \<open>The outstanding operation; a write carries the flag bound to its handler.\<close>

datatype operation = Reading | Writing bool

text \<open>
  \<open>waiting\<close>: a wait on the timer is outstanding; \<open>expired\<close>: handlers of waits that have expired and
  are queued, which \<open>cancel\<close> does not reach.  \<open>dangling\<close>: a timer handler ran after the session was
  destroyed.
\<close>

record session =
  socket_open :: bool
  buffer :: string
  body_limit :: nat
  pending :: "operation option"
  waiting :: bool
  expired :: nat
  req_start_time :: int
  responses :: "Response list"
  logged :: "severity list"
  destroyed :: bool
  dangling :: bool

record 'app world =
  sessions :: "session list"
  metrics :: metrics
  app :: 'app
  accepts :: nat
  workers :: nat

text \<open>The application: it answers a request or throws, and may change the counters.\<close>

type_synonym 'app serve = "StringRequest \<Rightarrow> (metrics \<times> 'app, Response) io"

section \<open>HttpSession\<close>

definition log_msg :: "severity \<Rightarrow> session \<Rightarrow> session" where
  "log_msg l s = s\<lparr>logged := logged s @ [l]\<rparr>"

text \<open>\<open>shutdown\<close> and \<open>close\<close>; their error codes are only logged.\<close>

definition close_socket :: "session \<Rightarrow> session" where
  "close_socket s = s\<lparr>socket_open := False\<rparr>"

text \<open>A new expiry time cancels an outstanding wait and starts another.\<close>

definition reset_timeout_timer :: "session \<Rightarrow> session" where
  "reset_timeout_timer s = s\<lparr>waiting := True\<rparr>"

definition on_timeout :: "session \<Rightarrow> session" where
  "on_timeout s = (if destroyed s then s\<lparr>dangling := True\<rparr> else close_socket (log_msg Log_warn s))"

definition do_read :: "session \<Rightarrow> session" where
  "do_read s = s\<lparr>body_limit := 50 * 1024 * 1024, pending := Some Reading\<rparr>"

definition new_session :: "bool \<Rightarrow> session" where
  "new_session is_conn = reset_timeout_timer
     \<lparr>socket_open = is_conn, buffer = [], body_limit = 0, pending = None, waiting = False, expired = 0,
      req_start_time = 0, responses = [], logged = [], destroyed = False, dangling = False\<rparr>"

definition session_run :: "session \<Rightarrow> session" where
  "session_run s = do_read s"

definition do_write :: "Response \<Rightarrow> session \<Rightarrow> session" where
  "do_write msg s =
     (let keep_alive = True;
          need_close = \<not> keep_alive
      in s\<lparr>pending := Some (Writing need_close), responses := responses s @ [msg]\<rparr>)"

text \<open>The errors that are part of the normal end of a connection are logged quietly.\<close>

definition expected_error :: "error_code \<Rightarrow> bool" where
  "expected_error ec \<longleftrightarrow> List.member [No_error, End_of_stream, Operation_aborted, Broken_pipe, Connection_reset,
     Timed_out, Bad_method, Bad_version, Bad_target, Bad_value] ec"

definition log_and_close :: "error_code \<Rightarrow> session \<Rightarrow> bool \<times> session" where
  "log_and_close ec s =
     (if expected_error ec then (True, close_socket (log_msg Log_debug s))
      else (True, close_socket (log_msg Log_error s)))"

definition on_read :: "'app serve \<Rightarrow> int \<Rightarrow> error_code \<Rightarrow> nat \<Rightarrow> StringRequest \<Rightarrow> session \<times> metrics \<times> 'app \<Rightarrow>
    exn option \<times> session \<times> metrics \<times> 'app" where
  "on_read serve now ec bytes_transferred rq = (\<lambda>(s, m, a).
     let s = s\<lparr>req_start_time := now\<rparr>;
         m = (if 0 < bytes_transferred then m\<lparr>bytes_received := bytes_received m + of_nat bytes_transferred\<rparr> else m);
         s = s\<lparr>waiting := False\<rparr>
     in if ec = End_of_stream then (None, close_socket (log_msg Log_info s), m, a)
        else if ec \<noteq> No_error then (None, snd (log_and_close ec s), m, a)
        else (case serve rq (m, a) of
                (Inl e, (m', a')) \<Rightarrow> (Some e, s, m', a')
              | (Inr res, (m', a')) \<Rightarrow> (None, do_write res s, m', a')))"

definition on_write :: "bool \<Rightarrow> error_code \<Rightarrow> nat \<Rightarrow> int \<Rightarrow> session \<times> metrics \<Rightarrow> session \<times> metrics" where
  "on_write close ec bytes_transferred now = (\<lambda>(s, m).
     let m = (if 0 < bytes_transferred then m\<lparr>bytes_sent := bytes_sent m + of_nat bytes_transferred\<rparr> else m);
         m = record_latency (now - req_start_time s) m
     in if ec \<noteq> No_error then (snd (log_and_close ec s), m)
        else if close then (close_socket s, m)
        else (do_read ((reset_timeout_timer s)\<lparr>buffer := []\<rparr>), m))"

text \<open>The end of a handler: without an outstanding operation the session is destroyed, and the
  destructor of the timer cancels its wait.\<close>

definition release :: "session \<Rightarrow> metrics \<Rightarrow> session \<times> metrics" where
  "release s m =
     (if pending s = None
      then (s\<lparr>destroyed := True, waiting := False\<rparr>, m\<lparr>active_connections := active_connections m - 1\<rparr>)
      else (s, m))"

section \<open>cServer\<close>

definition start_accept :: "'app world \<Rightarrow> 'app world" where
  "start_accept w = w\<lparr>accepts := accepts w + 1\<rparr>"

definition make_session :: "bool \<Rightarrow> 'app world \<Rightarrow> 'app world" where
  "make_session is_conn w = w\<lparr>sessions := sessions w @ [session_run (new_session is_conn)],
     metrics := (metrics w)\<lparr>active_connections := active_connections (metrics w) + 1\<rparr>\<rparr>"

text \<open>The handler of an accept.  When \<open>make_shared\<close>, the constructor or \<open>run\<close> of the session throws (\<open>bad_alloc\<close>,
  a timer that cannot be made), the session is not there and its count is as before; the exception
  is caught and printed, and the accept at the end is not reached.\<close>

definition on_accept :: "bool \<Rightarrow> error_code \<Rightarrow> 'app world \<Rightarrow> 'app world" where
  "on_accept throws ec w =
     (let w = (if ec \<noteq> No_error then start_accept w else w)
      in if throws then w
         else start_accept (make_session (ec = No_error) w))"

definition init_world :: "'app \<Rightarrow> nat \<Rightarrow> 'app world" where
  "init_world a n = start_accept \<lparr>sessions = [], metrics = init_metrics, app = a, accepts = 0, workers = n\<rparr>"

section \<open>What the runtime does\<close>

datatype event =
    Accepted error_code
  | Accept_throws error_code
  | Read_done nat error_code nat StringRequest string int
  | Write_done nat error_code nat int
  | Timer_expires nat
  | Timer_handler nat

definition run_read :: "'app serve \<Rightarrow> nat \<Rightarrow> error_code \<Rightarrow> nat \<Rightarrow> StringRequest \<Rightarrow> string \<Rightarrow> int \<Rightarrow> 'app world \<Rightarrow> 'app world" where
  "run_read serve i ec n rq rest now w =
     (case on_read serve now ec n rq ((sessions w ! i)\<lparr>pending := None, buffer := rest\<rparr>, metrics w, app w) of
        (ex, s, m, a) \<Rightarrow>
          (case release s m of
             (s, m) \<Rightarrow> w\<lparr>sessions := (sessions w)[i := s], metrics := m, app := a,
                 workers := (if ex = None then workers w else workers w - 1)\<rparr>))"

definition run_write :: "nat \<Rightarrow> bool \<Rightarrow> error_code \<Rightarrow> nat \<Rightarrow> int \<Rightarrow> 'app world \<Rightarrow> 'app world" where
  "run_write i close ec n now w =
     (case on_write close ec n now ((sessions w ! i)\<lparr>pending := None\<rparr>, metrics w) of
        (s, m) \<Rightarrow> (case release s m of (s, m) \<Rightarrow> w\<lparr>sessions := (sessions w)[i := s], metrics := m\<rparr>))"

definition expire :: "nat \<Rightarrow> 'app world \<Rightarrow> 'app world" where
  "expire i w = (let s = sessions w ! i in w\<lparr>sessions := (sessions w)[i := s\<lparr>waiting := False, expired := expired s + 1\<rparr>]\<rparr>)"

definition run_timeout :: "nat \<Rightarrow> 'app world \<Rightarrow> 'app world" where
  "run_timeout i w = (let s = sessions w ! i in w\<lparr>sessions := (sessions w)[i := on_timeout (s\<lparr>expired := expired s - 1\<rparr>)]\<rparr>)"

inductive step :: "'app serve \<Rightarrow> 'app world \<Rightarrow> event \<Rightarrow> 'app world \<Rightarrow> bool" for serve where
  accepted: "0 < workers w \<Longrightarrow> 0 < accepts w \<Longrightarrow>
    step serve w (Accepted ec) (on_accept False ec (w\<lparr>accepts := accepts w - 1\<rparr>))"
| accept_throws: "0 < workers w \<Longrightarrow> 0 < accepts w \<Longrightarrow>
    step serve w (Accept_throws ec) (on_accept True ec (w\<lparr>accepts := accepts w - 1\<rparr>))"
| read_done: "0 < workers w \<Longrightarrow> i < length (sessions w) \<Longrightarrow> pending (sessions w ! i) = Some Reading \<Longrightarrow>
    step serve w (Read_done i ec n rq rest now) (run_read serve i ec n rq rest now w)"
| write_done: "0 < workers w \<Longrightarrow> i < length (sessions w) \<Longrightarrow> pending (sessions w ! i) = Some (Writing close) \<Longrightarrow>
    step serve w (Write_done i ec n now) (run_write i close ec n now w)"
| timer_expires: "i < length (sessions w) \<Longrightarrow> waiting (sessions w ! i) \<Longrightarrow>
    step serve w (Timer_expires i) (expire i w)"
| timer_handler: "0 < workers w \<Longrightarrow> i < length (sessions w) \<Longrightarrow> 0 < expired (sessions w ! i) \<Longrightarrow>
    step serve w (Timer_handler i) (run_timeout i w)"

inductive_cases stepE: "step serve w e w'"

inductive_simps step_accepted: "step serve w (Accepted ec) w'"
inductive_simps step_accept_throws: "step serve w (Accept_throws ec) w'"
inductive_simps step_read_done: "step serve w (Read_done i ec n rq rest now) w'"
inductive_simps step_write_done: "step serve w (Write_done i ec n now) w'"
inductive_simps step_timer_expires: "step serve w (Timer_expires i) w'"
inductive_simps step_timer_handler: "step serve w (Timer_handler i) w'"

lemmas step_simps = step_accepted step_accept_throws step_read_done step_write_done step_timer_expires step_timer_handler

inductive steps :: "'app serve \<Rightarrow> 'app world \<Rightarrow> event list \<Rightarrow> 'app world \<Rightarrow> bool" for serve where
  none: "steps serve w [] w"
| more: "step serve w e w' \<Longrightarrow> steps serve w' es w'' \<Longrightarrow> steps serve w (e # es) w''"

inductive_simps steps_Nil: "steps serve w [] w'"
inductive_simps steps_Cons: "steps serve w (e # es) w'"

text \<open>The machine as a function: the state after an event that can happen.\<close>

fun exec :: "'app serve \<Rightarrow> event \<Rightarrow> 'app world \<Rightarrow> 'app world option" where
  "exec serve (Accepted ec) w =
     (if 0 < workers w \<and> 0 < accepts w then Some (on_accept False ec (w\<lparr>accepts := accepts w - 1\<rparr>)) else None)"
| "exec serve (Accept_throws ec) w =
     (if 0 < workers w \<and> 0 < accepts w then Some (on_accept True ec (w\<lparr>accepts := accepts w - 1\<rparr>)) else None)"
| "exec serve (Read_done i ec n rq rest now) w =
     (if 0 < workers w \<and> i < length (sessions w) \<and> pending (sessions w ! i) = Some Reading
      then Some (run_read serve i ec n rq rest now w) else None)"
| "exec serve (Write_done i ec n now) w =
     (if 0 < workers w \<and> i < length (sessions w)
      then (case pending (sessions w ! i) of Some (Writing close) \<Rightarrow> Some (run_write i close ec n now w) | _ \<Rightarrow> None)
      else None)"
| "exec serve (Timer_expires i) w =
     (if i < length (sessions w) \<and> waiting (sessions w ! i) then Some (expire i w) else None)"
| "exec serve (Timer_handler i) w =
     (if 0 < workers w \<and> i < length (sessions w) \<and> 0 < expired (sessions w ! i) then Some (run_timeout i w) else None)"

fun exec_all :: "'app serve \<Rightarrow> event list \<Rightarrow> 'app world \<Rightarrow> 'app world option" where
  "exec_all serve [] w = Some w"
| "exec_all serve (e # es) w = (case exec serve e w of None \<Rightarrow> None | Some w' \<Rightarrow> exec_all serve es w')"

lemma step_iff_exec: "step serve w e w' \<longleftrightarrow> exec serve e w = Some w'"
  by (cases e) (auto simp: step_simps split: option.splits operation.splits)

lemma steps_iff_exec: "steps serve w es w' \<longleftrightarrow> exec_all serve es w = Some w'"
  by (induction es arbitrary: w) (auto simp: steps_Nil steps_Cons step_iff_exec split: option.splits)

end
