(* ===== verification/SessionProps.thy ===== *)
theory SessionProps
  imports Session
begin

text \<open>
  What the connection machine guarantees in every state it can reach, whatever the order of the
  completions: the count of connections is the number of live sessions, a live session always has
  exactly one outstanding operation, and one that is reading is guarded by its timer.  Then the
  life of a request and of a silent client, and the ways the server can be hurt.
\<close>

section \<open>The invariant\<close>

definition live :: "session \<Rightarrow> bool" where
  "live s \<longleftrightarrow> \<not> destroyed s"

definition session_ok :: "session \<Rightarrow> bool" where
  "session_ok s \<longleftrightarrow> (destroyed s \<longleftrightarrow> pending s = None) \<and> (destroyed s \<longrightarrow> \<not> waiting s)
     \<and> pending s \<noteq> Some (Writing True)
     \<and> (pending s = Some Reading \<longrightarrow>
          body_limit s = 52428800 \<and> (waiting s \<or> 0 < expired s \<or> \<not> socket_open s))"

definition world_ok :: "'app world \<Rightarrow> bool" where
  "world_ok w \<longleftrightarrow> (\<forall>s \<in> set (sessions w). session_ok s)
     \<and> active_connections (metrics w) = of_nat (length (filter live (sessions w)))"

lemmas handler_defs = on_read_def on_write_def log_and_close_def close_socket_def log_msg_def do_write_def do_read_def
  reset_timeout_timer_def release_def on_timeout_def

text \<open>Replacing one session: how the number of live ones changes.\<close>

lemma count_update:
  assumes "i < length xs"
  shows "length (filter P (xs[i := y])) + (if P (xs ! i) then 1 else 0) = length (filter P xs) + (if P y then 1 else 0)"
  using assms
proof (induction xs arbitrary: i)
  case (Cons x xs)
  then show ?case by (cases i) auto
qed simp

lemma live_count:
  assumes "i < length xs"
  shows "(of_nat (length (filter live (xs[i := y]))) :: 32 word)
    = of_nat (length (filter live xs)) + (if live y then 1 else 0) - (if live (xs ! i) then 1 else 0)"
  using arg_cong [OF count_update [OF assms, of live y], of "of_nat :: nat \<Rightarrow> 32 word"]
  by (simp add: algebra_simps split: if_splits)

lemma world_ok_update:
  assumes "world_ok w" "i < length (sessions w)" "session_ok s"
    and "active_connections m = active_connections (metrics w) + (if live s then 1 else 0) - (if live (sessions w ! i) then 1 else 0)"
  shows "world_ok (w\<lparr>sessions := (sessions w)[i := s], metrics := m, app := a, workers := k\<rparr>)"
    and "world_ok (w\<lparr>sessions := (sessions w)[i := s], metrics := m\<rparr>)"
  using assms live_count [OF assms(2), of s] by (auto simp: world_ok_def dest!: set_update_subset_insert [THEN subsetD])

text \<open>What the machine relies on in the application: it leaves the connection count alone.\<close>

locale application =
  fixes serve :: "'app serve"
  assumes connections_kept: "active_connections (fst (snd (serve rq (m, a)))) = active_connections m"

lemma release_ok:
  assumes "release s m = (s', m')" "\<not> destroyed s" "pending s = None \<or> session_ok s"
  shows "session_ok s'" and "active_connections m' = active_connections m + (if live s' then 1 else 0) - 1"
  using assms by (auto simp: release_def session_ok_def live_def split: if_splits)

lemma on_read_ok:
  assumes "on_read serve now ec n rq (s, m, a) = (ex, s', m', a')" "application serve"
    "\<not> destroyed s" "pending s = None"
  shows "\<not> destroyed s' \<and> (pending s' = None \<or> session_ok s') \<and> active_connections m' = active_connections m"
proof (cases "ec = No_error")
  case True
  define m0 where "m0 = (if 0 < n then m\<lparr>bytes_received := bytes_received m + of_nat n\<rparr> else m)"
  obtain r m1 a1 where r: "serve rq (m0, a) = (r, (m1, a1))" by (metis surj_pair)
  have "active_connections m1 = active_connections m0"
    using application.connections_kept [OF assms(2), of rq m0 a] r by simp
  with True assms(1,3,4) r show ?thesis
    by (cases r) (auto simp: on_read_def do_write_def session_ok_def Let_def m0_def)
next
  case False
  with assms(1,3,4) show ?thesis by (auto simp: handler_defs Let_def split: if_splits)
qed

lemma on_write_ok:
  assumes "on_write close ec n now (s, m) = (s', m')" "\<not> destroyed s" "pending s = None"
  shows "\<not> destroyed s' \<and> (pending s' = None \<or> session_ok s') \<and> active_connections m' = active_connections m"
  using assms by (auto simp: handler_defs session_ok_def Let_def split: if_splits)

lemma run_read_ok:
  assumes w: "world_ok w" "i < length (sessions w)" "pending (sessions w ! i) = Some Reading" and serve: "application serve"
  shows "world_ok (run_read serve i ec n rq rest now w)"
proof -
  let ?s = "(sessions w ! i)\<lparr>pending := None, buffer := rest\<rparr>"
  have lv: "\<not> destroyed (sessions w ! i)" using w by (auto simp: world_ok_def session_ok_def)
  obtain ex s1 m1 a1 where r: "on_read serve now ec n rq (?s, metrics w, app w) = (ex, s1, m1, a1)"
    by (metis surj_pair)
  obtain s2 m2 where r2: "release s1 m1 = (s2, m2)" by (metis surj_pair)
  note ok = on_read_ok [OF r serve] and rel = release_ok [OF r2]
  show ?thesis
    unfolding run_read_def r r2 prod.case
    using ok rel lv by (intro world_ok_update(1) [OF w(1,2)]) (simp_all add: live_def)
qed

lemma run_write_ok:
  assumes w: "world_ok w" "i < length (sessions w)" "pending (sessions w ! i) = Some (Writing close)"
  shows "world_ok (run_write i close ec n now w)"
proof -
  let ?s = "(sessions w ! i)\<lparr>pending := None\<rparr>"
  have lv: "\<not> destroyed (sessions w ! i)" using w by (auto simp: world_ok_def session_ok_def)
  obtain s1 m1 where r: "on_write close ec n now (?s, metrics w) = (s1, m1)"
    by (metis surj_pair)
  obtain s2 m2 where r2: "release s1 m1 = (s2, m2)" by (metis surj_pair)
  note ok = on_write_ok [OF r] and rel = release_ok [OF r2]
  show ?thesis
    unfolding run_write_def r r2 prod.case
    using ok rel lv by (intro world_ok_update(2) [OF w(1,2)]) (simp_all add: live_def)
qed

lemma timer_ok:
  assumes w: "world_ok w" "i < length (sessions w)"
  shows "waiting (sessions w ! i) \<Longrightarrow> world_ok (expire i w)" and "0 < expired (sessions w ! i) \<Longrightarrow> world_ok (run_timeout i w)"
proof -
  have s: "session_ok (sessions w ! i)" using w by (simp add: world_ok_def)
  note upd = world_ok_update(2) [OF w, of _ "metrics w"]
  show "waiting (sessions w ! i) \<Longrightarrow> world_ok (expire i w)"
    unfolding expire_def Let_def using s upd [of "(sessions w ! i)\<lparr>waiting := False, expired := expired (sessions w ! i) + 1\<rparr>"]
    by (auto simp: session_ok_def live_def)
  show "0 < expired (sessions w ! i) \<Longrightarrow> world_ok (run_timeout i w)"
    unfolding run_timeout_def Let_def
    using s upd [of "on_timeout ((sessions w ! i)\<lparr>expired := expired (sessions w ! i) - 1\<rparr>)"]
    by (auto simp: session_ok_def live_def handler_defs)
qed

lemma on_accept_ok: "world_ok w \<Longrightarrow> world_ok (on_accept throws ec w)"
  by (auto simp: on_accept_def world_ok_def make_session_def start_accept_def Let_def session_run_def new_session_def
      do_read_def reset_timeout_timer_def session_ok_def live_def)

lemma world_ok_accepts [simp]: "world_ok (w\<lparr>accepts := k\<rparr>) \<longleftrightarrow> world_ok w"
  by (simp add: world_ok_def)

lemma init_world_ok: "world_ok (init_world a n)"
  by (simp add: init_world_def start_accept_def world_ok_def init_metrics_def)

context application
begin

lemma step_ok: "step serve w e w' \<Longrightarrow> world_ok w \<Longrightarrow> world_ok w'"
  using application_axioms by (elim stepE) (simp_all add: run_read_ok run_write_ok timer_ok on_accept_ok)

lemma steps_ok: "steps serve w es w' \<Longrightarrow> world_ok w \<Longrightarrow> world_ok w'"
  by (induction rule: steps.induct) (auto intro: step_ok)

lemma reachable_ok: "steps serve (init_world a n) es w \<Longrightarrow> world_ok w"
  by (erule steps_ok) (rule init_world_ok)

end

text \<open>In every state the server can get into, whatever the order of accepts, reads, writes, errors
  and timeouts, the count of active connections is the number of sessions not yet destroyed
  (modulo 2 to the 32), a session is destroyed exactly when it has no outstanding operation, no
  write is ever set to close the connection, and a session that is reading has the body limit of
  50 MiB and an armed or expired timer, unless its socket is closed already.\<close>

lemma connections_invariant:
  assumes "application serve" "steps serve (init_world a n) es w"
  shows "active_connections (metrics w) = of_nat (length (filter (\<lambda>s. \<not> destroyed s) (sessions w)))
    \<and> (\<forall>s \<in> set (sessions w). (destroyed s \<longleftrightarrow> pending s = None) \<and> pending s \<noteq> Some (Writing True)
        \<and> (pending s = Some Reading \<longrightarrow> body_limit s = 52428800 \<and> (waiting s \<or> 0 < expired s \<or> \<not> socket_open s)))"
proof -
  have "live = (\<lambda>s. \<not> destroyed s)" by (simp add: live_def fun_eq_iff)
  with application.reachable_ok [OF assms] show ?thesis
    by (simp add: world_ok_def session_ok_def)
qed

section \<open>Runs to try the theorems on\<close>

text \<open>An application that answers every request with an empty page.\<close>

definition echo_serve :: "unit serve" where
  "echo_serve rq = (\<lambda>s. (Inr (new_response 200 (req_version rq)), s))"

interpretation echo: application echo_serve
  by unfold_locales (simp add: echo_serve_def)

lemmas echo_keeps = echo.application_axioms

lemmas run_defs = steps_iff_exec init_world_def start_accept_def make_session_def on_accept_def session_run_def
  new_session_def run_read_def run_write_def expire_def run_timeout_def handler_defs expected_error_def Let_def echo_serve_def
  init_metrics_def

section \<open>The life of a request\<close>



section \<open>A silent client\<close>

text \<open>What happens to a reading session whose client sends nothing: its timer expires, the queued
  handler runs, and a read on a closed socket fails.\<close>

inductive silent :: "'app serve \<Rightarrow> nat \<Rightarrow> 'app world \<Rightarrow> 'app world \<Rightarrow> bool" for serve i where
  expires: "step serve w (Timer_expires i) w' \<Longrightarrow> silent serve i w w'"
| fires: "step serve w (Timer_handler i) w' \<Longrightarrow> silent serve i w w'"
| aborts: "\<not> socket_open (sessions w ! i) \<Longrightarrow> ec \<noteq> No_error \<Longrightarrow>
    step serve w (Read_done i ec n rq rest now) w' \<Longrightarrow> silent serve i w w'"

definition reading :: "nat \<Rightarrow> 'app world \<Rightarrow> bool" where
  "reading i w \<longleftrightarrow> world_ok w \<and> 0 < workers w \<and> i < length (sessions w)
     \<and> (destroyed (sessions w ! i) \<or> pending (sessions w ! i) = Some Reading)"

definition patience :: "nat \<Rightarrow> 'app world \<Rightarrow> nat" where
  "patience i w = (let s = sessions w ! i
     in (if waiting s then 2 else 0) + expired s + (if destroyed s then 0 else 1))"

lemma silent_shrinks:
  assumes "silent serve i w w'" "reading i w"
  shows "patience i w' < patience i w"
  using assms
  by (cases rule: silent.cases)
    (auto simp: step_simps reading_def patience_def expire_def run_timeout_def run_read_def handler_defs Let_def
      world_ok_def session_ok_def split: if_splits)

lemma silent_keeps:
  assumes "silent serve i w w'" "reading i w" "application serve"
  shows "reading i w'"
proof -
  have "world_ok w'"
    using assms by (cases rule: silent.cases) (auto simp: reading_def intro: application.step_ok [OF assms(3)])
  with assms(1,2) show ?thesis
    by (cases rule: silent.cases)
      (auto simp: step_simps reading_def expire_def run_timeout_def run_read_def handler_defs Let_def split: if_splits)
qed

lemma silent_progress:
  assumes "reading i w" "\<not> destroyed (sessions w ! i)"
  shows "\<exists>w'. silent serve i w w'"
proof -
  let ?s = "sessions w ! i"
  have r: "0 < workers w" "i < length (sessions w)" "pending ?s = Some Reading" "session_ok ?s"
    using assms by (auto simp: reading_def world_ok_def)
  then consider "waiting ?s" | "0 < expired ?s" | "\<not> socket_open ?s" by (auto simp: session_ok_def)
  then show ?thesis
  proof cases
    case 1
    with r show ?thesis by (blast intro: silent.expires step.timer_expires)
  next
    case 2
    with r show ?thesis by (blast intro: silent.fires step.timer_handler)
  next
    case 3
    with r silent.aborts [OF 3, of Operation_aborted serve] step.read_done [OF r(1-3)] show ?thesis by blast
  qed
qed

text \<open>C13: a client that falls silent does not hold its session: from any state the server can get into,
  as long as the session of the client is not destroyed one of these steps is possible, and they
  cannot go on for ever, so every maximal run of them ends with the session destroyed.\<close>

theorem silent_client_closed:
  assumes serve: "application serve" "steps serve (init_world a n) es w"
    and i: "i < length (sessions w)" "pending (sessions w ! i) = Some Reading" "0 < workers w"
  shows "(\<forall>w'. (silent serve i)\<^sup>*\<^sup>* w w' \<longrightarrow> destroyed (sessions w' ! i) \<or> (\<exists>w''. silent serve i w' w''))
    \<and> (\<nexists>f. f 0 = w \<and> (\<forall>k. silent serve i (f k) (f (Suc k))))"
proof
  have start: "reading i w"
    using application.reachable_ok [OF serve] i by (simp add: reading_def)
  have "reading i w'" if "(silent serve i)\<^sup>*\<^sup>* w w'" for w'
    using that by (induction rule: rtranclp_induct) (auto intro: start silent_keeps [OF _ _ serve(1)])
  then show "\<forall>w'. (silent serve i)\<^sup>*\<^sup>* w w' \<longrightarrow> destroyed (sessions w' ! i) \<or> (\<exists>w''. silent serve i w' w'')"
    using silent_progress by blast
  show "\<nexists>f. f 0 = w \<and> (\<forall>k. silent serve i (f k) (f (Suc k)))"
  proof
    assume "\<exists>f. f 0 = w \<and> (\<forall>k. silent serve i (f k) (f (Suc k)))"
    then obtain f where f: "f 0 = w" "\<And>k. silent serve i (f k) (f (Suc k))" by blast
    have "reading i (f k) \<and> patience i (f k) + k \<le> patience i w" for k
    proof (induction k)
      case (Suc k)
      with silent_shrinks [OF f(2)] silent_keeps [OF f(2) _ serve(1)] show ?case by fastforce
    qed (use f(1) start in simp)
    from this [of "Suc (patience i w)"] show False by simp
  qed
qed

theorem silent_client_closed_witness:
  "\<exists>w. steps echo_serve (init_world () 1) [Accepted No_error] w \<and> \<not> destroyed (sessions w ! 0)
     \<and> (\<exists>w'. silent echo_serve 0 w w') \<and> (\<nexists>f. f 0 = w \<and> (\<forall>k. silent echo_serve 0 (f k) (f (Suc k))))"
proof -
  have "\<exists>w. steps echo_serve (init_world () 1) [Accepted No_error] w \<and> \<not> destroyed (sessions w ! 0)
      \<and> 0 < length (sessions w) \<and> pending (sessions w ! 0) = Some Reading \<and> 0 < workers w"
    by (simp add: run_defs)
  then obtain w where w: "steps echo_serve (init_world () 1) [Accepted No_error] w" "\<not> destroyed (sessions w ! 0)"
      "0 < length (sessions w)" "pending (sessions w ! 0) = Some Reading" "0 < workers w" by blast
  with silent_client_closed [OF echo_keeps w(1,3,4,5)] show ?thesis by blast
qed

section \<open>Ways to hurt the server\<close>

text \<open>The handler of the timer can run on a destroyed session: when the timer has expired and its
  handler is queued, and the client closes the connection before the handler runs, the session is
  destroyed and the handler then uses the dead object.\<close>

theorem timer_outlives_session:
  "\<exists>w. steps serve (init_world a (Suc n)) [Accepted No_error, Timer_expires 0, Read_done 0 End_of_stream 0 rq [] t, Timer_handler 0] w
     \<and> destroyed (sessions w ! 0) \<and> dangling (sessions w ! 0)"
  by (simp add: run_defs)

definition failed_accept :: "event \<Rightarrow> bool" where
  "failed_accept e \<longleftrightarrow> (case e of Accepted ec \<Rightarrow> ec \<noteq> No_error | Accept_throws ec \<Rightarrow> ec \<noteq> No_error | _ \<Rightarrow> False)"

definition dropped_accept :: "event \<Rightarrow> bool" where
  "dropped_accept e \<longleftrightarrow> (case e of Accept_throws ec \<Rightarrow> True | _ \<Rightarrow> False)"

lemma step_accepts:
  "step serve w e w' \<Longrightarrow> accepts w' + (if dropped_accept e then 1 else 0) = accepts w + (if failed_accept e then 1 else 0)"
  by (erule stepE)
    (auto simp: failed_accept_def dropped_accept_def on_accept_def start_accept_def make_session_def run_read_def run_write_def
      expire_def run_timeout_def Let_def split: prod.splits)

lemma steps_accepts:
  "steps serve w es w' \<Longrightarrow> accepts w' + length (filter dropped_accept es) = accepts w + length (filter failed_accept es)"
  by (induction rule: steps.induct) (auto dest!: step_accepts)

text \<open>Every failed accept leaves one more accept outstanding on the one reusable socket: the handler
  starts accepting again, does not return, and starts a session on the socket and a second accept.
  Every session whose construction throws takes one away.\<close>

theorem failed_accepts_pile_up:
  assumes "steps serve (init_world a n) es w"
  shows "accepts w + length (filter dropped_accept es) = 1 + length (filter failed_accept es)"
  using steps_accepts [OF assms] by (simp add: init_world_def start_accept_def)

theorem failed_accepts_pile_up_witness:
  "\<exists>w. steps echo_serve (init_world () 1) [Accepted Other_error, Accepted Other_error] w \<and> accepts w = 3"
proof -
  have "\<exists>w. steps echo_serve (init_world () 1) [Accepted Other_error, Accepted Other_error] w" by (simp add: run_defs)
  with failed_accepts_pile_up show ?thesis by (fastforce simp: failed_accept_def dropped_accept_def)
qed

text \<open>Once no accept is outstanding there never is one again, and no session is added.\<close>

lemma no_accepts_kept: "step serve w e w' \<Longrightarrow> accepts w = 0 \<Longrightarrow> accepts w' = 0 \<and> length (sessions w') = length (sessions w)"
  by (erule stepE) (auto simp: run_read_def run_write_def expire_def run_timeout_def Let_def split: prod.splits)

lemma no_accepts_run: "steps serve w es w' \<Longrightarrow> accepts w = 0 \<Longrightarrow> accepts w' = 0 \<and> length (sessions w') = length (sessions w)"
  by (induction rule: steps.induct) (auto dest: no_accepts_kept)

text \<open>One session that cannot be made is enough to make the server deaf: when its accept is the only one
  outstanding, as it is until an accept fails, the server accepts no connection any more, whatever
  happens.\<close>

theorem dropped_accept_deaf:
  assumes "accepts w = 1" "steps serve w (Accept_throws No_error # es) w'"
  shows "accepts w' = 0 \<and> length (sessions w') = length (sessions w)"
proof -
  obtain v where v: "step serve w (Accept_throws No_error) v" "steps serve v es w'"
    using assms(2) by (auto simp: steps_Cons)
  with assms(1) have "accepts v = 0 \<and> sessions v = sessions w" by (auto simp: step_simps on_accept_def)
  with no_accepts_run [OF v(2)] show ?thesis by simp
qed

theorem dropped_accept_deaf_witness:
  "\<exists>w. steps echo_serve (init_world () 1) [Accept_throws No_error] w \<and> accepts w = 0 \<and> sessions w = []"
proof -
  obtain w where w: "steps echo_serve (init_world () 1) [Accept_throws No_error] w" by (simp add: run_defs)
  with dropped_accept_deaf [of "init_world () 1" echo_serve "[]" w] show ?thesis
    by (auto simp: init_world_def start_accept_def)
qed

section \<open>Requests that throw\<close>

text \<open>A request whose handling throws, whatever the state.\<close>

definition always_throws :: "'app serve \<Rightarrow> StringRequest \<Rightarrow> bool" where
  "always_throws serve rq \<longleftrightarrow> (\<forall>s. isl (fst (serve rq s)))"

lemma steps_append: "steps serve w es w' \<Longrightarrow> steps serve w' fs w'' \<Longrightarrow> steps serve w (es @ fs) w''"
  by (induction rule: steps.induct) (auto intro: steps.more)

text \<open>Clients connect one after the other, and each sends the request once.\<close>

definition attack :: "nat \<Rightarrow> StringRequest \<Rightarrow> nat \<Rightarrow> int \<Rightarrow> event list" where
  "attack k rq bytes now = concat (map (\<lambda>i. [Accepted No_error, Read_done i No_error bytes rq [] now]) [0..<k])"

lemma run_read_throws:
  assumes "always_throws serve rq"
  shows "workers (run_read serve i No_error n rq rest now w) = workers w - 1"
    and "accepts (run_read serve i No_error n rq rest now w) = accepts w"
    and "length (sessions (run_read serve i No_error n rq rest now w)) = length (sessions w)"
proof -
  have throw: "\<exists>e s'. serve rq s = (Inl e, s')" for s
    using assms unfolding always_throws_def isl_def by (metis prod.collapse)
  have "\<exists>e r. on_read serve now No_error n rq (s, m, a) = (Some e, r)" for s m a
    using throw [of "(if 0 < n then m\<lparr>bytes_received := bytes_received m + of_nat n\<rparr> else m, a)"]
    by (auto simp: on_read_def Let_def)
  then obtain e r where "on_read serve now No_error n rq ((sessions w ! i)\<lparr>pending := None, buffer := rest\<rparr>, metrics w, app w)
      = (Some e, r)" by blast
  then show "workers (run_read serve i No_error n rq rest now w) = workers w - 1"
    by (auto simp: run_read_def split: prod.splits)
qed (auto simp: run_read_def split: prod.splits)

lemma attack_run:
  assumes throws: "always_throws serve rq" and "k \<le> n"
  shows "\<exists>w. steps serve (init_world a n) (attack k rq bytes now) w \<and> workers w = n - k \<and> accepts w = 1 \<and> length (sessions w) = k"
  using assms(2)
proof (induction k)
  case 0
  then show ?case by (auto simp: attack_def init_world_def start_accept_def intro: steps.none)
next
  case (Suc k)
  then obtain w where w: "steps serve (init_world a n) (attack k rq bytes now) w" "workers w = n - k" "accepts w = 1"
      "length (sessions w) = k" by auto
  let ?w1 = "on_accept False No_error (w\<lparr>accepts := accepts w - 1\<rparr>)"
  have w1: "workers ?w1 = n - k" "accepts ?w1 = 1" "length (sessions ?w1) = Suc k" "pending (sessions ?w1 ! k) = Some Reading"
    using w by (simp_all add: on_accept_def make_session_def start_accept_def session_run_def do_read_def nth_append)
  let ?w2 = "run_read serve k No_error bytes rq [] now ?w1"
  have "step serve w (Accepted No_error) ?w1" using w Suc.prems by (intro step.accepted) auto
  moreover have "step serve ?w1 (Read_done k No_error bytes rq [] now) ?w2" using w1 Suc.prems by (intro step.read_done) auto
  ultimately have "steps serve w [Accepted No_error, Read_done k No_error bytes rq [] now] ?w2"
    by (blast intro: steps.intros)
  with steps_append [OF w(1)] have "steps serve (init_world a n) (attack (Suc k) rq bytes now) ?w2" by (simp add: attack_def)
  with run_read_throws [OF throws, of k bytes "[]" now ?w1] w1 show ?case by auto
qed

text \<open>Without a worker, timers expire and nothing else happens.\<close>

lemma no_workers_dead: "workers w = 0 \<Longrightarrow> step serve w e w' \<Longrightarrow> \<exists>i. e = Timer_expires i"
  by (erule stepE) auto

end
