(* ===== verification/SystemCtl.thy ===== *)
theory SystemCtl
  imports HttpContext Metrics
begin

text \<open>
  \<open>controller/SystemCtl.h\<close>: the status page.  The texts of \<open>/proc\<close>, the number of processors and
  the uptime are in the environment of a call.  Arithmetic on \<open>double\<close> is exact arithmetic on
  rationals followed by a rounding, which is a parameter.  A stream extraction that finds nothing
  leaves its variable as it was: the variables the code does not initialise start with what is in
  \<open>junk\<close>.
\<close>

section \<open>State and environment\<close>

record CpuSnapshot =
  total_time :: "64 word"
  proc_time :: "64 word"

definition default_CpuSnapshot :: CpuSnapshot where
  "default_CpuSnapshot = \<lparr>total_time = 0, proc_time = 0\<rparr>"

record proc_env =
  proc_status :: string
  proc_stat :: string
  proc_self_stat :: string
  num_processors :: int
  uptime_sec :: int
  junk :: "64 word list"
  rounding :: "rat \<Rightarrow> rat"

section \<open>Reading /proc\<close>

text \<open>The lines \<open>std::getline\<close> reads; an unfinished last line counts when it is not empty.\<close>

fun getlines :: "string \<Rightarrow> string list" where
  "getlines [] = []"
| "getlines (c # cs) =
     (if c = CHR 0x0A then [] # getlines cs
      else (case getlines cs of
              [] \<Rightarrow> [[c]]
            | l # ls \<Rightarrow> (c # l) # ls))"

definition parse_kb :: "string \<Rightarrow> int result" where
  "parse_kb line =
     (case dropWhile (\<lambda>c. \<not> is_digit c) line of
        [] \<Rightarrow> Inl (Out_of_range ''substr'')
      | val \<Rightarrow> stol val)"

text \<open>One turn of the loop: \<open>mem_kb\<close>, \<open>threads\<close> and \<open>ctxt_switches\<close>.\<close>

definition status_line :: "string \<Rightarrow> int \<times> int \<times> int \<Rightarrow> (int \<times> int \<times> int) result" where
  "status_line line = (\<lambda>(mem_kb, threads, ctxt_switches).
     if prefix ''VmRSS:'' line
     then (case parse_kb line of Inl e \<Rightarrow> Inl e | Inr v \<Rightarrow> Inr (v, threads, ctxt_switches))
     else if prefix ''Threads:'' line
     then (case stoi (drop 8 line) of Inl e \<Rightarrow> Inl e | Inr v \<Rightarrow> Inr (mem_kb, v, ctxt_switches))
     else if prefix ''voluntary_ctxt_switches:'' line
     then (case stol (drop 24 line) of Inl e \<Rightarrow> Inl e | Inr v \<Rightarrow> Inr (mem_kb, threads, v))
     else Inr (mem_kb, threads, ctxt_switches))"

fun status_lines :: "string list \<Rightarrow> int \<times> int \<times> int \<Rightarrow> (int \<times> int \<times> int) result" where
  "status_lines [] acc = Inr acc"
| "status_lines (l # ls) acc = (case status_line l acc of Inl e \<Rightarrow> Inl e | Inr acc' \<Rightarrow> status_lines ls acc')"

definition get_proc_status :: "proc_env \<Rightarrow> (int \<times> int \<times> int) result" where
  "get_proc_status P = status_lines (getlines (proc_status P)) (0, 0, 0)"

text \<open>\<open>>>\<close> into \<open>n\<close> unsigned variables with the given values.\<close>

fun extract_u64s :: "nat \<Rightarrow> string \<Rightarrow> 64 word list \<Rightarrow> 64 word list" where
  "extract_u64s 0 s vs = []"
| "extract_u64s (Suc n) s vs =
     (let s' = dropWhile isspace s;
          ds = takeWhile is_digit s'
      in if s' = [] then take (Suc n) vs
         else if ds = [] then 0 # take n (tl vs)
         else if digits_value 0 ds < 2 ^ 64
         then of_nat (digits_value 0 ds) # extract_u64s n (dropWhile is_digit s') (tl vs)
         else (- 1) # take n (tl vs))"

fun skip_words :: "nat \<Rightarrow> string \<Rightarrow> string" where
  "skip_words 0 s = s"
| "skip_words (Suc n) s = skip_words n (dropWhile (\<lambda>c. \<not> isspace c) (dropWhile isspace s))"

definition get_cpu_usage :: "proc_env \<Rightarrow> (CpuSnapshot, rat) io" where
  "get_cpu_usage P = (\<lambda>last_cpu.
     let line = (case getlines (proc_stat P) of [] \<Rightarrow> [] | l # _ \<Rightarrow> l)
     in if length line < 5 then (Inl (Out_of_range ''substr''), last_cpu)
        else
          let total_sys = sum_list (extract_u64s 7 (drop 5 line) (take 7 (junk P)));
              total_proc = sum_list (extract_u64s 2 (skip_words 13 (proc_self_stat P)) (drop 7 (junk P)));
              diff_sys = total_sys - total_time last_cpu;
              diff_proc = total_proc - proc_time last_cpu;
              rnd = rounding P;
              percent =
                (if total_time last_cpu \<noteq> 0 \<and> diff_sys > 0
                 then rnd (rnd (rnd (rnd (of_int (uint diff_proc)) / rnd (of_int (uint diff_sys)))
                        * of_int (num_processors P)) * 100)
                 else 0)
          in (Inr percent, \<lparr>total_time = total_sys, proc_time = total_proc\<rparr>))"

section \<open>The status page\<close>

definition status_data :: "proc_env \<Rightarrow> metrics \<Rightarrow> int \<times> int \<times> int \<Rightarrow> rat \<Rightarrow> json" where
  "status_data P m st cpu_usage =
     (case st of (mem_kb, threads, ctxt_switches) \<Rightarrow>
        let rnd = rounding P
        in JObj [
          (''bytes_recv_mb'', JNum (rnd (rnd (rnd (of_int (uint (bytes_received m))) / 1024) / 1024))),
          (''bytes_sent_mb'', JNum (rnd (rnd (rnd (of_int (uint (bytes_sent m))) / 1024) / 1024))),
          (''connections'', JInt (sint (active_connections m))),
          (''cpu_percent'', JNum cpu_usage),
          (''ctxt_switches'', JInt ctxt_switches),
          (''max_latency_ms'', JNum (rnd (of_int (sint (max_latency_us m)) / 1000))),
          (''memory_mb'', JNum (rnd (rnd (of_int mem_kb) / 1024))),
          (''threads'', JInt threads),
          (''total_latency_us'', JInt (uint (total_latency_us m))),
          (''total_requests'', JInt (uint (total_requests m))),
          (''uptime_seconds'', JInt (uptime_sec P))])"

text \<open>The maximal latency is read and reset before the CPU usage is computed.\<close>

definition system_status :: "json_api \<Rightarrow> proc_env \<Rightarrow> HttpContext \<Rightarrow> (metrics \<times> CpuSnapshot, Response) io" where
  "system_status J P ctx = (\<lambda>(m, last_cpu).
     case get_proc_status P of
       Inl e \<Rightarrow> (Inl e, (m, last_cpu))
     | Inr st \<Rightarrow>
         let m' = m\<lparr>max_latency_us := 0\<rparr>
         in case get_cpu_usage P last_cpu of
              (Inl e, c) \<Rightarrow> (Inl e, (m', c))
            | (Inr cpu_usage, c) \<Rightarrow> (success J ctx (status_data P m st cpu_usage) [], (m', c)))"

section \<open>Lemmas\<close>

lemma getlines_line:
  "CHR 0x0A \<notin> set l \<Longrightarrow> getlines (l @ CHR 0x0A # rest) = l # getlines rest"
  by (induction l) auto

lemma to_string_nat_no_space: "c \<in> set (to_string_nat n) \<Longrightarrow> \<not> isspace c \<and> c \<noteq> CHR 0x0A"
  using to_string_nat_digits [of c n] by (auto simp: is_digit_def isspace_def)

lemma extract_u64s_render:
  assumes "\<forall>k \<in> set ns. k < 2 ^ 64" "rest = [] \<or> \<not> is_digit (hd rest)"
  shows "extract_u64s (length ns) (concat (map (\<lambda>k. CHR '' '' # to_string_nat k) ns) @ rest) vs = map of_nat ns"
  using assms(1)
proof (induction ns arbitrary: vs)
  case (Cons k ns)
  let ?t = "concat (map (\<lambda>k. CHR '' '' # to_string_nat k) ns) @ rest"
  have t: "?t = [] \<or> \<not> is_digit (hd ?t)"
    using assms(2) by (cases ns) (auto simp: is_digit_def)
  have ds: "\<forall>c \<in> set (to_string_nat k). is_digit c" using to_string_nat_digits by blast
  have "dropWhile isspace (CHR '' '' # to_string_nat k @ ?t) = to_string_nat k @ ?t"
    using to_string_nat_no_space [of _ k] by (cases "to_string_nat k") (auto simp: isspace_def)
  moreover have "takeWhile is_digit (to_string_nat k @ ?t) = to_string_nat k" "dropWhile is_digit (to_string_nat k @ ?t) = ?t"
    using ds t by (cases ?t; auto simp: takeWhile_append2 dropWhile_append2)+
  ultimately show ?case
    using Cons by (simp add: digits_value_to_string)
qed simp

lemma skip_words_render:
  assumes "\<forall>w \<in> set ws. w \<noteq> [] \<and> (\<forall>c \<in> set w. \<not> isspace c)" "rest = [] \<or> isspace (hd rest)"
  shows "skip_words (length ws) (concat (map (\<lambda>w. CHR '' '' # w) ws) @ rest) = rest"
  using assms(1)
proof (induction ws)
  case (Cons w ws)
  let ?t = "concat (map (\<lambda>w. CHR '' '' # w) ws) @ rest"
  have t: "?t = [] \<or> isspace (hd ?t)"
    using assms(2) by (cases ws) (auto simp: isspace_def)
  have "dropWhile isspace (CHR '' '' # w @ ?t) = w @ ?t"
    using Cons.prems by (cases w) (auto simp: isspace_def)
  moreover have "dropWhile (\<lambda>c. \<not> isspace c) (w @ ?t) = ?t"
    using Cons.prems t by (cases ?t) (auto simp: dropWhile_append2)
  ultimately show ?case using Cons by simp
qed simp

text \<open>Numbers and words as \<open>/proc\<close> separates them.\<close>

definition nums :: "nat list \<Rightarrow> string" where
  "nums ns = concat (map (\<lambda>k. CHR '' '' # to_string_nat k) ns)"

definition blank_words :: "string list \<Rightarrow> string" where
  "blank_words ws = concat (map (\<lambda>w. CHR '' '' # w) ws)"

definition plain_word :: "string \<Rightarrow> bool" where
  "plain_word w \<longleftrightarrow> w \<noteq> [] \<and> (\<forall>c \<in> set w. \<not> isspace c)"

lemma leading_blank [simp]:
  "extract_u64s (Suc n) (CHR '' '' # s) vs = extract_u64s (Suc n) s vs"
  "skip_words (Suc n) (CHR '' '' # s) = skip_words (Suc n) s"
  by (simp_all add: isspace_def)

lemma nums_no_newline: "CHR 0x0A \<notin> set (nums ns)"
  using to_string_nat_no_space by (auto simp: nums_def)

lemma sys_total:
  assumes "proc_stat P = ''cpu '' @ nums (us @ vs) @ CHR 0x0A # others" "length us = 7" "\<forall>k \<in> set us. k < 2 ^ 64"
  shows "\<exists>line. getlines (proc_stat P) = line # getlines others \<and> 5 \<le> length line
    \<and> sum_list (extract_u64s 7 (drop 5 line) js) = of_nat (sum_list us)"
proof -
  let ?line = "''cpu '' @ nums (us @ vs)"
  obtain u us' where us: "us = u # us'" using assms(2) by (cases us) auto
  obtain t where t: "nums (us @ vs) = CHR '' '' # t" by (simp add: us nums_def)
  have l: "getlines (proc_stat P) = ?line # getlines others"
    using assms(1) nums_no_newline [of "us @ vs"] getlines_line [of ?line others] by simp
  have "nums vs = [] \<or> \<not> is_digit (hd (nums vs))" by (cases vs) (auto simp: nums_def is_digit_def)
  with extract_u64s_render [OF assms(3) this, of js] have "extract_u64s 7 (nums (us @ vs)) js = map of_nat us"
    by (simp add: assms(2) nums_def)
  then have "extract_u64s 7 (drop 5 ?line) js = map of_nat us"
    using leading_blank(1) [of 6 t js] by (simp add: t)
  moreover have "sum_list (map of_nat us) = (of_nat (sum_list us) :: 64 word)" by (induction us) auto
  ultimately show ?thesis using l t by auto
qed

lemma proc_total:
  assumes "CHR '' '' # proc_self_stat P = blank_words ws @ nums [ut, stm] @ rest" "rest = [] \<or> \<not> is_digit (hd rest)"
    and "length ws = 13" "\<forall>w \<in> set ws. plain_word w" "ut < 2 ^ 64" "stm < 2 ^ 64"
  shows "sum_list (extract_u64s 2 (skip_words 13 (proc_self_stat P)) js) = of_nat (ut + stm)"
proof -
  have "skip_words 13 (proc_self_stat P) = skip_words 13 (CHR '' '' # proc_self_stat P)"
    using leading_blank(2) [of 12 "proc_self_stat P"] by simp
  also have "\<dots> = nums [ut, stm] @ rest"
    using skip_words_render [of ws "nums [ut, stm] @ rest"] assms(1,3,4)
    by (simp add: blank_words_def plain_word_def nums_def isspace_def)
  finally show ?thesis
    using extract_u64s_render [of "[ut, stm]" rest js] assms(2,5,6) by (simp add: nums_def numeral_2_eq_2)
qed

lemma get_cpu_usage_run:
  assumes sys: "proc_stat P = ''cpu '' @ nums (us @ vs) @ CHR 0x0A # others" "length us = 7" "\<forall>k \<in> set us. k < 2 ^ 64"
    and self: "CHR '' '' # proc_self_stat P = blank_words ws @ nums [ut, stm] @ rest" "rest = [] \<or> \<not> is_digit (hd rest)"
      "length ws = 13" "\<forall>w \<in> set ws. plain_word w" "ut < 2 ^ 64" "stm < 2 ^ 64"
    and T: "T = of_nat (sum_list us)" "U = of_nat (ut + stm)"
  shows "get_cpu_usage P c =
    (Inr (if total_time c = 0 \<or> T = total_time c then 0
          else rounding P (rounding P (rounding P (rounding P (of_int (uint (U - proc_time c)))
                 / rounding P (of_int (uint (T - total_time c)))) * of_int (num_processors P)) * 100)),
     \<lparr>total_time = T, proc_time = U\<rparr>)"
proof -
  obtain line where line: "getlines (proc_stat P) = line # getlines others" "5 \<le> length line"
      "sum_list (extract_u64s 7 (drop 5 line) (take 7 (junk P))) = T"
    using sys_total [OF sys] T(1) by blast
  have "sum_list (extract_u64s 2 (skip_words 13 (proc_self_stat P)) (drop 7 (junk P))) = U"
    using proc_total [OF self] T(2) by simp
  with line show ?thesis
    by (simp add: get_cpu_usage_def Let_def not_less word_neq_0_conv [symmetric])
qed

text \<open>C34: on a well-formed \<open>/proc/stat\<close> and \<open>/proc/self/stat\<close> the CPU usage is 0 on the first call and
  when the system time did not move; otherwise it is the share of the process in the system time
  since the previous call, times the number of processors, times 100, with 64-bit differences; the
  totals of this call are kept for the next.\<close>

theorem cpu_usage_sampled:
  assumes sys: "proc_stat P = ''cpu '' @ nums (us @ vs) @ CHR 0x0A # others" "length us = 7" "\<forall>k \<in> set us. k < 2 ^ 64"
    and self: "CHR '' '' # proc_self_stat P = blank_words ws @ nums [ut, stm] @ rest" "rest = [] \<or> \<not> is_digit (hd rest)"
      "length ws = 13" "\<forall>w \<in> set ws. plain_word w" "ut < 2 ^ 64" "stm < 2 ^ 64"
    and T: "T = of_nat (sum_list us)" "U = of_nat (ut + stm)"
  shows "get_cpu_usage P c =
    (Inr (if total_time c = 0 \<or> T = total_time c then 0
          else rounding P (rounding P (rounding P (rounding P (of_int (uint (U - proc_time c)))
                 / rounding P (of_int (uint (T - total_time c)))) * of_int (num_processors P)) * 100)),
     \<lparr>total_time = T, proc_time = U\<rparr>)"
  by (rule get_cpu_usage_run [OF sys self T])

text \<open>\<open>/proc/self/status\<close> as the kernel prints it: among other lines, the resident memory, the
  number of threads and the voluntary switches, in this order.\<close>

definition unlines :: "string list \<Rightarrow> string" where
  "unlines ls = concat (map (\<lambda>l. l @ [CHR 0x0A]) ls)"

definition other_line :: "string \<Rightarrow> bool" where
  "other_line l \<longleftrightarrow> CHR 0x0A \<notin> set l
     \<and> \<not> prefix ''VmRSS:'' l \<and> \<not> prefix ''Threads:'' l \<and> \<not> prefix ''voluntary_ctxt_switches:'' l"

definition blanks :: "string \<Rightarrow> bool" where
  "blanks bs \<longleftrightarrow> (\<forall>c \<in> set bs. isspace c \<and> c \<noteq> CHR 0x0A)"

definition status_text :: "string \<Rightarrow> nat \<Rightarrow> nat \<Rightarrow> nat \<Rightarrow> bool" where
  "status_text text mem_kb threads switches \<longleftrightarrow>
     (\<exists>xs ys zs us b1 b2 b3. text = unlines (xs @ [''VmRSS:'' @ b1 @ to_string_nat mem_kb @ '' kB'']
          @ ys @ [''Threads:'' @ b2 @ to_string_nat threads]
          @ zs @ [''voluntary_ctxt_switches:'' @ b3 @ to_string_nat switches] @ us)
        \<and> (\<forall>l \<in> set (xs @ ys @ zs @ us). other_line l) \<and> blanks b1 \<and> blanks b2 \<and> blanks b3)"

lemma getlines_unlines: "\<forall>l \<in> set ls. CHR 0x0A \<notin> set l \<Longrightarrow> getlines (unlines ls) = ls"
  by (induction ls) (simp_all add: unlines_def getlines_line)

lemma status_lines_append:
  "status_lines (ls @ ls') acc = (case status_lines ls acc of Inl e \<Rightarrow> Inl e | Inr acc' \<Rightarrow> status_lines ls' acc')"
  by (induction ls arbitrary: acc) (simp_all split: sum.split)

lemma status_lines_other: "\<forall>l \<in> set ls. other_line l \<Longrightarrow> status_lines ls acc = Inr acc"
  by (induction ls) (auto simp: status_line_def other_line_def split: prod.splits)

lemma blanks_drop:
  assumes "blanks bs"
  shows "strtol (bs @ s) = strtol s" "dropWhile (\<lambda>c. \<not> is_digit c) (bs @ to_string_nat n @ s) = to_string_nat n @ s"
proof -
  show "strtol (bs @ s) = strtol s" using assms by (simp add: strtol_def blanks_def dropWhile_append2)
  have "\<not> is_digit c" if "c \<in> set bs" for c
    using that assms is_digit_not_space_sign by (auto simp: blanks_def)
  moreover have "dropWhile (\<lambda>c. \<not> is_digit c) (to_string_nat n @ s) = to_string_nat n @ s"
    using to_string_nat_digits [of _ n] by (cases "to_string_nat n") auto
  ultimately show "dropWhile (\<lambda>c. \<not> is_digit c) (bs @ to_string_nat n @ s) = to_string_nat n @ s"
    by (simp add: dropWhile_append2)
qed

lemma status_line_figures:
  assumes "blanks bs"
  shows "n < 2 ^ 63 \<Longrightarrow> status_line (''VmRSS:'' @ bs @ to_string_nat n @ '' kB'') (a, b, c) = Inr (int n, b, c)"
    and "n < 2 ^ 31 \<Longrightarrow> status_line (''Threads:'' @ bs @ to_string_nat n) (a, b, c) = Inr (a, int n, c)"
    and "n < 2 ^ 63 \<Longrightarrow> status_line (''voluntary_ctxt_switches:'' @ bs @ to_string_nat n) (a, b, c) = Inr (a, b, int n)"
proof -
  note drop = blanks_drop [OF assms]
  have parse: "stol (bs @ s) = stol s" "stoi (bs @ s) = stoi s" for s by (simp_all add: stol_def stoi_def drop(1))
  have "\<forall>c \<in> set ''VmRSS:''. \<not> is_digit c" by (simp add: is_digit_def)
  then have vm: "dropWhile (\<lambda>c. \<not> is_digit c) (''VmRSS:'' @ bs @ to_string_nat n @ '' kB'') = to_string_nat n @ '' kB''"
    by (simp add: drop(2))
  show "n < 2 ^ 63 \<Longrightarrow> status_line (''VmRSS:'' @ bs @ to_string_nat n @ '' kB'') (a, b, c) = Inr (int n, b, c)"
    using stol_to_string_nat [of n "'' kB''"] vm
    by (cases "to_string_nat n") (simp_all add: status_line_def parse_kb_def is_digit_def)
  show "n < 2 ^ 31 \<Longrightarrow> status_line (''Threads:'' @ bs @ to_string_nat n) (a, b, c) = Inr (a, int n, c)"
    using stoi_to_string_nat [of n "[]"] by (simp add: status_line_def parse)
  show "n < 2 ^ 63 \<Longrightarrow> status_line (''voluntary_ctxt_switches:'' @ bs @ to_string_nat n) (a, b, c) = Inr (a, b, int n)"
    using stol_to_string_nat [of n "[]"] by (simp add: status_line_def parse)
qed

lemma blanks_no_newline: "blanks bs \<Longrightarrow> CHR 0x0A \<notin> set bs"
  by (auto simp: blanks_def)

lemma get_proc_status_text:
  assumes txts: "status_text (proc_status P) mem_kb threads switches"
    and fits: "mem_kb < 2 ^ 63" "threads < 2 ^ 31" "switches < 2 ^ 63"
  shows "get_proc_status P = Inr (int mem_kb, int threads, int switches)"
proof -
  obtain xs ys zs us b1 b2 b3 where P: "proc_status P = unlines (xs @ [''VmRSS:'' @ b1 @ to_string_nat mem_kb @ '' kB'']
          @ ys @ [''Threads:'' @ b2 @ to_string_nat threads]
          @ zs @ [''voluntary_ctxt_switches:'' @ b3 @ to_string_nat switches] @ us)" (is "_ = unlines ?ls")
      and oth: "\<forall>l \<in> set (xs @ ys @ zs @ us). other_line l" and bs: "blanks b1" "blanks b2" "blanks b3"
    using txts by (auto simp: status_text_def)
  have "\<forall>l \<in> set ?ls. CHR 0x0A \<notin> set l"
    using oth blanks_no_newline [OF bs(1)] blanks_no_newline [OF bs(2)] blanks_no_newline [OF bs(3)] to_string_nat_no_space
    by (auto simp: other_line_def)
  then have "getlines (proc_status P) = ?ls" unfolding P by (rule getlines_unlines)
  moreover have "\<forall>l \<in> set xs. other_line l" "\<forall>l \<in> set ys. other_line l" "\<forall>l \<in> set zs. other_line l" "\<forall>l \<in> set us. other_line l"
    using oth by auto
  ultimately show ?thesis
    unfolding get_proc_status_def
    by (simp only: status_lines_append status_lines_other sum.case status_lines.simps
        status_line_figures(1) [OF bs(1) fits(1)] status_line_figures(2) [OF bs(2) fits(2)] status_line_figures(3) [OF bs(3) fits(3)])
qed

lemma is_double_zero: "is_double 0"
  unfolding is_double_def by (intro exI [of _ 0]) simp

lemma system_status_run:
  assumes J: "json_codec J" and rnd: "\<forall>q. is_double (rounding P q)"
    and st: "get_proc_status P = Inr st" and cpu: "get_cpu_usage P c = (Inr usage, c')"
  shows "\<exists>res. system_status J P ctx (m, c) = (Inr res, (m\<lparr>max_latency_us := 0\<rparr>, c')) \<and> res_status res = 200
    \<and> json_parse J (res_body res) = Some (success_body (status_data P m st usage) [])"
proof -
  have "is_double usage"
    using cpu rnd is_double_zero by (auto simp: get_cpu_usage_def Let_def split: if_splits)
  then have "canonical (status_data P m st usage)" "ascii_json (status_data P m st usage)"
    using rnd by (cases st; simp add: status_data_def Let_def ascii_def)+
  with success_sends [OF J, of "status_data P m st usage" "[]" ctx] show ?thesis
    using st cpu by (auto simp: system_status_def Let_def ascii_def)
qed

text \<open>C33: the status page, from the texts of \<open>/proc\<close> to the JSON object of the answer.  On a
  well-formed \<open>/proc/self/status\<close> (its figures in the range of \<open>long\<close> and \<open>int\<close>), and where the CPU
  usage can be computed, the page is sent with status 200; its data are the traffic in MiB, the
  connections as a signed number, the latencies, the memory in MiB, the threads and context switches
  read, the requests and the uptime.  The maximal latency starts again from 0, the snapshot of the CPU
  is the new one and no other counter changes.\<close>

theorem status_page:
  assumes J: "json_codec J" and rnd: "\<forall>q. is_double (rounding P q)"
    and st: "status_text (proc_status P) mem_kb threads switches" "mem_kb < 2 ^ 63" "threads < 2 ^ 31" "switches < 2 ^ 63"
    and cpu: "get_cpu_usage P c = (Inr usage, c')"
  shows "\<exists>res. system_status J P ctx (m, c) = (Inr res, (m\<lparr>max_latency_us := 0\<rparr>, c')) \<and> res_status res = 200
    \<and> json_parse J (res_body res) = Some (JObj [
        (''data'', JObj [
          (''bytes_recv_mb'', JNum (rounding P (rounding P (rounding P (of_int (uint (bytes_received m))) / 1024) / 1024))),
          (''bytes_sent_mb'', JNum (rounding P (rounding P (rounding P (of_int (uint (bytes_sent m))) / 1024) / 1024))),
          (''connections'', JInt (sint (active_connections m))),
          (''cpu_percent'', JNum usage),
          (''ctxt_switches'', JInt (int switches)),
          (''max_latency_ms'', JNum (rounding P (of_int (sint (max_latency_us m)) / 1000))),
          (''memory_mb'', JNum (rounding P (rounding P (of_nat mem_kb) / 1024))),
          (''threads'', JInt (int threads)),
          (''total_latency_us'', JInt (uint (total_latency_us m))),
          (''total_requests'', JInt (uint (total_requests m))),
          (''uptime_seconds'', JInt (uptime_sec P))]),
        (''message'', JStr []), (''status'', JStr ''ok'')])"
  using system_status_run [OF J rnd get_proc_status_text [OF st] cpu, of ctx m]
  by (simp add: success_body_def status_data_def Let_def)

section \<open>A system to try the theorems on\<close>

definition sample_proc :: "(rat \<Rightarrow> rat) \<Rightarrow> proc_env" where
  "sample_proc rnd = \<lparr>proc_status = ''VmRSS: 2048 kB'' @ [LF] @ ''Threads: 4'' @ [LF] @ ''voluntary_ctxt_switches: 9'' @ [LF],
     proc_stat = ''cpu  1 2 3 4 5 6 7 8'' @ [LF], proc_self_stat = ''9 (x) S 1 2 3 4 5 6 7 8 9 10 30 40 0'',
     num_processors = 2, uptime_sec = 60, junk = replicate 9 0, rounding = rnd\<rparr>"

lemma sample_proc_simps [simp]:
  "num_processors (sample_proc rnd) = 2" "rounding (sample_proc rnd) = rnd"
  by (simp_all add: sample_proc_def)

lemma sample_proc_stat: "proc_stat (sample_proc rnd) = ''cpu '' @ nums ([1, 2, 3, 4, 5, 6, 7] @ [8]) @ LF # []"
proof -
  have "''cpu  1 2 3 4 5 6 7 8'' @ [LF] = ''cpu '' @ nums ([1, 2, 3, 4, 5, 6, 7] @ [8]) @ LF # []" by code_simp
  then show ?thesis by (simp add: sample_proc_def)
qed

lemma sample_proc_self: "CHR '' '' # proc_self_stat (sample_proc rnd)
    = blank_words [''9'', ''(x)'', ''S'', ''1'', ''2'', ''3'', ''4'', ''5'', ''6'', ''7'', ''8'', ''9'', ''10''] @ nums [30, 40] @ '' 0''"
proof -
  have "CHR '' '' # ''9 (x) S 1 2 3 4 5 6 7 8 9 10 30 40 0''
      = blank_words [''9'', ''(x)'', ''S'', ''1'', ''2'', ''3'', ''4'', ''5'', ''6'', ''7'', ''8'', ''9'', ''10''] @ nums [30, 40] @ '' 0''"
    by code_simp
  then show ?thesis by (simp add: sample_proc_def)
qed

theorem cpu_usage_sampled_witness:
  "get_cpu_usage (sample_proc id) \<lparr>total_time = 8, proc_time = 60\<rparr> = (Inr 100, \<lparr>total_time = 28, proc_time = 70\<rparr>)"
  using cpu_usage_sampled [OF sample_proc_stat _ _ sample_proc_self, of 28 70 id "\<lparr>total_time = 8, proc_time = 60\<rparr>"]
  by (simp add: plain_word_def isspace_def is_digit_def)

lemma sample_proc_status: "status_text (proc_status (sample_proc rnd)) 2048 4 9"
proof -
  have "''VmRSS: 2048 kB'' @ [LF] @ ''Threads: 4'' @ [LF] @ ''voluntary_ctxt_switches: 9'' @ [LF]
      = unlines ([] @ [''VmRSS:'' @ '' '' @ to_string_nat 2048 @ '' kB''] @ [] @ [''Threads:'' @ '' '' @ to_string_nat 4]
          @ [] @ [''voluntary_ctxt_switches:'' @ '' '' @ to_string_nat 9] @ [])"
    by code_simp
  moreover have "blanks '' ''" by (simp add: blanks_def isspace_def)
  ultimately show ?thesis
    unfolding status_text_def sample_proc_def proc_env.simps
    by (intro exI [of _ "[] :: string list"] exI [of _ "'' ''"]) simp
qed

theorem status_page_witness:
  "\<exists>res ms. system_status ref_json (sample_proc (\<lambda>q. if is_double q then q else 0)) (sample_ctx [])
       (init_metrics\<lparr>max_latency_us := 5000, bytes_sent := 1\<rparr>, \<lparr>total_time = 0, proc_time = 0\<rparr>)
     = (Inr res, (init_metrics\<lparr>bytes_sent := 1\<rparr>, \<lparr>total_time = 28, proc_time = 70\<rparr>)) \<and> res_status res = 200
     \<and> json_parse ref_json (res_body res) = Some (JObj [(''data'', JObj ms), (''message'', JStr []), (''status'', JStr ''ok'')])
     \<and> map_of ms ''threads'' = Some (JInt 4) \<and> map_of ms ''ctxt_switches'' = Some (JInt 9)
     \<and> map_of ms ''uptime_seconds'' = Some (JInt 60)"
proof -
  let ?rnd = "\<lambda>q. if is_double q then q else 0"
  have "get_cpu_usage (sample_proc ?rnd) \<lparr>total_time = 0, proc_time = 0\<rparr> = (Inr 0, \<lparr>total_time = 28, proc_time = 70\<rparr>)"
    using get_cpu_usage_run [OF sample_proc_stat _ _ sample_proc_self, of 28 70 ?rnd "\<lparr>total_time = 0, proc_time = 0\<rparr>"]
    by (simp add: plain_word_def isspace_def is_digit_def)
  moreover have "\<forall>q. is_double (rounding (sample_proc ?rnd) q)" by (simp add: is_double_zero)
  ultimately show ?thesis
    using status_page [OF ref_codec.json_codec_axioms _ sample_proc_status, of ?rnd "\<lparr>total_time = 0, proc_time = 0\<rparr>" 0
      "\<lparr>total_time = 28, proc_time = 70\<rparr>" "sample_ctx []" "init_metrics\<lparr>max_latency_us := 5000, bytes_sent := 1\<rparr>"]
    by (fastforce simp: init_metrics_def sample_proc_def)
qed

text \<open>A process whose name has a blank shifts the fields: the two numbers read are the ones before.\<close>

lemma cpu_usage_name_with_blank:
  assumes "proc_self_stat P = ''9 (a b) S 1 2 3 4 5 6 7 8 9 10 30 40 0''"
  shows "sum_list (extract_u64s 2 (skip_words 13 (proc_self_stat P)) js) = 40"
proof -
  have "CHR '' '' # proc_self_stat P
      = blank_words [''9'', ''(a'', ''b)'', ''S'', ''1'', ''2'', ''3'', ''4'', ''5'', ''6'', ''7'', ''8'', ''9''] @ nums [10, 30] @ '' 40 0''"
    unfolding assms by code_simp
  from proc_total [OF this, of js] show ?thesis by (simp add: plain_word_def isspace_def is_digit_def)
qed

end
