(* ===== verification/Logger.thy ===== *)
theory Logger
  imports Utils "HOL-Library.Sublist"
begin

text \<open>
  \<open>common/logStream\<close> and \<open>common/logger\<close>: a message is put together in a buffer of 4000 bytes that
  drops what does not fit, and handed to the output function when the \<open>Logger\<close> is destroyed.  A
  buffer is its array and its write position.  The clock and \<open>localtime_r\<close> are parameters, and so
  is the content of a new buffer, which the code does not initialise.  The time is written only
  when the second has changed since the last message of the thread.
\<close>

section \<open>FixedBuffer\<close>

record fixed_buffer =
  cells :: string
  cur :: nat

definition kSmallBuffer :: nat where
  "kSmallBuffer = 4000"

definition new_buffer :: "string \<Rightarrow> fixed_buffer" where
  "new_buffer garbage = \<lparr>cells = garbage, cur = 0\<rparr>"

definition avail :: "fixed_buffer \<Rightarrow> int" where
  "avail b = int (length (cells b)) - int (cur b)"

definition buffer_length :: "fixed_buffer \<Rightarrow> nat" where
  "buffer_length b = cur b"

text \<open>What \<open>data()\<close> and \<open>length()\<close> delimit.\<close>

definition buffer_text :: "fixed_buffer \<Rightarrow> string" where
  "buffer_text b = take (cur b) (cells b)"

text \<open>\<open>memcpy\<close> to the write position; outside the array the behaviour is undefined: \<open>None\<close>.\<close>

definition copy_at :: "nat \<Rightarrow> string \<Rightarrow> string \<Rightarrow> string option" where
  "copy_at pos data arr =
     (if pos + length data \<le> length arr then Some (take pos arr @ data @ drop (pos + length data) arr) else None)"

text \<open>\<open>implicit_cast<size_t>\<close> of an \<open>int\<close>: the conversion to 64 bits without a sign.\<close>

definition implicit_cast :: "int \<Rightarrow> 64 word" where
  "implicit_cast f = word_of_int f"

definition buffer_append :: "string \<Rightarrow> fixed_buffer \<Rightarrow> fixed_buffer option" where
  "buffer_append data b =
     (if unat (implicit_cast (avail b)) < length data then Some b
      else map_option (\<lambda>arr. b\<lparr>cells := arr, cur := cur b + length data\<rparr>) (copy_at (cur b) data (cells b)))"

definition buffer_add :: "nat \<Rightarrow> fixed_buffer \<Rightarrow> fixed_buffer" where
  "buffer_add len b = b\<lparr>cur := cur b + len\<rparr>"

definition buffer_reset :: "fixed_buffer \<Rightarrow> fixed_buffer" where
  "buffer_reset b = b\<lparr>cur := 0\<rparr>"

definition brezo :: "fixed_buffer \<Rightarrow> fixed_buffer" where
  "brezo b = b\<lparr>cells := replicate (length (cells b)) (CHR 0x00)\<rparr>"

section \<open>LogStream\<close>

definition kMaxNumericSize :: int where
  "kMaxNumericSize = 48"

text \<open>\<open>sprintf\<close> writes the digits and a terminating zero byte at the write position.\<close>

definition formatInteger :: "int \<Rightarrow> fixed_buffer \<Rightarrow> fixed_buffer option" where
  "formatInteger v b =
     (if kMaxNumericSize < avail b
      then map_option (\<lambda>arr. buffer_add (length (to_string_int v)) (b\<lparr>cells := arr\<rparr>))
             (copy_at (cur b) (to_string_int v @ [CHR 0x00]) (cells b))
      else Some b)"

text \<open>The operands of \<open><<\<close>: a C string, perhaps null, a string, an \<open>int\<close>.\<close>

datatype piece = CStr "string option" | StdStr string | Num int

fun log_put :: "piece \<Rightarrow> fixed_buffer \<Rightarrow> fixed_buffer option" where
  "log_put (CStr None) b = buffer_append ''(null)'' b"
| "log_put (CStr (Some s)) b = buffer_append s b"
| "log_put (StdStr s) b = buffer_append s b"
| "log_put (Num v) b = formatInteger v b"

fun log_puts :: "piece list \<Rightarrow> fixed_buffer \<Rightarrow> fixed_buffer option" where
  "log_puts [] b = Some b"
| "log_puts (p # ps) b = Option.bind (log_put p b) (log_puts ps)"

section \<open>Logger\<close>

datatype LogLevel = TRACE | DEBUG | INFO | WARN | ERROR | FATAL

fun level_code :: "LogLevel \<Rightarrow> nat" where
  "level_code TRACE = 0"
| "level_code DEBUG = 1"
| "level_code INFO = 2"
| "level_code WARN = 3"
| "level_code ERROR = 4"
| "level_code FATAL = 5"

text \<open>The levels are compared as integers.\<close>

lemma level_code_inject: "level_code a = level_code b \<longleftrightarrow> a = b"
  by (cases a; cases b) simp_all

instantiation LogLevel :: linorder
begin

definition less_eq_LogLevel :: "LogLevel \<Rightarrow> LogLevel \<Rightarrow> bool" where
  "less_eq_LogLevel a b \<longleftrightarrow> level_code a \<le> level_code b"

definition less_LogLevel :: "LogLevel \<Rightarrow> LogLevel \<Rightarrow> bool" where
  "less_LogLevel a b \<longleftrightarrow> level_code a < level_code b"

instance
  by standard (auto simp: less_eq_LogLevel_def less_LogLevel_def level_code_inject)

end

definition LogLevelName :: "string list" where
  "LogLevelName = [''TRACE '', ''DEBUG '', ''INFO  '', ''WARN  '', ''ERROR '', ''FATAL '']"

record tm =
  tm_year :: int
  tm_mon :: int
  tm_mday :: int
  tm_hour :: int
  tm_min :: int
  tm_sec :: int

text \<open>The global and thread-local variables; \<open>log_output\<close> is \<open>None\<close> while no output function is set.\<close>

record log_state =
  g_logLevel :: LogLevel
  log_output :: "string list option"
  last_second :: int
  time_text :: string

definition init_log :: log_state where
  "init_log = \<lparr>g_logLevel = INFO, log_output = None, last_second = 0, time_text = []\<rparr>"

definition setLogLevel :: "LogLevel \<Rightarrow> log_state \<Rightarrow> log_state" where
  "setLogLevel level st = st\<lparr>g_logLevel := level\<rparr>"

text \<open>The output function is seen through the texts it is given.\<close>

definition setOutPutFunc :: "log_state \<Rightarrow> log_state" where
  "setOutPutFunc st = st\<lparr>log_output := Some []\<rparr>"

definition LOG_INIT :: "log_state \<Rightarrow> log_state" where
  "LOG_INIT st = setOutPutFunc (setLogLevel INFO st)"

text \<open>\<open>%0nd\<close> of a number that is not negative, and \<open>%nd\<close>.\<close>

definition pad :: "char \<Rightarrow> nat \<Rightarrow> string \<Rightarrow> string" where
  "pad c n s = replicate (n - length s) c @ s"

definition time_format :: "tm \<Rightarrow> string" where
  "time_format t =
     pad (CHR '' '') 4 (to_string_int (tm_year t + 1900)) @ pad (CHR ''0'') 2 (to_string_int (tm_mon t + 1))
     @ pad (CHR ''0'') 2 (to_string_int (tm_mday t)) @ '' '' @ pad (CHR ''0'') 2 (to_string_int (tm_hour t)) @ '':''
     @ pad (CHR ''0'') 2 (to_string_int (tm_min t)) @ '':'' @ pad (CHR ''0'') 2 (to_string_int (tm_sec t))"

definition Fmt_micros :: "int \<Rightarrow> string" where
  "Fmt_micros us = ''.'' @ pad (CHR ''0'') 6 (to_string_int us)"

text \<open>The clock is in microseconds since the epoch, and not before it.  A time that does not take 17
  characters or a fraction that fills the buffer of \<open>Fmt\<close> fails an assertion: \<open>None\<close>.\<close>

definition formatTime :: "(int \<Rightarrow> tm) \<Rightarrow> int \<Rightarrow> log_state \<times> fixed_buffer \<Rightarrow> (log_state \<times> fixed_buffer) option" where
  "formatTime localtime now = (\<lambda>(st, b).
     let seconds = now div kMicroSecondsPerSecond;
         microseconds = now mod kMicroSecondsPerSecond
     in if seconds \<noteq> last_second st
        then let st' = st\<lparr>last_second := seconds, time_text := time_format (localtime seconds)\<rparr>
             in if length (time_text st') \<noteq> 17 \<or> 32 \<le> length (Fmt_micros microseconds) then None
                else map_option (Pair st') (log_puts [CStr (Some (time_text st')), CStr (Some (Fmt_micros microseconds))] b)
        else Some (st, b))"

text \<open>\<open>Logger::Impl\<close>; its members \<open>timestamp_\<close> and \<open>tid_\<close> are never used.\<close>

record Logger_Impl =
  impl_level :: LogLevel
  impl_stream :: fixed_buffer
  impl_filename :: string
  impl_line :: int

text \<open>The constructor, \<open>finish\<close> and the destructor.  The destructor gives the buffer that it hands to the
  output function, or nothing below the threshold.\<close>

definition logger_open ::
  "(int \<Rightarrow> tm) \<Rightarrow> int \<Rightarrow> string \<Rightarrow> LogLevel \<Rightarrow> string \<Rightarrow> int \<Rightarrow> log_state \<Rightarrow> (log_state \<times> Logger_Impl) option" where
  "logger_open localtime now garbage level file line st =
     (case formatTime localtime now (st, new_buffer garbage) of
        None \<Rightarrow> None
      | Some (st', b) \<Rightarrow>
          map_option (\<lambda>b'. (st', \<lparr>impl_level = level, impl_stream = b', impl_filename = file, impl_line = line\<rparr>))
            (log_puts [CStr (Some '' ''), CStr (Some (LogLevelName ! level_code level))] b))"

text \<open>\<open>stream() << pieces\<close>.\<close>

definition logger_puts :: "piece list \<Rightarrow> Logger_Impl \<Rightarrow> Logger_Impl option" where
  "logger_puts ps impl = map_option (\<lambda>b. impl\<lparr>impl_stream := b\<rparr>) (log_puts ps (impl_stream impl))"

definition finish_pieces :: "string \<Rightarrow> int \<Rightarrow> piece list" where
  "finish_pieces file line = [CStr (Some '' -''), StdStr file, CStr (Some '':''), Num line, CStr (Some [CHR 0x0A])]"

definition finish_line :: "Logger_Impl \<Rightarrow> Logger_Impl option" where
  "finish_line impl = logger_puts (finish_pieces (impl_filename impl) (impl_line impl)) impl"

definition logger_destroy :: "log_state \<Rightarrow> Logger_Impl \<Rightarrow> fixed_buffer option option" where
  "logger_destroy st impl =
     (if impl_level impl < g_logLevel st then Some None
      else map_option (\<lambda>impl'. Some (impl_stream impl')) (finish_line impl))"

text \<open>The output function of \<open>LOG_INIT\<close> writes as many bytes as it is told; the call of one that is not set
  is undefined: \<open>None\<close>.\<close>

definition put_out :: "fixed_buffer option \<Rightarrow> log_state \<Rightarrow> log_state option" where
  "put_out buf st =
     (case buf of
        None \<Rightarrow> Some st
      | Some b \<Rightarrow> map_option (\<lambda>out. st\<lparr>log_output := Some (out @ [buffer_text b])\<rparr>) (log_output st))"

text \<open>\<open>LOG_xxx << pieces\<close>.\<close>

definition log_message ::
  "(int \<Rightarrow> tm) \<Rightarrow> int \<Rightarrow> string \<Rightarrow> LogLevel \<Rightarrow> string \<Rightarrow> int \<Rightarrow> piece list \<Rightarrow> log_state \<Rightarrow> log_state option" where
  "log_message localtime now garbage level file line ps st =
     Option.bind (logger_open localtime now garbage level file line st) (\<lambda>(st', impl).
     Option.bind (logger_puts ps impl) (\<lambda>impl'.
     Option.bind (logger_destroy st' impl') (\<lambda>buf. put_out buf st')))"

section \<open>Nothing is written outside the buffer\<close>

definition buffer_ok :: "fixed_buffer \<Rightarrow> bool" where
  "buffer_ok b \<longleftrightarrow> length (cells b) = kSmallBuffer \<and> cur b \<le> kSmallBuffer"

fun piece_text :: "piece \<Rightarrow> string" where
  "piece_text (CStr None) = ''(null)''"
| "piece_text (CStr (Some s)) = s"
| "piece_text (StdStr s) = s"
| "piece_text (Num v) = to_string_int v"

text \<open>An \<open>int\<close> is one of 32 bits.\<close>

fun piece_ok :: "piece \<Rightarrow> bool" where
  "piece_ok (Num v) \<longleftrightarrow> - (2 ^ 31) \<le> v \<and> v < 2 ^ 31"
| "piece_ok _ \<longleftrightarrow> True"

lemma to_string_nat_length: "n < 10 ^ k \<Longrightarrow> 0 < k \<Longrightarrow> length (to_string_nat n) \<le> k"
proof (induction k arbitrary: n)
  case (Suc k)
  show ?case
  proof (cases "n < 10")
    case True
    then show ?thesis by (subst to_string_nat.simps) simp
  next
    case False
    with Suc.prems(1) have "n div 10 < 10 ^ k" "0 < k" by (cases k; simp)+
    with Suc.IH have "length (to_string_nat (n div 10)) \<le> k" by simp
    with False show ?thesis by (subst to_string_nat.simps) simp
  qed
qed simp

lemma to_string_int_length:
  assumes "- (2 ^ 31) \<le> v" "v < 2 ^ 31"
  shows "length (to_string_int v) \<le> 11"
proof -
  have "nat \<bar>v\<bar> < 10 ^ 10" using assms by simp
  then have "length (to_string_nat (nat \<bar>v\<bar>)) \<le> 10" by (rule to_string_nat_length) simp
  then show ?thesis by (auto simp: to_string_int_def)
qed

lemma copy_at_ok:
  assumes "pos + length data \<le> length arr"
  shows "\<exists>arr'. copy_at pos data arr = Some arr' \<and> length arr' = length arr
    \<and> (\<forall>n \<le> length data. take (pos + n) arr' = take pos arr @ take n data)"
  using assms by (simp add: copy_at_def)

lemma unat_implicit_cast: "0 \<le> n \<Longrightarrow> n < 2 ^ 64 \<Longrightarrow> unat (implicit_cast n) = nat n"
  by (simp add: implicit_cast_def unsigned_of_int take_bit_int_eq_self)

lemma avail_cast: "buffer_ok b \<Longrightarrow> unat (implicit_cast (avail b)) = kSmallBuffer - cur b"
  by (subst unat_implicit_cast) (auto simp: avail_def buffer_ok_def kSmallBuffer_def)

text \<open>The cast makes the check worthless where the write position is past the end: the free space is then
  negative, and as an unsigned number larger than any text.\<close>

lemma append_past_end:
  assumes "length (cells b) < cur b" "cur b < 2 ^ 31" "length data < 2 ^ 63"
  shows "buffer_append data b = None"
proof -
  have "unat (implicit_cast (avail b)) = nat (avail b + 2 ^ 64)"
  proof -
    have "implicit_cast (avail b) = implicit_cast (avail b + 2 ^ 64)"
      by (simp add: implicit_cast_def word_of_int_eq_iff take_bit_int_def)
    with assms(1,2) show ?thesis by (simp add: unat_implicit_cast avail_def)
  qed
  with assms show ?thesis by (simp add: buffer_append_def copy_at_def avail_def)
qed

text \<open>An operand is appended whole or not at all.\<close>

lemma buffer_append_ok:
  assumes "buffer_ok b"
  shows "\<exists>b'. buffer_append data b = Some b' \<and> buffer_ok b'
    \<and> buffer_text b' = buffer_text b @ (if cur b + length data \<le> kSmallBuffer then data else [])
    \<and> cur b' = cur b + (if cur b + length data \<le> kSmallBuffer then length data else 0)"
proof (cases "cur b + length data \<le> kSmallBuffer")
  case True
  with assms obtain arr where "copy_at (cur b) data (cells b) = Some arr" "length arr = kSmallBuffer"
      "take (cur b + length data) arr = take (cur b) (cells b) @ data"
    using copy_at_ok [of "cur b" data "cells b"] by (auto simp: buffer_ok_def)
  moreover from True have "\<not> kSmallBuffer - cur b < length data" by simp
  ultimately show ?thesis using True assms
    by (simp add: buffer_append_def avail_cast) (simp add: buffer_ok_def buffer_text_def)
next
  case False
  then have "kSmallBuffer - cur b < length data" using assms by (auto simp: buffer_ok_def)
  with False assms show ?thesis by (simp add: buffer_append_def avail_cast)
qed

lemma formatInteger_ok:
  assumes "buffer_ok b" "- (2 ^ 31) \<le> v" "v < 2 ^ 31"
  shows "\<exists>b'. formatInteger v b = Some b' \<and> buffer_ok b'
    \<and> buffer_text b' = buffer_text b @ (if cur b + 48 < kSmallBuffer then to_string_int v else [])
    \<and> cur b' = cur b + (if cur b + 48 < kSmallBuffer then length (to_string_int v) else 0)"
proof (cases "cur b + 48 < kSmallBuffer")
  case True
  note len = to_string_int_length [OF assms(2,3)]
  with True assms(1) obtain arr where arr: "copy_at (cur b) (to_string_int v @ [CHR 0x00]) (cells b) = Some arr"
      "length arr = kSmallBuffer"
      "\<forall>n \<le> length (to_string_int v @ [CHR 0x00]). take (cur b + n) arr = take (cur b) (cells b) @ take n (to_string_int v @ [CHR 0x00])"
    using copy_at_ok [of "cur b" "to_string_int v @ [CHR 0x00]" "cells b"] by (auto simp: buffer_ok_def)
  from arr(3) have "take (cur b + length (to_string_int v)) arr = take (cur b) (cells b) @ to_string_int v"
    by (drule_tac spec [where x = "length (to_string_int v)"]) simp
  with True assms(1) len arr(1,2) show ?thesis
    by (simp add: formatInteger_def buffer_add_def avail_def kMaxNumericSize_def buffer_ok_def buffer_text_def)
next
  case False
  with assms(1) show ?thesis by (simp add: formatInteger_def avail_def kMaxNumericSize_def buffer_ok_def)
qed

lemma log_put_ok:
  assumes "buffer_ok b" "piece_ok p"
  shows "\<exists>b' t. log_put p b = Some b' \<and> buffer_ok b' \<and> t \<in> {[], piece_text p} \<and> buffer_text b' = buffer_text b @ t
    \<and> cur b' = cur b + length t \<and> (cur b + length (piece_text p) + 48 < kSmallBuffer \<longrightarrow> t = piece_text p)"
proof -
  have "\<exists>b' c. log_put p b = Some b' \<and> buffer_ok b' \<and> buffer_text b' = buffer_text b @ (if c then piece_text p else [])
      \<and> cur b' = cur b + (if c then length (piece_text p) else 0)
      \<and> (cur b + length (piece_text p) + 48 < kSmallBuffer \<longrightarrow> c)"
  proof (cases p)
    case (CStr s)
    then have "log_put p b = buffer_append (piece_text p) b" by (cases s) simp_all
    with buffer_append_ok [OF assms(1), of "piece_text p"] show ?thesis
      by (intro exI [of _ "the (log_put p b)"] exI [of _ "cur b + length (piece_text p) \<le> kSmallBuffer"]) auto
  next
    case (StdStr s)
    with buffer_append_ok [OF assms(1), of s] show ?thesis
      by (intro exI [of _ "the (log_put p b)"] exI [of _ "cur b + length s \<le> kSmallBuffer"]) auto
  next
    case (Num v)
    with formatInteger_ok [OF assms(1), of v] assms(2) show ?thesis
      by (intro exI [of _ "the (formatInteger v b)"] exI [of _ "cur b + 48 < kSmallBuffer"]) auto
  qed
  then show ?thesis by (auto split: if_splits)
qed

abbreviation pieces_text :: "piece list \<Rightarrow> string" where
  "pieces_text ps \<equiv> concat (map piece_text ps)"

text \<open>A list of operands leaves the operands that fitted, in their order.\<close>

lemma log_puts_ok:
  assumes "buffer_ok b" "\<forall>p \<in> set ps. piece_ok p"
  shows "\<exists>b' qs. log_puts ps b = Some b' \<and> buffer_ok b' \<and> subseq qs ps \<and> buffer_text b' = buffer_text b @ pieces_text qs
    \<and> cur b' = cur b + length (pieces_text qs) \<and> (cur b + length (pieces_text ps) + 48 < kSmallBuffer \<longrightarrow> qs = ps)"
  using assms
proof (induction ps arbitrary: b)
  case (Cons p ps)
  from log_put_ok [OF Cons.prems(1), of p] Cons.prems(2) obtain b1 t where b1: "log_put p b = Some b1" "buffer_ok b1"
      "t \<in> {[], piece_text p}" "buffer_text b1 = buffer_text b @ t" "cur b1 = cur b + length t"
      "cur b + length (piece_text p) + 48 < kSmallBuffer \<longrightarrow> t = piece_text p" by auto
  from Cons.IH [OF b1(2)] Cons.prems(2) obtain b2 qs where b2: "log_puts ps b1 = Some b2" "buffer_ok b2" "subseq qs ps"
      "buffer_text b2 = buffer_text b1 @ pieces_text qs" "cur b2 = cur b1 + length (pieces_text qs)"
      "cur b1 + length (pieces_text ps) + 48 < kSmallBuffer \<longrightarrow> qs = ps" by auto
  show ?case
  proof (cases "t = piece_text p")
    case True
    with b1 b2 show ?thesis by (intro exI [of _ b2] exI [of _ "p # qs"]) auto
  next
    case False
    with b1 b2 show ?thesis by (intro exI [of _ b2] exI [of _ qs]) auto
  qed
qed (auto intro: exI [of _ "[]"])

lemma log_puts_append: "log_puts (ps @ qs) b = Option.bind (log_puts ps b) (log_puts qs)"
  proof (induction ps arbitrary: b)
  case (Cons p ps)
  then show ?case by (cases "log_put p b") simp_all
qed simp

section \<open>A log line\<close>

text \<open>What \<open>localtime_r\<close> promises for an instant whose year has four digits.\<close>

definition valid_tm :: "tm \<Rightarrow> bool" where
  "valid_tm t \<longleftrightarrow> 1000 \<le> tm_year t + 1900 \<and> tm_year t + 1900 \<le> 9999 \<and> 0 \<le> tm_mon t \<and> tm_mon t \<le> 11
     \<and> 1 \<le> tm_mday t \<and> tm_mday t \<le> 31 \<and> 0 \<le> tm_hour t \<and> tm_hour t \<le> 23 \<and> 0 \<le> tm_min t \<and> tm_min t \<le> 59
     \<and> 0 \<le> tm_sec t \<and> tm_sec t \<le> 60"

text \<open>The instant that is logged is such a one.\<close>

definition clock_ok :: "(int \<Rightarrow> tm) \<Rightarrow> int \<Rightarrow> bool" where
  "clock_ok localtime now \<longleftrightarrow> valid_tm (localtime (now div kMicroSecondsPerSecond))"

lemma pad_number_length:
  assumes "0 \<le> v" "v < 10 ^ n" "0 < n"
  shows "length (pad c n (to_string_int v)) = n"
proof -
  from assms have "nat v < 10 ^ n" by (simp add: nat_less_iff)
  with assms show ?thesis by (simp add: pad_def to_string_int_def to_string_nat_length)
qed

lemma time_format_length: "valid_tm t \<Longrightarrow> length (time_format t) = 17"
  by (simp add: time_format_def valid_tm_def pad_number_length)

lemma Fmt_micros_length: "length (Fmt_micros (now mod kMicroSecondsPerSecond)) = 7"
  by (simp add: Fmt_micros_def pad_number_length kMicroSecondsPerSecond_def)

text \<open>The operands of a message: the time when the second is new, the level, the text, the place.\<close>

definition stamp :: "(int \<Rightarrow> tm) \<Rightarrow> int \<Rightarrow> log_state \<Rightarrow> piece list" where
  "stamp localtime now st =
     (if now div kMicroSecondsPerSecond = last_second st then []
      else [CStr (Some (time_format (localtime (now div kMicroSecondsPerSecond)))),
            CStr (Some (Fmt_micros (now mod kMicroSecondsPerSecond)))])"

definition line_pieces :: "(int \<Rightarrow> tm) \<Rightarrow> int \<Rightarrow> LogLevel \<Rightarrow> string \<Rightarrow> int \<Rightarrow> piece list \<Rightarrow> log_state \<Rightarrow> piece list" where
  "line_pieces localtime now level file line ps st =
     stamp localtime now st @ [CStr (Some '' ''), CStr (Some (LogLevelName ! level_code level))] @ ps @ finish_pieces file line"

definition stamped :: "(int \<Rightarrow> tm) \<Rightarrow> int \<Rightarrow> log_state \<Rightarrow> log_state" where
  "stamped localtime now st =
     (if now div kMicroSecondsPerSecond = last_second st then st
      else st\<lparr>last_second := now div kMicroSecondsPerSecond,
             time_text := time_format (localtime (now div kMicroSecondsPerSecond))\<rparr>)"

lemma stamped_simps [simp]:
  "last_second (stamped localtime now st) = now div kMicroSecondsPerSecond"
  "g_logLevel (stamped localtime now st) = g_logLevel st"
  "log_output (stamped localtime now st) = log_output st"
  by (auto simp: stamped_def)

lemma logger_open_eq:
  assumes "clock_ok localtime now"
  shows "logger_open localtime now garbage level file line st =
    map_option (\<lambda>b. (stamped localtime now st, \<lparr>impl_level = level, impl_stream = b, impl_filename = file, impl_line = line\<rparr>))
    (log_puts (stamp localtime now st @ [CStr (Some '' ''), CStr (Some (LogLevelName ! level_code level))]) (new_buffer garbage))"
  using assms
  by (simp add: clock_ok_def logger_open_def formatTime_def stamp_def stamped_def log_puts_append time_format_length Fmt_micros_length Let_def
      del: log_puts.simps(2) split: option.splits)

text \<open>Constructor, message and destructor together: the operands go into one new buffer, and \<open>f\<close> is what
  happens to it.\<close>

lemma logger_life:
  assumes "clock_ok localtime now"
  shows "Option.bind (logger_open localtime now garbage level file line st) (\<lambda>(st', impl).
      Option.bind (logger_puts ps impl) (\<lambda>impl'. Option.bind (logger_destroy st' impl') (f st'))) =
    (if level < g_logLevel st
     then Option.bind (log_puts (stamp localtime now st @ [CStr (Some '' ''), CStr (Some (LogLevelName ! level_code level))] @ ps)
            (new_buffer garbage)) (\<lambda>_. f (stamped localtime now st) None)
     else Option.bind (log_puts (line_pieces localtime now level file line ps st) (new_buffer garbage))
            (\<lambda>b. f (stamped localtime now st) (Some b)))"
proof -
  have split: "stamp localtime now st @ [CStr (Some '' ''), CStr (Some (LogLevelName ! level_code level))] @ qs
      = (stamp localtime now st @ [CStr (Some '' ''), CStr (Some (LogLevelName ! level_code level))]) @ qs" for qs by simp
  show ?thesis
    unfolding logger_open_eq [OF assms] line_pieces_def split log_puts_append [of _ ps] log_puts_append [of _ "ps @ _"]
      logger_puts_def logger_destroy_def finish_line_def
    by (simp add: log_puts_append [of ps] split: bind_split)
qed

lemma new_buffer_simps: "buffer_text (new_buffer garbage) = []" "cur (new_buffer garbage) = 0"
  by (simp_all add: new_buffer_def buffer_text_def)

lemma log_message_run:
  assumes "clock_ok localtime now" "length garbage = kSmallBuffer" "\<forall>p \<in> set ps. piece_ok p"
    and "- (2 ^ 31) \<le> line" "line < 2 ^ 31" "log_output st = Some out"
  shows "\<exists>qs. subseq qs (line_pieces localtime now level file line ps st) \<and> length (pieces_text qs) \<le> kSmallBuffer
    \<and> (length (pieces_text (line_pieces localtime now level file line ps st)) + 48 < kSmallBuffer
        \<longrightarrow> qs = line_pieces localtime now level file line ps st)
    \<and> log_message localtime now garbage level file line ps st =
        Some (if level < g_logLevel st then stamped localtime now st
              else (stamped localtime now st)\<lparr>log_output := Some (out @ [pieces_text qs])\<rparr>)"
proof -
  let ?all = "line_pieces localtime now level file line ps st"
  let ?open = "stamp localtime now st @ [CStr (Some '' ''), CStr (Some (LogLevelName ! level_code level))] @ ps"
  have ok: "\<forall>p \<in> set ?all. piece_ok p" "\<forall>p \<in> set ?open. piece_ok p"
    using assms(3-5) by (auto simp: line_pieces_def stamp_def finish_pieces_def)
  have new: "buffer_ok (new_buffer garbage)" using assms(2) by (simp add: buffer_ok_def new_buffer_def)
  from log_puts_ok [OF new ok(1)] obtain b qs where b: "log_puts ?all (new_buffer garbage) = Some b" "buffer_ok b" "subseq qs ?all"
      "buffer_text b = pieces_text qs" "cur b = length (pieces_text qs)"
      "length (pieces_text ?all) + 48 < kSmallBuffer \<longrightarrow> qs = ?all"
    unfolding new_buffer_simps append_Nil add_0 by blast
  from log_puts_ok [OF new ok(2)] obtain b0 where "log_puts ?open (new_buffer garbage) = Some b0" by blast
  with b(1) have "log_message localtime now garbage level file line ps st =
      Some (if level < g_logLevel st then stamped localtime now st
            else (stamped localtime now st)\<lparr>log_output := Some (out @ [pieces_text qs])\<rparr>)"
    unfolding log_message_def logger_life [OF assms(1), where f = "\<lambda>st' buf. put_out buf st'"]
    by (simp add: put_out_def assms(6) b(4))
  with b(2,3,5,6) show ?thesis by (auto simp: buffer_ok_def)
qed

text \<open>C32: logging never fails and never writes outside its 4000 bytes, whatever the length of the
  operands: no assertion fails, a message below the threshold is not put out, and any other puts out
  one line of at most 4000 bytes that holds, in their order and each one whole, the operands that
  fitted: the time if the second is new to the thread, the level, the text and the place in the
  source.  When the line leaves 48 bytes, it is complete.\<close>

theorem log_line_bounded:
  assumes "clock_ok localtime now" "length garbage = kSmallBuffer" "\<forall>p \<in> set ps. piece_ok p"
    and "- (2 ^ 31) \<le> line" "line < 2 ^ 31" "log_output st = Some out"
  shows "\<exists>st' qs. log_message localtime now garbage level file line ps st = Some st'
    \<and> log_output st' = Some (if level < g_logLevel st then out else out @ [pieces_text qs])
    \<and> subseq qs (line_pieces localtime now level file line ps st) \<and> length (pieces_text qs) \<le> 4000
    \<and> (length (pieces_text (line_pieces localtime now level file line ps st)) < 3952
        \<longrightarrow> qs = line_pieces localtime now level file line ps st)"
  using log_message_run [OF assms, of level "file"] assms(6)
  by (auto simp: kSmallBuffer_def)

definition sample_localtime :: "int \<Rightarrow> tm" where
  "sample_localtime t = \<lparr>tm_year = 125, tm_mon = 11, tm_mday = 5, tm_hour = 8, tm_min = 30, tm_sec = t mod 60\<rparr>"

lemma sample_localtime_valid: "clock_ok sample_localtime now"
  by (auto simp: clock_ok_def valid_tm_def sample_localtime_def intro: order.strict_implies_order order.strict_trans)

text \<open>A message of 5000 bytes is dropped, and the rest of the line is put out.\<close>

theorem log_line_bounded_witness:
  "\<exists>st' line. log_message sample_localtime 7000250 (replicate 4000 CHR 0x00) ERROR ''a.cc'' 12
       [StdStr (replicate 5000 CHR 0x41)] (LOG_INIT init_log) = Some st'
     \<and> log_output st' = Some [line] \<and> length line \<le> 4000"
proof -
  have g: "length (replicate 4000 CHR 0x00) = kSmallBuffer" by (simp only: length_replicate kSmallBuffer_def)
  have p: "\<forall>p \<in> set [StdStr (replicate 5000 CHR 0x41)]. piece_ok p" by simp
  have l: "ERROR < g_logLevel (LOG_INIT init_log) \<longleftrightarrow> False" by (simp add: less_LogLevel_def LOG_INIT_def setOutPutFunc_def setLogLevel_def)
  from log_line_bounded [OF sample_localtime_valid [of 7000250] g p, of 12 "LOG_INIT init_log" "[]" ERROR "''a.cc''"]
  show ?thesis unfolding l by (auto simp: LOG_INIT_def setOutPutFunc_def setLogLevel_def)
qed

text \<open>The time is eaten by the first message of a second, printed or not: of two messages in one
  second, the first below the threshold and the second above it, only the second is put out, and its
  line begins with a blank and the level instead of the time.\<close>

theorem time_eaten_by_suppressed:
  assumes "clock_ok localtime now" "length garbage = 4000" "length garbage' = 4000"
    and "log_output st = Some out" "l1 < g_logLevel st" "g_logLevel st \<le> l2"
    and "now' div 1000000 = now div 1000000"
    and "length file + length s < 3900" "- (2 ^ 31) \<le> line" "line < 2 ^ 31"
  shows "\<exists>st' st''. log_message localtime now garbage l1 file line [StdStr s] st = Some st'
    \<and> log_message localtime now' garbage' l2 file line [StdStr s] st' = Some st''
    \<and> log_output st' = Some out
    \<and> log_output st'' = Some (out @ ['' '' @ (LogLevelName ! level_code l2) @ s @ '' -'' @ file @ '':'' @ to_string_int line @ [CHR 0x0A]])"
proof -
  let ?st = "stamped localtime now st"
  have ps: "\<forall>p \<in> set [StdStr s]. piece_ok p" by simp
  have sec: "now' div kMicroSecondsPerSecond = now div kMicroSecondsPerSecond"
    using assms(7) by (simp add: kMicroSecondsPerSecond_def)
  have valid: "clock_ok localtime now'" using assms(1) by (simp add: clock_ok_def sec)
  have first: "log_message localtime now garbage l1 file line [StdStr s] st = Some ?st"
    using log_message_run [OF assms(1) _ ps assms(9,10,4), of garbage l1 "file"] assms(2,5) by (auto simp: kSmallBuffer_def)
  have pieces: "line_pieces localtime now' l2 file line [StdStr s] ?st =
      [CStr (Some '' ''), CStr (Some (LogLevelName ! level_code l2)), StdStr s] @ finish_pieces file line"
    by (simp add: line_pieces_def stamp_def sec)
  have "length (to_string_int line) \<le> 11" by (rule to_string_int_length [OF assms(9,10)])
  moreover have "length (LogLevelName ! level_code l2) = 6" by (cases l2) (simp_all add: LogLevelName_def)
  ultimately have short: "length (pieces_text (line_pieces localtime now' l2 file line [StdStr s] ?st)) + 48 < kSmallBuffer"
    using assms(8) by (simp add: pieces finish_pieces_def kSmallBuffer_def)
  have "log_message localtime now' garbage' l2 file line [StdStr s] ?st =
      Some ((stamped localtime now' ?st)\<lparr>log_output := Some (out @ [pieces_text (line_pieces localtime now' l2 file line [StdStr s] ?st)])\<rparr>)"
    using log_message_run [OF valid _ ps assms(9,10), of garbage' ?st out l2 "file"] assms(3,4,6) short
    by (auto simp: kSmallBuffer_def)
  with first show ?thesis by (simp add: assms(4) pieces finish_pieces_def)
qed

theorem time_eaten_by_suppressed_witness:
  "\<exists>st' st''. log_message sample_localtime 7000250 (replicate 4000 CHR 0x00) DEBUG ''a.cc'' 12 [StdStr ''hi''] (LOG_INIT init_log) = Some st'
     \<and> log_message sample_localtime 7900000 (replicate 4000 CHR 0x01) WARN ''a.cc'' 12 [StdStr ''hi''] st' = Some st''
     \<and> log_output st'' = Some ['' WARN  hi -a.cc:12'' @ [CHR 0x0A]]"
proof -
  have g: "length (replicate 4000 c) = 4000" for c :: char by (simp only: length_replicate)
  have "to_string_int 12 = ''12''" by code_simp
  then show ?thesis
    using time_eaten_by_suppressed [OF sample_localtime_valid [of 7000250] g g, of "LOG_INIT init_log" "[]" DEBUG WARN 7900000
        "''a.cc''" "''hi''" 12 "CHR 0x00" "CHR 0x01"]
    by (auto simp: less_LogLevel_def less_eq_LogLevel_def LOG_INIT_def setOutPutFunc_def setLogLevel_def init_log_def LogLevelName_def)
qed

end
