(* ===== verification/LogDemo.thy ===== *)
theory LogDemo
  imports Logger
begin

text \<open>
  \<open>test/test_log.cc\<close>: a program that logs one message, with an output function that prints the buffer as
  a C string and ignores the length it is given.  The buffer is not terminated, so the print goes on
  into what the memory held before; the output function of \<open>LOG_INIT\<close> does not do that.
\<close>

section \<open>The program\<close>

text \<open>\<open>std::cout << msg\<close>: up to the first zero byte; without one in the array the behaviour is undefined.\<close>

definition c_string :: "string \<Rightarrow> string option" where
  "c_string arr = (if CHR 0x00 \<in> set arr then Some (takeWhile (\<lambda>c. c \<noteq> CHR 0x00) arr) else None)"

definition print_c_string :: "fixed_buffer option \<Rightarrow> string option" where
  "print_c_string buf =
     (case buf of None \<Rightarrow> Some [] | Some b \<Rightarrow> map_option (\<lambda>s. s @ [CHR 0x0A]) (c_string (cells b)))"

definition test_log :: "(int \<Rightarrow> tm) \<Rightarrow> int \<Rightarrow> string \<Rightarrow> string \<Rightarrow> int \<Rightarrow> string option" where
  "test_log localtime now garbage file line =
     (let st = setOutPutFunc (setLogLevel TRACE init_log)
      in Option.bind (logger_open localtime now garbage TRACE file line st) (\<lambda>(st', impl).
         Option.bind (logger_puts [CStr (Some ''hello world'')] impl) (\<lambda>impl'.
         Option.bind (logger_destroy st' impl') print_c_string)))"

section \<open>What follows the text in the array\<close>

text \<open>Beyond the write position an operand leaves the array as it was, but for the zero byte after a number.\<close>

lemma copy_at_drop: "copy_at pos data arr = Some arr' \<Longrightarrow> pos + length data \<le> n \<Longrightarrow> drop n arr' = drop n arr"
  by (auto simp: copy_at_def split: if_splits)

lemma buffer_append_drop:
  assumes "buffer_append data b = Some b'" "cur b' \<le> n"
  shows "drop n (cells b') = drop n (cells b)"
  using assms copy_at_drop by (auto simp: buffer_append_def split: if_splits)

lemma formatInteger_drop:
  assumes "formatInteger v b = Some b'" "cur b' < n"
  shows "drop n (cells b') = drop n (cells b)"
  using assms copy_at_drop by (auto simp: formatInteger_def buffer_add_def split: if_splits)

lemma log_put_drop: "log_put p b = Some b' \<Longrightarrow> cur b' < n \<Longrightarrow> drop n (cells b') = drop n (cells b)"
  by (cases "(p, b)" rule: log_put.cases) (auto simp: buffer_append_drop formatInteger_drop)

lemma log_put_cur: "log_put p b = Some b' \<Longrightarrow> cur b \<le> cur b'"
  by (cases "(p, b)" rule: log_put.cases) (auto simp: buffer_append_def formatInteger_def buffer_add_def split: if_splits)

lemma log_puts_cur: "log_puts ps b = Some b' \<Longrightarrow> cur b \<le> cur b'"
  by (induction ps arbitrary: b) (auto simp: bind_eq_Some_conv dest: log_put_cur order_trans)

lemma log_puts_drop: "log_puts ps b = Some b' \<Longrightarrow> cur b' < n \<Longrightarrow> drop n (cells b') = drop n (cells b)"
proof (induction ps arbitrary: b)
  case (Cons p ps)
  then obtain b1 where b1: "log_put p b = Some b1" "log_puts ps b1 = Some b'" by (auto simp: bind_eq_Some_conv)
  with log_puts_cur [OF b1(2)] Cons.prems(2) log_put_drop [OF b1(1), of n] Cons.IH [OF b1(2)] show ?case by simp
qed simp

text \<open>A line that ends with a character that fitted is followed by what was there.\<close>

lemma log_puts_last:
  assumes "log_puts (ps @ [CStr (Some [c])]) b = Some b'" "buffer_ok b" "\<forall>p \<in> set ps. piece_ok p"
    and "cur b + length (pieces_text ps) + 49 < kSmallBuffer"
  shows "cells b' = buffer_text b @ pieces_text ps @ c # drop (cur b + length (pieces_text ps) + 1) (cells b)"
proof -
  let ?ps = "ps @ [CStr (Some [c])]"
  obtain b1 where b1: "log_puts ps b = Some b1" "buffer_append [c] b1 = Some b'"
    using assms(1) by (auto simp: log_puts_append bind_eq_Some_conv)
  obtain qs where all: "buffer_ok b'" "buffer_text b' = buffer_text b @ pieces_text qs" "cur b' = cur b + length (pieces_text qs)"
      "qs = ?ps"
    using log_puts_ok [OF assms(2), of ?ps] assms(1,3,4) by auto
  obtain qs1 where one: "cur b1 = cur b + length (pieces_text qs1)" "qs1 = ps"
    using log_puts_ok [OF assms(2,3)] assms(4) b1(1) by auto
  have "drop (cur b') (cells b') = drop (cur b') (cells b1)" by (rule buffer_append_drop [OF b1(2)]) simp
  also have "\<dots> = drop (cur b') (cells b)" by (rule log_puts_drop [OF b1(1)]) (use all one in simp)
  finally have "cells b' = buffer_text b' @ drop (cur b') (cells b)"
    by (metis append_take_drop_id buffer_text_def)
  with all show ?thesis by simp
qed

section \<open>No zero byte in the line\<close>

lemma digits_nonzero: "CHR 0x00 \<notin> set (to_string_int v)"
proof -
  have "\<not> is_digit (CHR 0x00)" by (simp add: is_digit_def)
  with to_string_nat_digits have "CHR 0x00 \<notin> set (to_string_nat n)" for n by blast
  then show ?thesis by (simp add: to_string_int_def)
qed

lemma pad_nonzero: "c \<noteq> CHR 0x00 \<Longrightarrow> CHR 0x00 \<notin> set (pad c n (to_string_int v))"
  using digits_nonzero by (auto simp: pad_def)

lemma stamp_nonzero: "CHR 0x00 \<notin> set (pieces_text (stamp localtime now st))"
  by (simp add: stamp_def time_format_def Fmt_micros_def pad_nonzero)

lemma level_name_nonzero: "CHR 0x00 \<notin> set (LogLevelName ! level_code level)"
  by (cases level) (simp_all add: LogLevelName_def)

lemma c_string_append: "CHR 0x00 \<notin> set s \<Longrightarrow> c_string (s @ t) = map_option ((@) s) (c_string t)"
  by (auto simp: c_string_def takeWhile_append)

section \<open>The output\<close>

text \<open>The line of the program, without the line feed at its end.\<close>

definition demo_line :: "(int \<Rightarrow> tm) \<Rightarrow> int \<Rightarrow> string \<Rightarrow> int \<Rightarrow> string" where
  "demo_line localtime now file line =
     pieces_text (stamp localtime now init_log) @ '' TRACE hello world -'' @ file @ '':'' @ to_string_int line"

text \<open>The program prints its line and, after it, what the uninitialised array held up to the next zero
  byte; if there is none, its behaviour is undefined.\<close>

theorem test_log_reads_on:
  assumes "clock_ok localtime now" "length garbage = 4000" "CHR 0x00 \<notin> set file" "length file < 3800"
    and "- (2 ^ 31) \<le> line" "line < 2 ^ 31"
  shows "test_log localtime now garbage file line =
    map_option (\<lambda>s. demo_line localtime now file line @ [CHR 0x0A] @ s @ [CHR 0x0A])
      (c_string (drop (length (demo_line localtime now file line) + 1) garbage))"
proof -
  let ?st = "setOutPutFunc (setLogLevel TRACE init_log)"
  let ?ps = "stamp localtime now init_log @ [CStr (Some '' ''), CStr (Some ''TRACE ''), CStr (Some ''hello world''),
    CStr (Some '' -''), StdStr file, CStr (Some '':''), Num line]"
  let ?line = "demo_line localtime now file line"
  have st: "stamp localtime now ?st = stamp localtime now init_log"
    by (simp add: stamp_def setOutPutFunc_def setLogLevel_def)
  have pieces: "line_pieces localtime now TRACE file line [CStr (Some ''hello world'')] ?st = ?ps @ [CStr (Some [CHR 0x0A])]"
    by (simp add: line_pieces_def st finish_pieces_def LogLevelName_def)
  have line: "pieces_text ?ps = ?line" by (simp add: demo_line_def)
  have "length (pieces_text (stamp localtime now init_log)) \<le> 24"
    using assms(1) by (simp add: clock_ok_def stamp_def time_format_length Fmt_micros_length)
  with assms(4) to_string_int_length [OF assms(5,6)] have len: "length (pieces_text ?ps) + 49 < kSmallBuffer"
    unfolding line by (simp add: demo_line_def kSmallBuffer_def)
  have ok: "\<forall>p \<in> set ?ps. piece_ok p" using assms(5,6) by (auto simp: stamp_def)
  have new: "buffer_ok (new_buffer garbage)" using assms(2) by (simp add: buffer_ok_def new_buffer_def kSmallBuffer_def)
  obtain b where b: "log_puts (?ps @ [CStr (Some [CHR 0x0A])]) (new_buffer garbage) = Some b"
    using log_puts_ok [OF new, of "?ps @ [CStr (Some [CHR 0x0A])]"] ok by auto
  have cells: "cells b = ?line @ CHR 0x0A # drop (length ?line + 1) garbage"
    using log_puts_last [OF b new ok] len unfolding line by (simp add: new_buffer_simps) (simp add: new_buffer_def)
  have nz: "CHR 0x00 \<notin> set (?line @ [CHR 0x0A])"
    using assms(3) stamp_nonzero digits_nonzero by (simp add: demo_line_def)
  have "test_log localtime now garbage file line = print_c_string (Some b)"
    unfolding test_log_def Let_def logger_life [OF assms(1), where f = "\<lambda>_. print_c_string"] pieces b
    by (simp add: less_LogLevel_def setOutPutFunc_def setLogLevel_def)
  also have "\<dots> = map_option (\<lambda>s. s @ [CHR 0x0A]) (c_string ((?line @ [CHR 0x0A]) @ drop (length ?line + 1) garbage))"
    by (simp add: print_c_string_def cells)
  finally show ?thesis unfolding c_string_append [OF nz] by (simp add: option.map_comp comp_def)
qed

text \<open>With an array of the letter \<open>x\<close> and one zero byte at its end, thousands of them are printed.\<close>

theorem test_log_reads_on_witness:
  "\<exists>line. test_log sample_localtime 7000250 (replicate 3999 CHR 0x78 @ [CHR 0x00]) ''test_log.cc'' 11
     = Some (line @ [CHR 0x0A] @ replicate (3998 - length line) CHR 0x78 @ [CHR 0x0A]) \<and> length line < 3999"
proof -
  let ?l = "demo_line sample_localtime 7000250 ''test_log.cc'' 11"
  have len: "length ?l < 3999"
    using sample_localtime_valid [of 7000250, unfolded clock_ok_def] to_string_int_length [of 11]
    by (simp add: demo_line_def stamp_def time_format_length Fmt_micros_length)
  then have "c_string (drop (length ?l + 1) (replicate 3999 CHR 0x78 @ [CHR 0x00])) = Some (replicate (3998 - length ?l) CHR 0x78)"
    by (auto simp: c_string_def takeWhile_append)
  moreover have "length (replicate 3999 CHR 0x78 @ [CHR 0x00]) = 4000" by (simp only: length_append length_replicate list.size)
  ultimately show ?thesis
    using test_log_reads_on [OF sample_localtime_valid [of 7000250], of "replicate 3999 CHR 0x78 @ [CHR 0x00]" "''test_log.cc''" 11] len
    by auto
qed

end
