(* ===== verification/App.thy ===== *)
theory App
  imports MergeProps Router SystemCtl SessionProps
begin

text \<open>
  The server of \<open>test/server_test.cc\<close>: the controllers, the routes and the worker threads put
  together.  The application behind the sessions is the dispatch of the router followed by the
  handler it names, over the counters, the file server and the last CPU snapshot.  The clock, the
  random suffix and \<open>/proc\<close> are read afresh by every request: \<open>inputs\<close> gives their values by the
  number of the request.
\<close>

section \<open>The application\<close>

datatype handler = H_check | H_upload | H_download | H_check_chunk | H_chunk_upload | H_status | H_merge

record request_inputs =
  in_time :: u64
  in_rand :: nat
  in_proc :: proc_env

type_synonym 'db app_state = "'db server \<times> CpuSnapshot"

definition app_routes :: "handler registration list" where
  "app_routes = [
     Exact Verb_post ''/check'' (Some H_check),
     Exact Verb_post ''/upload'' (Some H_upload),
     Prefix Verb_get ''/group1'' (Some H_download),
     Exact Verb_get ''/check_chunk'' (Some H_check_chunk),
     Exact Verb_get ''/upload_chunk'' (Some H_chunk_upload),
     Exact Verb_get ''/status'' (Some H_status),
     Exact Verb_post ''/merge'' (Some H_merge)]"

text \<open>A handler of the file controller does not touch the counters or the snapshot.\<close>

definition on_server :: "('db server, 'a) io \<Rightarrow> (metrics \<times> 'db app_state, 'a) io" where
  "on_server h = (\<lambda>(m, s, c). case h s of (r, s') \<Rightarrow> (r, (m, s', c)))"

fun call_handler :: "('db, 'it) env \<Rightarrow> proc_env \<Rightarrow> handler \<Rightarrow> HttpContext \<Rightarrow> (metrics \<times> 'db app_state, Response) io" where
  "call_handler E P H_check ctx = on_server (handleCheck E ctx)"
| "call_handler E P H_upload ctx = on_server (handleUpload E ctx)"
| "call_handler E P H_download ctx = on_server (handleDownload E ctx)"
| "call_handler E P H_check_chunk ctx = on_server (handleCheckChunk E ctx)"
| "call_handler E P H_chunk_upload ctx = on_server (handleChunkUpload E ctx)"
| "call_handler E P H_status ctx =
     (\<lambda>(m, s, c). case system_status (env_json E) P ctx (m, c) of (r, (m', c')) \<Rightarrow> (r, (m', s, c')))"
| "call_handler E P H_merge ctx = on_server (handleMerge E ctx)"

definition with_inputs :: "('db, 'it) env \<Rightarrow> request_inputs \<Rightarrow> ('db, 'it) env" where
  "with_inputs E i = E\<lparr>env_time := in_time i, env_rand := in_rand i\<rparr>"

definition app_serve ::
  "('db, 'it) env \<Rightarrow> (u64 \<Rightarrow> request_inputs) \<Rightarrow> (handler PrefixRouteEntry list \<Rightarrow> handler PrefixRouteEntry list) \<Rightarrow> string \<Rightarrow>
     'db app_state serve" where
  "app_serve E inputs srt beast_version rq = (\<lambda>(m, a).
     case dispatch (env_json E) beast_version (build srt app_routes) rq (total_requests m) of
       (r, k) \<Rightarrow>
         let m' = m\<lparr>total_requests := k\<rparr>
         in case r of
              Inl e \<Rightarrow> (Inl e, (m', a))
            | Inr (Send res) \<Rightarrow> (res, (m', a))
            | Inr (Call h ctx) \<Rightarrow> call_handler (with_inputs E (inputs k)) (in_proc (inputs k)) h ctx (m', a))"

text \<open>
  The controllers at the start.  An exception of their constructors leaves \<open>main\<close>.  C++ may evaluate
  the two arguments of \<open>FileCtl\<close> in either order; the file store is taken first.
\<close>

definition app_start :: "StoreConfig \<Rightarrow> string + 'db \<Rightarrow> (disk, 'db app_state) io" where
  "app_start cfg opened = (\<lambda>d.
     case FileStore_init cfg d of
       (Inl e, d') \<Rightarrow> (Inl e, d')
     | (Inr _, d') \<Rightarrow>
         (case MetadataStore_new opened default_metaConfig of
            Inl e \<Rightarrow> (Inl e, d')
          | Inr st \<Rightarrow> (Inr (\<lparr>meta_store = st, files = d', concurrent_uploads = 0\<rparr>, default_CpuSnapshot), d')))"

text \<open>
  \<open>main\<close>: the controllers are made outside the \<open>try\<close>, so their exception ends the program; the
  exception of an acceptor that cannot bind its port is caught.  \<open>main\<close> then waits for the worker
  threads, whose number \<open>hardware_concurrency\<close> gives (zero when it is not known), and returns when
  they have all ended.
\<close>

datatype 'w process = Crashed exn | Exited int | Serving 'w

definition join_threads :: "'app world \<Rightarrow> 'app world process" where
  "join_threads w = (if workers w = 0 then Exited 0 else Serving w)"

definition server_main ::
  "StoreConfig \<Rightarrow> string + 'db \<Rightarrow> bool \<Rightarrow> nat \<Rightarrow> disk \<Rightarrow> 'db app_state world process" where
  "server_main cfg opened bound num_threads d =
     (case app_start cfg opened d of
        (Inl e, _) \<Rightarrow> Crashed e
      | (Inr a, _) \<Rightarrow> if \<not> bound then Exited 1 else join_threads (init_world a num_threads))"

lemma server_main_serving:
  "server_main cfg opened bound n d = Serving w \<Longrightarrow>
     bound \<and> 0 < n \<and> (\<exists>a d'. app_start cfg opened d = (Inr a, d') \<and> w = init_world a n)"
  by (auto simp: server_main_def join_threads_def init_world_def start_accept_def split: prod.splits sum.splits if_splits)

section \<open>Routing\<close>

text \<open>The handler and the suffix of a method and path.\<close>

definition route_of :: "verb \<Rightarrow> string \<Rightarrow> (handler \<times> string) option" where
  "route_of v p =
     (if v = Verb_post \<and> p = ''/check'' then Some (H_check, [])
      else if v = Verb_post \<and> p = ''/upload'' then Some (H_upload, [])
      else if v = Verb_post \<and> p = ''/merge'' then Some (H_merge, [])
      else if v = Verb_get \<and> p = ''/check_chunk'' then Some (H_check_chunk, [])
      else if v = Verb_get \<and> p = ''/upload_chunk'' then Some (H_chunk_upload, [])
      else if v = Verb_get \<and> p = ''/status'' then Some (H_status, [])
      else if v = Verb_get \<and> prefix ''/group1'' p then Some (H_download, drop 7 p)
      else None)"

lemma app_exact:
  "exact_handler app_routes v p =
     (case route_of v p of Some (h, _) \<Rightarrow> if h = H_download then None else Some (Some h) | None \<Rightarrow> None)"
  by (auto simp: app_routes_def route_of_def)

lemma app_prefixes:
  assumes "route_sort srt"
  shows "prefix_routes (build srt app_routes) = [\<lparr>route_method = Verb_get, route_prefix = ''/group1'', route_handler = Some H_download\<rparr>]"
proof -
  have "srt [e] = [e]" for e
    using route_sort.sort_perm [OF assms, of "[e]"] by simp
  then show ?thesis by (simp add: build_def app_routes_def add_route_def add_prefix_def empty_router_def)
qed

lemma app_match:
  assumes "route_sort srt"
  shows "match_prefix J rq p qs (prefix_routes (build srt app_routes)) =
    (if req_method rq = Verb_get \<and> prefix ''/group1'' p then Some (Call H_download (make_ctx rq p qs (drop 7 p))) else None)"
  by (auto simp: app_prefixes [OF assms] match_prefix_Cons matches_def prefix_action_def eval_nat_numeral)

lemma route_of_exact: "route_of v p = Some (h, sfx) \<Longrightarrow> h \<noteq> H_download \<Longrightarrow> sfx = []"
  by (auto simp: route_of_def split: if_splits)

lemma route_of_download:
  "route_of v p = Some (H_download, sfx) \<Longrightarrow> v = Verb_get \<and> prefix ''/group1'' p \<and> sfx = drop 7 p"
  "route_of v p = None \<Longrightarrow> \<not> (v = Verb_get \<and> prefix ''/group1'' p)"
  by (auto simp: route_of_def split: if_splits)

lemma app_serve_run:
  assumes "route_sort srt" "splitTarget (req_target rq) = (p, q)" "parseQuery q = Inr qs"
    and "k = total_requests m + 1"
  shows "app_serve E inputs srt bv rq (m, a) =
    (case route_of (req_method rq) p of
       Some (h, sfx) \<Rightarrow> call_handler (with_inputs E (inputs k)) (in_proc (inputs k)) h (make_ctx rq p qs sfx) (m\<lparr>total_requests := k\<rparr>, a)
     | None \<Rightarrow> (Inr (router_not_found bv rq), (m\<lparr>total_requests := k\<rparr>, a)))"
proof -
  note run = route_sort.dispatch_built [OF assms(1-3), of "env_json E" bv app_routes "total_requests m"]
  show ?thesis
  proof (cases "route_of (req_method rq) p")
    case None
    with route_of_download(2) [OF None] show ?thesis
      by (auto simp: app_serve_def run app_exact app_match [OF assms(1)] assms(4))
  next
    case (Some r)
    obtain h sfx where r: "r = (h, sfx)" by (cases r)
    show ?thesis
    proof (cases "h = H_download")
      case True
      with Some r route_of_download(1) [of "req_method rq" p sfx] show ?thesis
        by (simp add: app_serve_def run app_exact app_match [OF assms(1)] assms(4))
    next
      case False
      with Some r route_of_exact [of "req_method rq" p h sfx] show ?thesis
        by (simp add: app_serve_def run app_exact assms(4))
    qed
  qed
qed

section \<open>The connections of the assembled server\<close>

lemma call_handler_connections: "active_connections (fst (snd (call_handler E P h ctx (m, a)))) = active_connections m"
  by (cases a; cases h)
    (auto simp: on_server_def system_status_def Let_def split: prod.splits sum.splits)

interpretation app: application "app_serve E inputs srt bv" for E inputs srt bv
  by unfold_locales
    (auto simp: app_serve_def call_handler_connections Let_def split: prod.splits sum.splits action.splits)

text \<open>C5: in every state the assembled server can get into, whatever the files, the database, the
  requests and the order of accepts, reads, writes, errors and timeouts: the count of connections
  that the status page shows is the number of sessions not yet destroyed (modulo 2 to the 32), a
  session is destroyed exactly when it has no outstanding operation, no write is ever set to close
  the connection, and a session that is reading has the body limit of 50 MiB and an armed or expired
  timer, unless its socket is closed already.\<close>

theorem app_connections:
  assumes "steps (app_serve E inputs srt bv) (init_world a n) es w"
  shows "active_connections (metrics w) = of_nat (length (filter (\<lambda>s. \<not> destroyed s) (sessions w)))
    \<and> (\<forall>s \<in> set (sessions w). (destroyed s \<longleftrightarrow> pending s = None) \<and> pending s \<noteq> Some (Writing True)
        \<and> (pending s = Some Reading \<longrightarrow> body_limit s = 52428800 \<and> (waiting s \<or> 0 < expired s \<or> \<not> socket_open s)))"
  by (rule connections_invariant [OF app.application_axioms assms])

section \<open>A request that stops a worker\<close>

lemma bad_query_throws:
  assumes "parseQuery (snd (splitTarget (req_target rq))) = Inl e"
  shows "always_throws (app_serve E inputs srt bv) rq"
  using assms by (auto simp: always_throws_def app_serve_def dispatch_def Let_def split: prod.splits)

text \<open>C28: a query with a malformed percent escape is enough to stop the server: the exception leaves the
  handler and ends the worker thread that ran it, so after as many such requests as there are
  workers, each on a connection of its own, no connection is accepted and no request is read or
  answered any more; only timers expire, and their handlers do not run.  \<open>main\<close>, which waits for the
  workers, then returns as if all were well.\<close>

theorem bad_queries_stop_server:
  assumes "parseQuery (snd (splitTarget (req_target rq))) = Inl e"
    and start: "server_main cfg opened bound n d = Serving w0"
  shows "\<exists>w. steps (app_serve E inputs srt bv) w0 (attack n rq bytes now) w \<and> workers w = 0
    \<and> (\<forall>ev w'. step (app_serve E inputs srt bv) w ev w' \<longrightarrow> (\<exists>i. ev = Timer_expires i)) \<and> join_threads w = Exited 0"
proof -
  obtain a where w0: "w0 = init_world a n" using server_main_serving [OF start] by blast
  have "\<exists>w. steps (app_serve E inputs srt bv) (init_world a n) (attack n rq bytes now) w \<and> workers w = n - n
      \<and> accepts w = 1 \<and> length (sessions w) = n"
    by (rule attack_run [OF bad_query_throws [OF assms(1)] order_refl])
  then show ?thesis using no_workers_dead unfolding w0 join_threads_def by (metis diff_self_eq_0)
qed

section \<open>From the upload to the download\<close>

lemma plain_target:
  assumes "CHR ''?'' \<notin> set t" "CHR ''#'' \<notin> set t"
  shows "splitTarget t = (t, [])"
proof -
  have t: "takeWhile (\<lambda>c. c \<noteq> CHR ''#'') t = t" using assms(2) by (auto simp: takeWhile_eq_all_conv)
  show ?thesis by (simp only: splitTarget_cut Let_def t assms(1) if_False)
qed

lemma with_inputs_simps [simp]:
  "env_db (with_inputs E i) = env_db E" "env_json (with_inputs E i) = env_json E" "env_MD5 (with_inputs E i) = env_MD5 E"
  "env_cfg (with_inputs E i) = env_cfg E" "env_dir_body (with_inputs E i) = env_dir_body E" "env_rand (with_inputs E i) = in_rand i"
  by (simp_all add: with_inputs_def)

text \<open>The checks and the download use neither the clock nor the random suffix.\<close>

lemma handlers_ignore_inputs:
  "handleCheck (with_inputs E i) = handleCheck (with_inputs E j)"
  "handleDownload (with_inputs E i) = handleDownload (with_inputs E j)"
  "handleCheckChunk (with_inputs E i) = handleCheckChunk (with_inputs E j)"
  by (unfold handleCheck_def handleDownload_def handleCheckChunk_def with_inputs_simps) (rule refl)+

lemma route_of_link:
  assumes "CHR ''/'' \<in> set p" "\<not> prefix ''group1'' p"
  shows "route_of Verb_get (''/'' @ p) = None"
  using assms by (auto simp: route_of_def)

lemma stored_path_slash: "CHR ''/'' \<in> set (stored_path scn m fname)"
  by (simp add: stored_path_def stored_rel_def path_append_def)

lemma parse_empty_query: "parseQuery [] = Inr Map.empty"
  by (simp add: parseQuery_def)

text \<open>A request for a path without a query.\<close>

lemma app_serve_plain:
  assumes "route_sort srt" "CHR ''?'' \<notin> set (req_target rq)" "CHR ''#'' \<notin> set (req_target rq)" "k = total_requests m + 1"
  shows "app_serve E inputs srt bv rq (m, a) =
    (case route_of (req_method rq) (req_target rq) of
       Some (h, sfx) \<Rightarrow> call_handler (with_inputs E (inputs k)) (in_proc (inputs k)) h (make_ctx rq (req_target rq) Map.empty sfx)
         (m\<lparr>total_requests := k\<rparr>, a)
     | None \<Rightarrow> (Inr (router_not_found bv rq), (m\<lparr>total_requests := k\<rparr>, a)))"
  by (rule app_serve_run [OF assms(1) plain_target [OF assms(2,3)] parse_empty_query assms(4)])

text \<open>C3: from the upload to the download, through the routes.  A new file posted to \<open>/upload\<close> (through a
  free slot, with an allowed extension, a name not empty once cleaned, a relative scene, a healthy
  disk) is answered with its metadata; a check of its MD5 then says that the file exists; a request
  for \<open>/group1/\<close> followed by the path of the answer gives back exactly the uploaded bytes.  The link
  that the answer calls its \<open>url\<close> leaves the group out, and a request for it gets the 404 page.\<close>

theorem app_upload_download:
  assumes db: "metadata_db (env_db E) entries view cursor (env_json E)"
    and reach: "reach (env_db E) (env_json E) entries (meta_store s) c"
    and md5: "digest (env_MD5 E)" and root: "filename (root_dir (env_cfg E)) \<noteq> []" and srt: "route_sort srt"
    and up: "concurrent_uploads s < 20" "upload_ctx (make_ctx urq ''/upload'' Map.empty []) fname data scn"
      "check_file_ext fname (allow_extensions (env_cfg E))" "upload_name (meta_store s) fname \<noteq> []"
    and scn: "\<not> is_absolute scn" "scn \<noteq> []" "\<not> prefix ''group1'' (path meta)"
      "CHR ''?'' \<notin> set (path meta)" "CHR ''#'' \<notin> set (path meta)"
    and texts: "ascii fname" "ascii scn" "ascii (get_peer_id (meta_store s))" "ascii (get_domain (meta_store s))"
    and inp: "E' = with_inputs E (inputs (total_requests m + 1))"
    and meta: "meta = upload_meta E' (meta_store s) fname data scn" "c (md5 meta) = None" "path_free meta c"
    and disk: "vacant (files s) (env_rand E') (path_append (root_dir (env_cfg E)) (path meta))"
    and saved: "save_meta (env_db E) (env_json E) meta (meta_store s) = (True, st')"
    and urq: "req_method urq = Verb_post" "req_target urq = ''/upload''"
    and crq: "req_method crq = Verb_post" "splitTarget (req_target crq) = (''/check'', q)" "parseQuery q = Inr qs"
      "qs ''md5'' = Some (md5 meta)"
    and drq: "req_method drq = Verb_get" "req_target drq = ''/group1/'' @ path meta"
    and lrq: "req_method lrq = Verb_get" "req_target lrq = ''/'' @ path meta"
  shows "\<exists>m' m1 m2 m3 a res res1 res2. app_serve E inputs srt bv urq (m, s, cpu) = (Inr res, (m', a)) \<and> res_status res = 200
    \<and> json_parse (env_json E) (res_body res) = Some (success_body
        (upload_data (get_domain (meta_store s) @ req_target lrq) meta) ''Upload success'')
    \<and> app_serve E inputs srt bv crq (m', a) = (Inr res1, (m1, a))
    \<and> json_parse (env_json E) (res_body res1) = Some (success_body (JObj []) ''file exist'')
    \<and> app_serve E inputs srt bv drq (m', a) = (Inr res2, (m2, a)) \<and> res_status res2 = 200 \<and> res_body res2 = data
    \<and> app_serve E inputs srt bv lrq (m', a) = (Inr (router_not_found bv lrq), (m3, a))"
proof -
  define k where "k = total_requests m + 1"
  let ?m = "m\<lparr>total_requests := k\<rparr>" and ?E = "with_inputs E (inputs (k + 1))"
  have same: "env_db E = env_db E'" "env_json E = env_json E'" "env_MD5 E = env_MD5 E'" "env_cfg E = env_cfg E'"
    by (simp_all add: inp)
  have handlers: "handleCheck ?E = handleCheck E'" "handleDownload ?E = handleDownload E'"
    unfolding inp by (rule handlers_ignore_inputs)+
  let ?dctx = "make_ctx drq (''/group1/'' @ path meta) Map.empty (''/'' @ path meta)" and ?cctx = "make_ctx crq ''/check'' qs []"
  have ctx: "query ?cctx ''md5'' = Some (md5 meta)" "path_suffix ?dctx = ''/'' @ path meta"
    using crq(4) by (simp_all add: make_ctx_def)
  obtain res s' res1 res2 where r: "handleUpload E' (make_ctx urq ''/upload'' Map.empty []) s = (Inr res, s')" "res_status res = 200"
      "json_parse (env_json E) (res_body res) = Some (success_body
        (upload_data (get_domain (meta_store s) @ ''/'' @ path meta) meta) ''Upload success'')"
      "handleCheck E' ?cctx s' = (Inr res1, s')"
      "json_parse (env_json E) (res_body res1) = Some (success_body (JObj []) ''file exist'')"
      "handleDownload E' ?dctx s' = (Inr res2, s')" "res_status res2 = 200" "res_body res2 = data"
    using upload_check_download [OF db [unfolded same] reach [unfolded same] md5 [unfolded same] root [unfolded same] up(1,2)
        up(3) [unfolded same] up(4) scn(1,2) texts meta disk [unfolded same] saved [unfolded same] ctx]
    unfolding same by blast
  have "app_serve E inputs srt bv urq (m, s, cpu) = (Inr res, (?m, s', cpu))"
    using app_serve_plain [OF srt, of urq k m E inputs bv] r(1)
    by (simp add: urq route_of_def k_def on_server_def inp)
  moreover have "app_serve E inputs srt bv crq (?m, s', cpu) = (Inr res1, (m\<lparr>total_requests := k + 1\<rparr>, s', cpu))"
    using app_serve_run [OF srt crq(2,3), of "k + 1" ?m E inputs bv] r(4)
    by (simp add: crq(1) route_of_def on_server_def handlers)
  moreover have "app_serve E inputs srt bv drq (?m, s', cpu) = (Inr res2, (m\<lparr>total_requests := k + 1\<rparr>, s', cpu))"
    using app_serve_plain [OF srt, of drq "k + 1" ?m E inputs bv] r(6) scn(4,5)
    by (simp add: drq route_of_def on_server_def handlers)
  moreover have "app_serve E inputs srt bv lrq (?m, s', cpu) = (Inr (router_not_found bv lrq), (m\<lparr>total_requests := k + 1\<rparr>, s', cpu))"
    using app_serve_plain [OF srt, of lrq "k + 1" ?m E inputs bv] scn(4,5)
      route_of_link [OF _ scn(3)] stored_path_slash [of scn _ fname]
    by (simp add: lrq meta(1) upload_meta_simps)
  ultimately show ?thesis using r(2,3,5,7,8) unfolding lrq(2) by blast
qed

section \<open>Chunks, the merge and the status page\<close>

lemma chunk_session_handlers:
  assumes J: "json_codec (env_json E)" and cfg: "plain_store (env_cfg E)"
    and disk: "wf_disk (files s)" "faults (files s) = []" "lookup (files s) (merge_dir (env_cfg E) md) = None"
    and names: "plain_name md" "i < 2 ^ 31" "\<not> contains ''..'' (chunk_rel (env_cfg E) md (to_string_nat i))"
    and p: "p = chunk_dir (env_cfg E) md @ ''/'' @ to_string_nat i" "creatable (files s) p"
      "node_at (files s) (key (files s) (temp_path p (in_rand j))) \<noteq> Some Dir"
    and ctx: "chunk_form uctx md (to_string_nat i) data" "query cctx ''md5'' = Some md" "merge_form mctx md fname scn"
  shows "\<exists>s' r1 r2 r3 xs. handleChunkUpload (with_inputs E j) uctx s = (Inr r1, s') \<and> res_status r1 = 200
    \<and> (\<exists>d'. s' = s\<lparr>files := d'\<rparr>)
    \<and> (\<forall>j'. handleCheckChunk (with_inputs E j') cctx s' = (Inr r2, s'))
    \<and> json_parse (env_json E) (res_body r2) = Some (success_body (JObj [(''list'', JArr (map JInt xs))]) []) \<and> int i \<in> set xs
    \<and> (\<forall>j'. handleMerge (with_inputs E j') mctx s' = (Inr r3, s')) \<and> res_status r3 = 400
    \<and> json_parse (env_json E) (res_body r3) = Some (error_body ''Chunk directory not found or expired'')"
proof -
  let ?cfg = "env_cfg E" and ?dir = "chunk_dir (env_cfg E) md" and ?E = "with_inputs E j"
  obtain r1 d' t where up: "handleChunkUpload ?E uctx s = (Inr r1, s\<lparr>files := d'\<rparr>)" "res_status r1 = 200"
      "faults d' = []" "wf_disk d'" "node_at d' (key d' ?dir @ [to_string_nat i]) = Some (File t)"
    using chunk_upload_run [of ?E s uctx md i data] J plain_storeD(1) [OF cfg] disk(1,2) ctx(1) names(3) p by auto
  have listed: "int i \<in> chunk_numbers d' ?dir"
    using chunk_numbers_file [OF up(4) _ _ names(2), of ?dir "[]"] up(5) by (simp add: chunk_dir_def)
  have "plain_chunk uctx" using ctx(1) to_string_nat_plain(1) by (auto simp: plain_chunk_def chunk_form_def Let_def)
  with handleChunkUpload_frame(2) [of ?E s uctx md] cfg disk names(1) up(1)
  have gone: "lookup d' (merge_dir ?cfg md) = None" by simp
  obtain r2 xs where check: "handleCheckChunk ?E cctx (s\<lparr>files := d'\<rparr>) = (Inr r2, s\<lparr>files := d'\<rparr>)"
      "json_parse (env_json E) (res_body r2) = Some (success_body (JObj [(''list'', JArr (map JInt xs))]) [])" "int i \<in> set xs"
    using check_chunk_answer [of ?E "s\<lparr>files := d'\<rparr>" cctx md] J up(3,4) ctx(1,2) listed by (auto simp: chunk_form_def Let_def)
  obtain r3 where r3: "error (env_json E) mctx ''Chunk directory not found or expired'' 400 = Inr r3" "res_status r3 = 400"
      "json_parse (env_json E) (res_body r3) = Some (error_body ''Chunk directory not found or expired'')"
    using error_sends [OF J, of "''Chunk directory not found or expired''"] by (auto simp: ascii_def)
  have "handleMerge (with_inputs E j') mctx (s\<lparr>files := d'\<rparr>) = (Inr r3, s\<lparr>files := d'\<rparr>)" for j'
    using merge_refused [of "s\<lparr>files := d'\<rparr>" "with_inputs E j'" md mctx] gone up(3) ctx(3) r3(1)
    by (simp add: send_def io_return_def)
  with up(1,2) check r3(2,3) handlers_ignore_inputs(3) [of E _ j] show ?thesis by metis
qed

text \<open>C27: a resumable upload through the routes of the assembled server, on a healthy disk.  A GET of
  \<open>/upload_chunk\<close> with a chunk form is answered with 200; the GET of \<open>/check_chunk\<close> for its MD5
  then lists the number of the chunk; the POST to \<open>/merge\<close>, where the directory the merge looks in
  was not there before, is refused with 400; and the status page then shows the four requests and
  the open connections.  The upload changes the disk only, the checks and the refused merge change
  nothing but the request counter, and the status page also renews the CPU snapshot and resets the
  maximal latency.\<close>

theorem app_chunk_session:
  assumes J: "json_codec (env_json E)" and srt: "route_sort srt" and cfg: "plain_store (env_cfg E)"
    and disk: "wf_disk (files s)" "faults (files s) = []" "lookup (files s) (merge_dir (env_cfg E) md) = None"
    and inp: "n = total_requests m" "P = in_proc (inputs (n + 4))"
    and names: "plain_name md" "i < 2 ^ 31" "\<not> contains ''..'' (chunk_rel (env_cfg E) md (to_string_nat i))"
    and p: "p = chunk_dir (env_cfg E) md @ ''/'' @ to_string_nat i" "creatable (files s) p"
      "node_at (files s) (key (files s) (temp_path p (in_rand (inputs (n + 1))))) \<noteq> Some Dir"
    and urq: "req_method urq = Verb_get" "req_target urq = ''/upload_chunk''"
      "chunk_form (make_ctx urq ''/upload_chunk'' Map.empty []) md (to_string_nat i) data"
    and crq: "req_method crq = Verb_get" "splitTarget (req_target crq) = (''/check_chunk'', q)" "parseQuery q = Inr qs"
      "qs ''md5'' = Some md"
    and mrq: "req_method mrq = Verb_post" "req_target mrq = ''/merge''"
      "merge_form (make_ctx mrq ''/merge'' Map.empty []) md fname scn"
    and srq: "req_method srq = Verb_get" "req_target srq = ''/status''"
    and proc: "\<forall>q. is_double (rounding P q)" "get_proc_status P = Inr figures" "get_cpu_usage P cpu = (Inr usage, cpu')"
  shows "\<exists>d' r1 r2 r3 r4 xs ms.
      app_serve E inputs srt bv urq (m, s, cpu) = (Inr r1, (m\<lparr>total_requests := n + 1\<rparr>, s\<lparr>files := d'\<rparr>, cpu)) \<and> res_status r1 = 200
    \<and> app_serve E inputs srt bv crq (m\<lparr>total_requests := n + 1\<rparr>, s\<lparr>files := d'\<rparr>, cpu)
        = (Inr r2, (m\<lparr>total_requests := n + 2\<rparr>, s\<lparr>files := d'\<rparr>, cpu))
    \<and> json_parse (env_json E) (res_body r2)
        = Some (JObj [(''data'', JObj [(''list'', JArr (map JInt xs))]), (''message'', JStr []), (''status'', JStr ''ok'')])
    \<and> int i \<in> set xs
    \<and> app_serve E inputs srt bv mrq (m\<lparr>total_requests := n + 2\<rparr>, s\<lparr>files := d'\<rparr>, cpu)
        = (Inr r3, (m\<lparr>total_requests := n + 3\<rparr>, s\<lparr>files := d'\<rparr>, cpu)) \<and> res_status r3 = 400
    \<and> json_parse (env_json E) (res_body r3)
        = Some (JObj [(''data'', JNull), (''message'', JStr ''Chunk directory not found or expired''), (''status'', JStr ''fail'')])
    \<and> app_serve E inputs srt bv srq (m\<lparr>total_requests := n + 3\<rparr>, s\<lparr>files := d'\<rparr>, cpu)
        = (Inr r4, (m\<lparr>total_requests := n + 4, max_latency_us := 0\<rparr>, s\<lparr>files := d'\<rparr>, cpu')) \<and> res_status r4 = 200
    \<and> json_parse (env_json E) (res_body r4) = Some (JObj [(''data'', JObj ms), (''message'', JStr []), (''status'', JStr ''ok'')])
    \<and> map_of ms ''total_requests'' = Some (JInt (uint (n + 4)))
    \<and> map_of ms ''connections'' = Some (JInt (sint (active_connections m)))"
proof -
  let ?uctx = "make_ctx urq ''/upload_chunk'' Map.empty []" and ?mctx = "make_ctx mrq ''/merge'' Map.empty []"
  have "query (make_ctx crq ''/check_chunk'' qs []) ''md5'' = Some md" using crq(4) by (simp add: make_ctx_def)
  then obtain s' r1 r2 r3 xs d' where run: "handleChunkUpload (with_inputs E (inputs (n + 1))) ?uctx s = (Inr r1, s')" "res_status r1 = 200"
      "s' = s\<lparr>files := d'\<rparr>" "\<forall>j. handleCheckChunk (with_inputs E j) (make_ctx crq ''/check_chunk'' qs []) s' = (Inr r2, s')"
      "json_parse (env_json E) (res_body r2) = Some (success_body (JObj [(''list'', JArr (map JInt xs))]) [])" "int i \<in> set xs"
      "\<forall>j. handleMerge (with_inputs E j) ?mctx s' = (Inr r3, s')" "res_status r3 = 400"
      "json_parse (env_json E) (res_body r3) = Some (error_body ''Chunk directory not found or expired'')"
    using chunk_session_handlers [OF J cfg disk names p urq(3) _ mrq(3)] by metis
  obtain r4 where status: "system_status (env_json E) P (make_ctx srq ''/status'' Map.empty []) (m\<lparr>total_requests := n + 4\<rparr>, cpu)
        = (Inr r4, (m\<lparr>total_requests := n + 4, max_latency_us := 0\<rparr>, cpu'))" "res_status r4 = 200"
      "json_parse (env_json E) (res_body r4) = Some (success_body (status_data P (m\<lparr>total_requests := n + 4\<rparr>) figures usage) [])"
    using system_status_run [OF J proc] by fastforce
  have "app_serve E inputs srt bv urq (m, s, cpu) = (Inr r1, (m\<lparr>total_requests := n + 1\<rparr>, s\<lparr>files := d'\<rparr>, cpu))"
    using app_serve_plain [OF srt, of urq "n + 1" m E inputs bv] run(1,3) by (simp add: urq(1,2) inp route_of_def on_server_def)
  moreover have "app_serve E inputs srt bv crq (m\<lparr>total_requests := n + 1\<rparr>, s\<lparr>files := d'\<rparr>, cpu)
        = (Inr r2, (m\<lparr>total_requests := n + 2\<rparr>, s\<lparr>files := d'\<rparr>, cpu))"
    using app_serve_run [OF srt crq(2,3), of "n + 2" "m\<lparr>total_requests := n + 1\<rparr>" E inputs bv] run(3,4)
    by (simp add: crq(1) route_of_def on_server_def)
  moreover have "app_serve E inputs srt bv mrq (m\<lparr>total_requests := n + 2\<rparr>, s\<lparr>files := d'\<rparr>, cpu)
        = (Inr r3, (m\<lparr>total_requests := n + 3\<rparr>, s\<lparr>files := d'\<rparr>, cpu))"
    using app_serve_plain [OF srt, of mrq "n + 3" "m\<lparr>total_requests := n + 2\<rparr>" E inputs bv] run(3,7)
    by (simp add: mrq(1,2) route_of_def on_server_def)
  moreover have "app_serve E inputs srt bv srq (m\<lparr>total_requests := n + 3\<rparr>, s\<lparr>files := d'\<rparr>, cpu)
        = (Inr r4, (m\<lparr>total_requests := n + 4, max_latency_us := 0\<rparr>, s\<lparr>files := d'\<rparr>, cpu'))"
    using app_serve_plain [OF srt, of srq "n + 4" "m\<lparr>total_requests := n + 3\<rparr>" E inputs bv] status(1)
    by (simp add: srq route_of_def inp(2))
  moreover have "\<exists>ms. success_body (status_data P (m\<lparr>total_requests := n + 4\<rparr>) figures usage) []
        = JObj [(''data'', JObj ms), (''message'', JStr []), (''status'', JStr ''ok'')]
      \<and> map_of ms ''total_requests'' = Some (JInt (uint (n + 4))) \<and> map_of ms ''connections'' = Some (JInt (sint (active_connections m)))"
    by (cases figures) (simp add: success_body_def status_data_def Let_def)
  ultimately show ?thesis
    using run(2,5,6,8,9) status(2,3) unfolding success_body_def [of "JObj [(''list'', _)]"] error_body_def by metis
qed

section \<open>What a download can reach\<close>

lemma climb_chars: "c \<in> set (climb w p k) \<Longrightarrow> c = CHR ''/'' \<or> c = CHR ''.'' \<or> (\<exists>x \<in> set k. c \<in> set x)"
  by (auto simp: climb_def hang_def split: if_splits)

lemma climb_not_Nil: "k \<noteq> [] \<Longrightarrow> climb w p k \<noteq> []"
  by (cases k) (simp_all add: climb_def hang_def)

lemma route_of_group: "CHR ''/'' \<in> set t \<Longrightarrow> route_of Verb_get (''/group1'' @ t) = Some (H_download, t)"
  by (simp add: route_of_def)

text \<open>C31: the download is not confined to the store.  Whatever file the machine holds, in the store or
  not (its names free of \<open>?\<close> and \<open>#\<close>), a GET of \<open>/group1\<close> followed by as many \<open>/..\<close> as the root
  of the store has components, and then by the path of the file, is answered with 200 and the bytes
  of the file; nothing but the request counter changes.\<close>

theorem every_file_served:
  assumes srt: "route_sort srt" and disk: "faults (files s) = []" "lookup (files s) (root_dir (env_cfg E)) = Some Dir"
    and node: "node_at (files s) k = Some (File data)" "k \<noteq> []"
    and names: "\<forall>x \<in> set k. plain_name x \<and> CHR ''?'' \<notin> set x \<and> CHR ''#'' \<notin> set x"
    and rq: "req_method rq = Verb_get" "req_target rq = ''/group1'' @ climb (cwd (files s)) (root_dir (env_cfg E)) k"
  shows "\<exists>res. app_serve E inputs srt bv rq (m, s, cpu) = (Inr res, (m\<lparr>total_requests := total_requests m + 1\<rparr>, s, cpu))
    \<and> res_status res = 200 \<and> res_body res = data"
proof -
  let ?root = "root_dir (env_cfg E)" and ?n = "total_requests m + 1"
  let ?t = "climb (cwd (files s)) ?root k"
  let ?ctx = "make_ctx rq (''/group1'' @ ?t) Map.empty ?t" and ?E = "with_inputs E (inputs ?n)"
  have root: "?root \<noteq> []" using disk(2) by (simp add: lookup_dir)
  have plain: "\<forall>x \<in> set k. plain_name x" using names by blast
  have "lookup (files s) (?root @ ?t) = Some (File data)"
    using resolve_climb [OF root plain] climb_not_dir_only [OF node(2) plain] root node(1) by (simp add: lookup_file key_def)
  then obtain res where res: "handleDownload ?E ?ctx s = (Inr res, s)" "res_status res = 200" "res_body res = data"
    using download_file [of s ?ctx ?E data] disk(1) climb_not_Nil [OF node(2)] by (auto simp: make_ctx_def)
  have "CHR ''?'' \<notin> set ?t" "CHR ''#'' \<notin> set ?t" using climb_chars names by fastforce+
  moreover have "CHR ''/'' \<in> set ?t" using node(2) by (cases k) (simp_all add: climb_def hang_def)
  ultimately have "app_serve E inputs srt bv rq (m, s, cpu) = (Inr res, (m\<lparr>total_requests := ?n\<rparr>, s, cpu))"
    using app_serve_plain [OF srt, of rq ?n m E inputs bv] res(1) route_of_group [of ?t] by (simp add: rq on_server_def)
  with res(2,3) show ?thesis by blast
qed

section \<open>A server to try the theorems on\<close>

definition sample_inputs :: "u64 \<Rightarrow> request_inputs" where
  "sample_inputs k = \<lparr>in_time = 7, in_rand = 7, in_proc = sample_proc id\<rparr>"

lemma sample_with_inputs: "with_inputs sample_env (sample_inputs k) = sample_env"
  by (simp add: with_inputs_def sample_inputs_def sample_env_def)

theorem app_connections_witness:
  "\<exists>w. steps (app_serve sample_env sample_inputs stable_sort []) (init_world (sample_server, default_CpuSnapshot) 1) [Accepted No_error] w
     \<and> active_connections (metrics w) = 1"
proof -
  let ?serve = "app_serve sample_env sample_inputs stable_sort []"
  have "\<exists>w. steps ?serve (init_world (sample_server, default_CpuSnapshot) 1) [Accepted No_error] w
      \<and> sessions w = [session_run (new_session True)]"
    by (simp add: run_defs)
  then obtain w where w: "steps ?serve (init_world (sample_server, default_CpuSnapshot) 1) [Accepted No_error] w"
      "sessions w = [session_run (new_session True)]" by blast
  then have "filter (\<lambda>s. \<not> destroyed s) (sessions w) = [session_run (new_session True)]"
    by (simp add: session_run_def new_session_def do_read_def reset_timeout_timer_def)
  with app_connections [OF w(1)] w(1) show ?thesis by auto
qed

theorem bad_queries_stop_server_witness:
  "\<exists>w0 w. server_main sample_cfg (Inr ([] :: write_op list)) True 8 (sample_disk []) = Serving w0
     \<and> steps (app_serve sample_env sample_inputs stable_sort []) w0 (attack 8 (sample_request Verb_get ''/status?a=%zz'') 40 5) w
     \<and> join_threads w = Exited 0
     \<and> \<not> (\<exists>ec w'. step (app_serve sample_env sample_inputs stable_sort []) w (Accepted ec) w')"
proof -
  have t: "splitTarget (req_target (sample_request Verb_get ''/status?a=%zz'')) = (''/status'', ''a=%zz'')"
    by (simp add: sample_request_def splitTarget_def substr_def Let_def)
  obtain e where bad: "parseQuery (snd (splitTarget (req_target (sample_request Verb_get ''/status?a=%zz'')))) = Inl e"
    unfolding t snd_conv
    by (simp add: parseQuery_def parse_query_loop.simps parse_pair_def substr_def decode.simps isxdigit_def is_digit_def Let_def)
  obtain a d' where "app_start sample_cfg (Inr ([] :: write_op list)) (sample_disk []) = (Inr a, d')"
    using sample_init by (simp add: app_start_def MetadataStore_new_def)
  then have start: "server_main sample_cfg (Inr ([] :: write_op list)) True 8 (sample_disk []) = Serving (init_world a 8)"
    by (simp add: server_main_def join_threads_def init_world_def start_accept_def)
  from bad_queries_stop_server [OF bad start, of sample_env sample_inputs stable_sort "[]" 40 5] start
  show ?thesis by blast
qed

theorem every_file_served_witness:
  "\<exists>res. app_serve sample_env sample_inputs stable_sort [] (sample_request Verb_get ''/group1/../../srv/b'')
      (init_metrics, sample_server\<lparr>files := prepared_disk\<rparr>, default_CpuSnapshot)
    = (Inr res, (init_metrics\<lparr>total_requests := 1\<rparr>, sample_server\<lparr>files := prepared_disk\<rparr>, default_CpuSnapshot))
    \<and> res_status res = 200 \<and> res_body res = ''old''"
proof -
  let ?s = "sample_server\<lparr>files := prepared_disk\<rparr>"
  have disk: "faults (files ?s) = []" "lookup (files ?s) (root_dir (env_cfg sample_env)) = Some Dir"
    "node_at (files ?s) [''srv'', ''b''] = Some (File ''old'')"
    by (simp_all add: prepared_disk_def sample_disk_def lookup_dir key_def resolve_def is_absolute_def step_name_def node_at_def)
  have target: "climb (cwd (files ?s)) (root_dir (env_cfg sample_env)) [''srv'', ''b''] = ''/../../srv/b''"
    by (simp add: prepared_disk_def climb_def hang_def resolve_def is_absolute_def step_name_def)
  show ?thesis
    using every_file_served [OF stable.route_sort_axioms disk, of "sample_request Verb_get ''/group1/../../srv/b''"
        sample_inputs "[]" init_metrics default_CpuSnapshot] target
    by (simp add: plain_name_def sample_request_def init_metrics_def)
qed

definition upload_request :: StringRequest where
  "upload_request = (req (form_ctx upload_parts Map.empty))\<lparr>req_target := ''/upload''\<rparr>"

lemma upload_request_simps [simp]: "req_method upload_request = Verb_post" "req_target upload_request = ''/upload''"
  by (simp_all add: upload_request_def form_ctx_def sample_request_def)

lemma upload_request_ctx: "upload_ctx (make_ctx upload_request ''/upload'' Map.empty []) ''a.txt'' ''hi'' ''default''"
  using upload_parts_ctx
  by (simp add: upload_ctx_def upload_request_def form_ctx_def make_ctx_def sample_ctx_def get_form_def is_multipart_def
      Let_def split: option.splits)

theorem app_upload_download_witness:
  "\<exists>m a res m2 res2. app_serve sample_env sample_inputs stable_sort [] upload_request (init_metrics, sample_server, default_CpuSnapshot)
       = (Inr res, (m, a)) \<and> res_status res = 200
     \<and> app_serve sample_env sample_inputs stable_sort []
         (sample_request Verb_get ''/group1/default/02/02/02020202020202020202020202020248.txt'') (m, a) = (Inr res2, (m2, a))
     \<and> res_body res2 = ''hi''"
proof -
  let ?meta = "upload_meta sample_env sample_empty ''a.txt'' ''hi'' ''default''"
  obtain st' where saved: "save_meta log_db ref_json ?meta sample_empty = (True, st')"
    using sample_save_any by blast
  have path: "path ?meta = ''default/02/02/02020202020202020202020202020248.txt''"
    by (simp add: upload_meta_simps sample_upload_path)
  have texts: "ascii (get_peer_id sample_empty)" "ascii (get_domain sample_empty)"
    by (simp_all add: get_peer_id_def get_domain_def sample_empty_def MetadataStore_open_def default_metaConfig_def)
  have ext: "check_file_ext ''a.txt'' (allow_extensions sample_cfg)"
    by (simp add: check_file_ext_def sample_cfg_def default_StoreConfig_def extension_def filename_def tolower_def)
  have nm: "upload_name sample_empty ''a.txt'' \<noteq> []"
    by (simp add: upload_name_def trim_filename_special_char_def special_char_def isspace_def)
  have root: "path_append (root_dir sample_cfg) (path ?meta) = ''store/default/02/02/02020202020202020202020202020248.txt''"
    by (simp add: path path_append_def is_absolute_def filename_def)
  have md5: "md5 ?meta = ''02020202020202020202020202020248''"
    by (simp add: upload_meta_simps toy_md5_hi)
  have check: "splitTarget (req_target (sample_request Verb_post (''/check?'' @ render_query [(''md5'', md5 ?meta)])))
      = (''/check'', render_query [(''md5'', md5 ?meta)])"
    unfolding md5 by code_simp
  have parse: "parseQuery (render_query [(''md5'', md5 ?meta)]) = Inr [''md5'' \<mapsto> md5 ?meta]"
    using parse_query_loop_render [of "[(''md5'', md5 ?meta)]" Map.empty] by (simp add: parseQuery_def plain_key_def)
  note served = app_upload_download [where E = sample_env and E' = sample_env and entries = log_entries and view = fst and cursor = snd
      and s = sample_server and c = Map.empty and srt = stable_sort and urq = upload_request and fname = "''a.txt''" and data = "''hi''"
      and scn = "''default''" and meta = ?meta and inputs = sample_inputs and m = init_metrics and st' = st' and bv = "[]"
      and cpu = default_CpuSnapshot and crq = "sample_request Verb_post (''/check?'' @ render_query [(''md5'', md5 ?meta)])"
      and q = "render_query [(''md5'', md5 ?meta)]" and qs = "[''md5'' \<mapsto> md5 ?meta]"
      and drq = "sample_request Verb_get ''/group1/default/02/02/02020202020202020202020202020248.txt''"
      and lrq = "sample_request Verb_get ''/default/02/02/02020202020202020202020202020248.txt''"]
  show ?thesis
    using served [OF _ _ _ _ stable.route_sort_axioms _ upload_request_ctx] check parse
      ref_meta.metadata_db_axioms sample_empty_reach toy.digest_axioms saved texts ext nm sample_upload_vacant root path
    by (fastforce simp: filename_def is_absolute_def path_free_def sample_request_def sample_with_inputs)
qed

definition chunk_request :: StringRequest where
  "chunk_request = (req (form_ctx chunk_parts Map.empty))\<lparr>req_method := Verb_get, req_target := ''/upload_chunk''\<rparr>"

definition finish_request :: StringRequest where
  "finish_request = (req (form_ctx merge_parts Map.empty))\<lparr>req_target := ''/merge''\<rparr>"

lemma chunk_requests [simp]:
  "req_method chunk_request = Verb_get" "req_target chunk_request = ''/upload_chunk''"
  "req_method finish_request = Verb_post" "req_target finish_request = ''/merge''"
  by (simp_all add: chunk_request_def finish_request_def form_ctx_def sample_request_def)

lemma chunk_request_forms:
  "chunk_form (make_ctx chunk_request ''/upload_chunk'' Map.empty []) ''abcd'' ''0'' ''data''"
  "merge_form (make_ctx finish_request ''/merge'' Map.empty []) ''abcd'' ''a.txt'' ''default''"
  using chunk_parts_form [of Map.empty] merge_parts_form [of Map.empty]
  by (simp_all add: chunk_form_def merge_form_def chunk_request_def finish_request_def form_ctx_def make_ctx_def sample_ctx_def
      get_form_def Let_def split: option.splits)

definition rounded_inputs :: "u64 \<Rightarrow> request_inputs" where
  "rounded_inputs k = \<lparr>in_time = 7, in_rand = 7, in_proc = sample_proc (\<lambda>q. if is_double q then q else 0)\<rparr>"

theorem app_chunk_session_witness:
  "\<exists>m1 m2 m3 s' r1 r2 r3 xs. app_serve sample_env rounded_inputs stable_sort [] chunk_request (init_metrics, sample_server, default_CpuSnapshot)
       = (Inr r1, (m1, s', default_CpuSnapshot)) \<and> res_status r1 = 200
     \<and> app_serve sample_env rounded_inputs stable_sort [] (sample_request Verb_get ''/check_chunk?md5=abcd'') (m1, s', default_CpuSnapshot)
       = (Inr r2, (m2, s', default_CpuSnapshot))
     \<and> json_parse ref_json (res_body r2)
       = Some (JObj [(''data'', JObj [(''list'', JArr (map JInt xs))]), (''message'', JStr []), (''status'', JStr ''ok'')])
     \<and> 0 \<in> set xs
     \<and> app_serve sample_env rounded_inputs stable_sort [] finish_request (m2, s', default_CpuSnapshot)
       = (Inr r3, (m3, s', default_CpuSnapshot)) \<and> res_status r3 = 400"
proof -
  let ?rnd = "\<lambda>q. if is_double q then q else (0 :: rat)"
  have double: "\<forall>q. is_double (rounding (sample_proc ?rnd) q)" by (simp add: is_double_zero)
  have figures: "get_proc_status (sample_proc ?rnd) = Inr (2048, 4, 9)"
    using get_proc_status_text [OF sample_proc_status] by simp
  have cpu: "get_cpu_usage (sample_proc ?rnd) default_CpuSnapshot = (Inr 0, \<lparr>total_time = 28, proc_time = 70\<rparr>)"
    using get_cpu_usage_run [OF sample_proc_stat _ _ sample_proc_self, of 28 70 ?rnd default_CpuSnapshot]
    by (simp add: plain_word_def isspace_def is_digit_def default_CpuSnapshot_def)
  have target: "splitTarget ''/check_chunk?md5=abcd'' = (''/check_chunk'', ''md5=abcd'')" "parseQuery ''md5=abcd'' = Inr [''md5'' \<mapsto> ''abcd'']"
    by (simp_all add: splitTarget_def parseQuery_def parse_query_loop.simps parse_pair_def substr_def decode.simps Let_def)
  have store: "plain_store sample_cfg" "plain_name ''abcd''" "lookup (sample_disk []) (merge_dir sample_cfg ''abcd'') = None"
    by (simp_all add: plain_store_def store_ready_def plain_name_def filename_def is_absolute_def merge_dir_def
        get_root_dir_def get_temp_dir_def) (simp add: path_eval)
  show ?thesis
    using app_chunk_session [where E = sample_env and srt = stable_sort and s = sample_server and m = init_metrics and md = "''abcd''"
        and i = 0 and inputs = rounded_inputs and urq = chunk_request and crq = "sample_request Verb_get ''/check_chunk?md5=abcd''"
        and mrq = finish_request and srq = "sample_request Verb_get ''/status''" and bv = "[]", OF _ stable.route_sort_axioms]
      ref_codec.json_codec_axioms store target double figures cpu chunk_request_forms sample_chunk_facts
      sample_temp_not_dir [OF sample_chunk_facts(2)]
    by (fastforce simp: to_string_zero chunk_dir_def chunk_rel_def contains_def rounded_inputs_def sample_request_def init_metrics_def)
qed

section \<open>A restart\<close>

text \<open>A server started on the database of an earlier one finds every file and has all its upload
  slots free, but its statistics start from zero; the first deletion then makes the file count wrap
  around to the largest 64-bit number.\<close>

theorem restart_forgets_stat:
  assumes db: "metadata_db D entries view cursor J" and reach: "reach D J entries st c"
    and start: "app_start cfg (Inr (db st)) d = (Inr (s, cpu), d')"
  shows "(\<forall>k. hex_md5 k \<longrightarrow> get_meta D J (meta_store s) k = get_meta D J st k)
    \<and> concurrent_uploads s = 0 \<and> files s = d' \<and> get_stat (meta_store s) = \<lparr>file_count = 0, total_size = 0\<rparr>
    \<and> (\<forall>k st'. hex_md5 k \<longrightarrow> delete_meta D J k (meta_store s) = (True, st') \<longrightarrow> file_count (get_stat st') = 2 ^ 64 - 1)"
proof -
  have s: "MetadataStore_new (Inr (db st)) default_metaConfig = Inr (meta_store s)" "concurrent_uploads s = 0" "files s = d'"
    using start by (auto simp: app_start_def MetadataStore_new_def split: prod.splits sum.splits)
  from reopen_forgets_stat [OF db reach s(1)] s(2,3) show ?thesis by blast
qed

theorem restart_forgets_stat_witness:
  "\<exists>s cpu d'. app_start sample_cfg (Inr (db sample_store)) (sample_disk []) = (Inr (s, cpu), d')
     \<and> get_stat sample_store = \<lparr>file_count = 1, total_size = 5\<rparr>
     \<and> get_meta log_db ref_json (meta_store s) (sample_md5 CHR ''a'') = get_meta log_db ref_json sample_store (sample_md5 CHR ''a'')
     \<and> (\<exists>st'. delete_meta log_db ref_json (sample_md5 CHR ''a'') (meta_store s) = (True, st') \<and> file_count (get_stat st') = 2 ^ 64 - 1)"
proof -
  obtain d' where "FileStore_init sample_cfg (sample_disk []) = (Inr (), d')"
    using sample_init by blast
  then have start: "app_start sample_cfg (Inr (db sample_store)) (sample_disk [])
      = (Inr (\<lparr>meta_store = MetadataStore_open (db sample_store) default_metaConfig, files = d', concurrent_uploads = 0\<rparr>,
           default_CpuSnapshot), d')"
    by (simp add: app_start_def MetadataStore_new_def)
  have hex: "hex_md5 (sample_md5 CHR ''a'')" by (simp add: sample_md5_def hex_md5_def isxdigit_def)
  obtain st' where "delete_meta log_db ref_json (sample_md5 CHR ''a'') (MetadataStore_open (db sample_store) default_metaConfig)
      = (True, st')" using sample_reopen_delete by blast
  with restart_forgets_stat [OF ref_meta.metadata_db_axioms sample_reach start] hex sample_stat start show ?thesis by simp
qed

end
