(* ===== verification/MetadataLock.thy ===== *)
theory MetadataLock
  imports MetadataProps
begin

text \<open>
  The lock of the metadata store.  Every operation of \<open>file/MetadataStore.cpp\<close> takes \<open>rw_lock_\<close>, a
  \<open>std::shared_mutex\<close>, for its own duration, and none calls another one while it holds the lock, with one
  exception: \<open>list_dir\<close> holds a shared lock and calls \<open>get_meta\<close>, which takes one again.  The standard
  leaves a second lock of the same thread undefined.  Here \<open>list_dir\<close> is translated with its lock; what a
  lock does is a parameter.  Results have two levels: \<open>None\<close> is a loop that does not end, \<open>Some None\<close> is
  undefined behaviour.
\<close>

section \<open>The lock as its holder sees it\<close>

datatype hold = Not_held | Shared | Exclusive

text \<open>\<open>lock_shared\<close> by the standard, and in an implementation that grants the lock to readers at any
  time.\<close>

fun lock_shared :: "hold \<Rightarrow> hold option" where
  "lock_shared Not_held = Some Shared"
| "lock_shared _ = None"

fun lock_granted :: "hold \<Rightarrow> hold option" where
  "lock_granted Exclusive = None"
| "lock_granted _ = Some Shared"

definition get_meta_locked ::
  "(hold \<Rightarrow> hold option) \<Rightarrow> ('db, 'it) leveldb_api \<Rightarrow> json_api \<Rightarrow> 'db metadata_store \<Rightarrow> hold \<Rightarrow> string \<Rightarrow> MetaFile option option" where
  "get_meta_locked lk D J st h key = map_option (\<lambda>_. get_meta D J st key) (lk h)"

definition list_step_locked ::
  "(hold \<Rightarrow> hold option) \<Rightarrow> ('db, 'it) leveldb_api \<Rightarrow> json_api \<Rightarrow> 'db metadata_store \<Rightarrow> hold \<Rightarrow> string \<Rightarrow> int \<Rightarrow> int \<Rightarrow> int \<Rightarrow>
     'it \<Rightarrow> (int \<times> int \<times> MetaFile list) option \<Rightarrow> bool \<times> 'it \<times> (int \<times> int \<times> MetaFile list) option" where
  "list_step_locked lk D J st h pfx offset limit order it acc =
     (let it' = (if order = 1 then it_Next D it else it_Prev D it)
      in case acc of
           None \<Rightarrow> (True, it, None)
         | Some (skipped, fetched, results) \<Rightarrow>
             if take (length pfx) (it_key D it) \<noteq> pfx then (True, it, acc)
             else if skipped < offset then (False, it', Some (skipped + 1, fetched, results))
             else (case get_meta_locked lk D J st h (it_value D it) of
                     None \<Rightarrow> (True, it, None)
                   | Some None \<Rightarrow> (limit \<le> fetched \<and> 0 < limit, it', acc)
                   | Some (Some meta) \<Rightarrow> (limit \<le> fetched + 1 \<and> 0 < limit, it', Some (skipped, fetched + 1, results @ [meta]))))"

definition list_dir_locked ::
  "(hold \<Rightarrow> hold option) \<Rightarrow> ('db, 'it) leveldb_api \<Rightarrow> json_api \<Rightarrow> 'db metadata_store \<Rightarrow> string \<Rightarrow> int \<Rightarrow> int \<Rightarrow> int \<Rightarrow>
     MetaFile list option option" where
  "list_dir_locked lk D J st dir offset limit order =
     (if offset < 0 \<or> limit = 0 then Some (Some [])
      else (case lk Not_held of
              None \<Rightarrow> Some None
            | Some h \<Rightarrow>
                let pfx = scene_prefix dir;
                    it = list_start D (db_NewIterator D (db st)) pfx order
                in map_option (map_option (\<lambda>acc. snd (snd acc)))
                     (while_valid D (list_step_locked lk D J st h pfx offset limit order) it (Some (0, 0, [])))))"

section \<open>The loop\<close>

text \<open>What a turn does, apart from the iterator.\<close>

definition locked_body ::
  "(hold \<Rightarrow> hold option) \<Rightarrow> ('db, 'it) leveldb_api \<Rightarrow> json_api \<Rightarrow> 'db metadata_store \<Rightarrow> hold \<Rightarrow> string \<Rightarrow> int \<Rightarrow> int \<Rightarrow>
     string \<Rightarrow> string \<Rightarrow> (int \<times> int \<times> MetaFile list) option \<Rightarrow> bool \<times> (int \<times> int \<times> MetaFile list) option" where
  "locked_body lk D J st h pfx offset limit key val acc =
     (case acc of
        None \<Rightarrow> (True, None)
      | Some (skipped, fetched, results) \<Rightarrow>
          if \<not> prefix pfx key then (True, acc)
          else if skipped < offset then (False, Some (skipped + 1, fetched, results))
          else if lk h = None then (True, None)
          else map_prod id Some (list_body D J st pfx offset limit key val (skipped, fetched, results)))"

lemma scan_locked_undefined:
  assumes "lk h = None" "\<forall>e \<in> set E. prefix pfx (fst e)" "outside pfx R" "s \<le> offset"
  shows "scan (locked_body lk D J st h pfx offset limit) (E @ R) (Some (s, f, res))
    = (if length E \<le> nat (offset - s) then Some (s + int (length E), f, res) else None)"
  using assms(2,4)
proof (induction E arbitrary: s)
  case Nil
  show ?case using assms(3) by (cases R) (auto simp: locked_body_def outside_def)
next
  case (Cons e E)
  obtain k v where e: "e = (k, v)" by fastforce
  show ?case
  proof (cases "s < offset")
    case True
    then have "nat (offset - s) = Suc (nat (offset - (s + 1)))" by simp
    with True Cons show ?thesis by (simp add: e locked_body_def algebra_simps)
  next
    case False
    with Cons.prems assms(1) show ?thesis by (simp add: e locked_body_def)
  qed
qed

lemma scan_locked_granted:
  assumes "lk h \<noteq> None"
  shows "scan (locked_body lk D J st h pfx offset limit) es (Some acc) = Some (scan (list_body D J st pfx offset limit) es acc)"
proof (induction es arbitrary: acc)
  case (Cons e es)
  obtain k v where e: "e = (k, v)" by fastforce
  have "locked_body lk D J st h pfx offset limit k v (Some acc) = map_prod id Some (list_body D J st pfx offset limit k v acc)"
    using assms by (cases acc) (auto simp: locked_body_def list_body_apply)
  then show ?case using Cons by (cases "list_body D J st pfx offset limit k v acc") (simp add: e)
qed simp

context metadata_db
begin

lemma list_step_locked_moves:
  "moves (if order = 1 then it_Next D else it_Prev D) (list_step_locked lk D J st h pfx offset limit order)
     (locked_body lk D J st h pfx offset limit)"
  by (auto simp: moves_def list_step_locked_def locked_body_def list_body_apply get_meta_locked_def take_prefix Let_def split: option.splits)

lemma list_dir_locked_scan:
  assumes "0 \<le> offset" "limit \<noteq> 0" "lk Not_held = Some h"
  shows "list_dir_locked lk D J st dir offset limit order
    = Some (map_option (\<lambda>acc. snd (snd acc))
        (scan (locked_body lk D J st h (scene_prefix dir) offset limit) (listed dir order st) (Some (0, 0, []))))"
  using assms by (simp add: list_dir_locked_def Let_def while_valid_listed [OF list_step_locked_moves])

end

section \<open>Properties\<close>

text \<open>C25: by the standard, \<open>list_dir\<close> has undefined behaviour exactly when the scene has more entries than are
  skipped: the first entry that is looked at takes the lock a second time.  Whatever the database
  holds.\<close>

theorem list_dir_relocks:
  assumes db: "metadata_db D entries view cursor J" and page: "0 \<le> offset" "limit \<noteq> 0"
  shows "list_dir_locked lock_shared D J st dir offset limit order
    = Some (if length (with_prefix (scene_prefix dir) (entries (db st))) \<le> nat offset then Some [] else None)"
proof -
  let ?E = "(if order = 1 then id else rev) (with_prefix (scene_prefix dir) (entries (db st)))"
  obtain R where R: "metadata_db.listed entries dir order st = ?E @ R" "outside (scene_prefix dir) R"
    by (rule metadata_db.listed_block [OF db])
  have "\<forall>e \<in> set ?E. prefix (scene_prefix dir) (fst e)" using with_prefix_all by auto
  from scan_locked_undefined [of lock_shared Shared, OF _ this R(2), of 0 offset D J st limit 0 "[]"] page R(1)
  show ?thesis by (simp add: metadata_db.list_dir_locked_scan [OF db])
qed

theorem list_dir_relocks_witness:
  "list_dir_locked lock_shared log_db ref_json (MetadataStore_open [Put ''SCENE:a:1:x'' ''junk''] default_metaConfig) ''a'' 0 10 1 = Some None"
  using list_dir_relocks [OF ref_meta.metadata_db_axioms, of 0 10 "MetadataStore_open [Put ''SCENE:a:1:x'' ''junk''] default_metaConfig" "''a''" 1]
  by (simp add: MetadataStore_open_def log_entries_def with_prefix_def scene_prefix_def)

text \<open>Where the second lock is granted, the listing is that of \<open>MetadataStore\<close>.\<close>

lemma list_dir_granted:
  assumes db: "metadata_db D entries view cursor J"
  shows "list_dir_locked lock_granted D J st dir offset limit order = map_option Some (list_dir D J st dir offset limit order)"
proof (cases "0 \<le> offset \<and> limit \<noteq> 0")
  case True
  then show ?thesis
    by (simp add: metadata_db.list_dir_locked_scan [OF db] metadata_db.list_dir_scan [OF db] scan_locked_granted)
qed (auto simp: list_dir_locked_def list_dir_def)

end
