(* ===== verification/MetadataConc.thy ===== *)
theory MetadataConc
  imports MetadataProps
begin

text \<open>
  The metadata store under threads.  Every access to the database and the statistics happens under
  \<open>rw_lock_\<close>, but for the look-up at the start of \<open>save_meta\<close>; so the atomic steps of a thread are the
  locked regions, that look-up, and nothing else.  A thread is idle, or has passed the look-up and
  waits for the lock, or is between the two halves of \<open>update_meta\<close>.  Writes are taken to succeed.
\<close>

section \<open>Threads\<close>

datatype activity = Idle | Saving MetaFile | Updating MetaFile

text \<open>A step of a thread; \<open>Commit\<close> tells whether the MD5 was there already when the lock was taken.\<close>

datatype thread_event =
    Look nat MetaFile
  | Commit nat MetaFile bool
  | Remove nat string
  | Begin_update nat MetaFile
  | Set_status nat string FileStatus
  | Save_shard nat u32 string string

record 'db shared =
  store :: "'db metadata_store"
  activity_of :: "nat \<Rightarrow> activity"

definition set_activity :: "nat \<Rightarrow> activity \<Rightarrow> 'db shared \<Rightarrow> 'db shared" where
  "set_activity t a w = w\<lparr>activity_of := (activity_of w)(t := a)\<rparr>"

inductive thread_step :: "('db, 'it) leveldb_api \<Rightarrow> json_api \<Rightarrow> 'db shared \<Rightarrow> thread_event \<Rightarrow> 'db shared \<Rightarrow> bool"
  for D J where
  look_present: "activity_of w t \<in> {Idle, Updating meta} \<Longrightarrow> save_meta_check D meta (store w) \<Longrightarrow>
    thread_step D J w (Look t meta) (set_activity t Idle w)"
| look_absent: "activity_of w t \<in> {Idle, Updating meta} \<Longrightarrow> \<not> save_meta_check D meta (store w) \<Longrightarrow>
    thread_step D J w (Look t meta) (set_activity t (Saving meta) w)"
| commit: "activity_of w t = Saving meta \<Longrightarrow> save_meta_commit D J meta (store w) = (True, st) \<Longrightarrow>
    thread_step D J w (Commit t meta (save_meta_check D meta (store w))) (set_activity t Idle (w\<lparr>store := st\<rparr>))"
| remove: "activity_of w t = Idle \<Longrightarrow> delete_meta D J k (store w) = (ok, st) \<Longrightarrow> ok \<or> st = store w \<Longrightarrow>
    thread_step D J w (Remove t k) (w\<lparr>store := st\<rparr>)"
| begin_update: "activity_of w t = Idle \<Longrightarrow> delete_meta D J (md5 meta) (store w) = (ok, st) \<Longrightarrow> ok \<or> st = store w \<Longrightarrow>
    thread_step D J w (Begin_update t meta) (set_activity t (Updating meta) (w\<lparr>store := st\<rparr>))"
| set_status: "activity_of w t = Idle \<Longrightarrow> update_status D J k s (store w) = (Inr ok, st) \<Longrightarrow> ok \<or> st = store w \<Longrightarrow>
    thread_step D J w (Set_status t k s) (w\<lparr>store := st\<rparr>)"
| save_shard: "activity_of w t = Idle \<Longrightarrow> save_meta_shard D i fid smd5 (store w) = (True, st) \<Longrightarrow>
    thread_step D J w (Save_shard t i fid smd5) (w\<lparr>store := st\<rparr>)"

inductive_cases thread_stepE: "thread_step D J w e w'"

inductive thread_run :: "('db, 'it) leveldb_api \<Rightarrow> json_api \<Rightarrow> 'db shared \<Rightarrow> thread_event list \<Rightarrow> 'db shared \<Rightarrow> bool"
  for D J where
  started: "thread_run D J w [] w"
| continued: "thread_run D J w es w' \<Longrightarrow> thread_step D J w' e w'' \<Longrightarrow> thread_run D J w (es @ [e]) w''"

definition idle_store :: "'db metadata_store \<Rightarrow> 'db shared" where
  "idle_store st = \<lparr>store = st, activity_of = (\<lambda>_. Idle)\<rparr>"

section \<open>What the threads do\<close>

fun thread_of :: "thread_event \<Rightarrow> nat" where
  "thread_of (Look t _) = t"
| "thread_of (Commit t _ _) = t"
| "thread_of (Remove t _) = t"
| "thread_of (Begin_update t _) = t"
| "thread_of (Set_status t _ _) = t"
| "thread_of (Save_shard t _ _ _) = t"

text \<open>The saves that wrote a file which another thread had saved since the look-up.\<close>

fun redundant :: "thread_event \<Rightarrow> MetaFile list" where
  "redundant (Commit _ meta True) = [meta]"
| "redundant _ = []"

abbreviation redundant_saves :: "thread_event list \<Rightarrow> MetaFile list" where
  "redundant_saves es \<equiv> concat (map redundant es)"

text \<open>The threads work by content: the metadata they save for an MD5 is always the same, and different
  files have different paths.\<close>

definition by_content :: "json_api \<Rightarrow> (string \<Rightarrow> MetaFile) \<Rightarrow> bool" where
  "by_content J F \<longleftrightarrow> (\<forall>k. hex_md5 k \<longrightarrow> storable J (F k) \<and> md5 (F k) = k)
     \<and> (\<forall>k k'. hex_md5 k \<longrightarrow> hex_md5 k' \<longrightarrow> path (F k) = path (F k') \<longrightarrow> k = k')"

fun permitted :: "(string \<Rightarrow> MetaFile) \<Rightarrow> thread_event \<Rightarrow> bool" where
  "permitted F (Look _ meta) \<longleftrightarrow> hex_md5 (md5 meta) \<and> meta = F (md5 meta)"
| "permitted F (Commit _ meta _) \<longleftrightarrow> True"
| "permitted F (Remove _ k) \<longleftrightarrow> hex_md5 k"
| "permitted F (Begin_update _ meta) \<longleftrightarrow> hex_md5 (md5 meta) \<and> meta = F (md5 meta)"
| "permitted F (Set_status _ k s) \<longleftrightarrow> hex_md5 k \<and> named_status s"
| "permitted F (Save_shard _ _ _ smd5) \<longleftrightarrow> CHR ''{'' \<notin> set smd5"

text \<open>The catalogue holds the files as the threads save them, but for the status.\<close>

definition catalogue_of :: "(string \<Rightarrow> MetaFile) \<Rightarrow> catalogue \<Rightarrow> bool" where
  "catalogue_of F c \<longleftrightarrow> (\<forall>k m. c k = Some m \<longrightarrow> (\<exists>s. m = (F k)\<lparr>status := s\<rparr>))"

definition threads_ok :: "json_api \<Rightarrow> ('db \<Rightarrow> (string \<times> string) list) \<Rightarrow> (string \<Rightarrow> MetaFile) \<Rightarrow> MetaFile list \<Rightarrow>
    'db shared \<Rightarrow> catalogue \<Rightarrow> bool" where
  "threads_ok J entries F dups w c \<longleftrightarrow>
     represents J (map_of (entries (db (store w)))) c \<and> catalogue_of F c
     \<and> file_count (cached_stat (store w)) = file_count (stat_of c) + of_nat (length dups)
     \<and> total_size (cached_stat (store w)) = total_size (stat_of c) + sum_list (map fsize dups)
     \<and> (\<forall>t meta. activity_of w t = Saving meta \<longrightarrow> hex_md5 (md5 meta) \<and> meta = F (md5 meta))"

lemma set_activity_simps [simp]:
  "store (set_activity t a w) = store w" "activity_of (set_activity t a w) = (activity_of w)(t := a)"
  by (simp_all add: set_activity_def)

lemma catalogue_of_updates:
  "catalogue_of F c \<Longrightarrow> catalogue_of F (c(k := None))"
  "catalogue_of F c \<Longrightarrow> catalogue_of F (c(k \<mapsto> F k))"
  "catalogue_of F c \<Longrightarrow> catalogue_of F (spec_update_status k s c)"
  by (auto simp: catalogue_of_def spec_update_status_def intro: exI [of _ "status (F k)"]) fastforce

context metadata_db
begin

lemma commit_represents:
  assumes rep: "represents J (contents (db st)) c" and cat: "catalogue_of F c" and F: "by_content J F"
    and meta: "hex_md5 (md5 meta)" "meta = F (md5 meta)" and run: "save_meta_commit D J meta st = (True, st')"
  shows "represents J (contents (db st')) (c(md5 meta \<mapsto> meta))"
    and "save_meta_check D meta st \<longleftrightarrow> md5 meta \<in> dom c"
    and "cached_stat st' = \<lparr>file_count = file_count (cached_stat st) + 1, total_size = total_size (cached_stat st) + fsize meta\<rparr>"
    and "md5 meta \<in> dom c \<Longrightarrow> stat_of (c(md5 meta \<mapsto> meta)) = stat_of c"
proof -
  have w: "contents (db st') = apply_batch (save_batch J meta) (contents (db st))"
      "cached_stat st' = \<lparr>file_count = file_count (cached_stat st) + 1, total_size = total_size (cached_stat st) + fsize meta\<rparr>"
    using run write_ok by (auto simp: save_meta_commit_def split: prod.splits if_splits)
  then show "cached_stat st' = \<lparr>file_count = file_count (cached_stat st) + 1, total_size = total_size (cached_stat st) + fsize meta\<rparr>"
    by simp
  have sto: "storable J meta" using F meta by (metis by_content_def)
  show "save_meta_check D meta st \<longleftrightarrow> md5 meta \<in> dom c"
    using representsD(1) [OF rep meta(1)] by (auto simp: save_meta_check_def get)
  have old: "\<exists>s. m = meta\<lparr>status := s\<rparr>" if "c (md5 meta) = Some m" for m
    using cat that meta(2) unfolding catalogue_of_def by metis
  show "represents J (contents (db st')) (c(md5 meta \<mapsto> meta))"
  proof (cases "c (md5 meta)")
    case None
    have "contents (db st) (path_key (path meta)) \<noteq> Some k" for k
    proof
      assume "contents (db st) (path_key (path meta)) = Some k"
      then obtain m where m: "c k = Some m" "path m = path meta" using representsD(2) [OF rep] by blast
      moreover have "hex_md5 k" using represents_hex [OF rep m(1)] .
      moreover have "path m = path (F k)" using cat m(1) unfolding catalogue_of_def by fastforce
      ultimately have "k = md5 meta" using F meta by (metis by_content_def)
      with m None show False by simp
    qed
    then have "contents (db st) (path_key (path meta)) = None" by (meson not_None_eq)
    with represents_save [OF rep sto None] w(1) show ?thesis by simp
  next
    case (Some m)
    with old obtain s where "m = meta\<lparr>status := s\<rparr>" by blast
    with represents_resave [OF rep Some sto] w(1) show ?thesis by (simp add: meta_scene_key_def)
  qed
  show "stat_of (c(md5 meta \<mapsto> meta)) = stat_of c" if "md5 meta \<in> dom c"
  proof -
    from that obtain m where m0: "c (md5 meta) = Some m" by blast
    with old obtain s where m: "c (md5 meta) = Some m" "m = meta\<lparr>status := s\<rparr>" by blast
    then have "fsize (the ((c(md5 meta \<mapsto> meta)) k)) = fsize (the (c k))" for k by simp
    with m show ?thesis by (simp add: stat_of_def insert_absorb domI)
  qed
qed

lemma delete_threads_ok:
  assumes ok: "threads_ok J entries F dups w c" and k: "hex_md5 k"
    and run: "delete_meta D J k (store w) = (b, st)" "b \<or> st = store w"
  shows "\<exists>c'. threads_ok J entries F dups (w\<lparr>store := st\<rparr>) c'"
proof (cases b)
  case True
  have rep: "represents J (contents (db (store w))) c" using ok by (simp add: threads_ok_def)
  obtain meta where del: "c k = Some meta" "represents J (contents (db st)) (c(k := None))"
      "cached_stat st = \<lparr>file_count = file_count (cached_stat (store w)) - 1, total_size = total_size (cached_stat (store w)) - fsize meta\<rparr>"
    using delete_meta_represents [OF rep k, of st] run(1) True by auto
  with stat_of_remove [OF contents_finite [OF rep] del(1)] ok show ?thesis
    by (intro exI [of _ "c(k := None)"]) (auto simp: threads_ok_def catalogue_of_updates)
qed (use run ok in auto)

lemma thread_step_ok:
  assumes "thread_step D J w e w'" "by_content J F" "permitted F e" "threads_ok J entries F dups w c"
  shows "\<exists>c'. threads_ok J entries F (dups @ redundant e) w' c'"
  using assms(1)
proof (cases rule: thread_step.cases)
  case (look_present t meta)
  with assms show ?thesis by (intro exI [of _ c]) (auto simp: threads_ok_def)
next
  case (look_absent t meta)
  with assms show ?thesis by (intro exI [of _ c]) (auto simp: threads_ok_def)
next
  case (commit t meta st)
  have rep: "represents J (contents (db (store w))) c" and cat: "catalogue_of F c"
    and meta: "hex_md5 (md5 meta)" "meta = F (md5 meta)"
    using assms(4) commit by (auto simp: threads_ok_def)
  note run = commit_represents [OF rep cat assms(2) meta commit(4)]
  have cat': "catalogue_of F (c(md5 meta \<mapsto> meta))" using catalogue_of_updates(2) [OF cat, of "md5 meta"] meta(2) by simp
  have "threads_ok J entries F (dups @ redundant e) w' (c(md5 meta \<mapsto> meta))"
  proof (cases "md5 meta \<in> dom c")
    case True
    with run commit cat' assms(4) show ?thesis by (auto simp: threads_ok_def)
  next
    case False
    then have new: "c (md5 meta) = None" by auto
    from False run commit cat' assms(4) stat_of_insert [OF contents_finite [OF rep] new, of meta] show ?thesis
      by (auto simp: threads_ok_def)
  qed
  then show ?thesis by blast
next
  case (remove t k ok st)
  with delete_threads_ok [OF assms(4), of k ok st] assms(3) show ?thesis by simp
next
  case (begin_update t meta ok st)
  with delete_threads_ok [OF assms(4), of "md5 meta" ok st] assms(3) show ?thesis
    by (fastforce simp: threads_ok_def)
next
  case (set_status t k s ok st)
  have rep: "represents J (contents (db (store w))) c" using assms(4) by (simp add: threads_ok_def)
  show ?thesis
  proof (cases ok)
    case True
    with update_status_represents [OF rep, of k s st] set_status assms(3,4) show ?thesis
      by (intro exI [of _ "spec_update_status k s c"]) (auto simp: threads_ok_def catalogue_of_updates stat_of_status)
  qed (use set_status assms(4) in auto)
next
  case (save_shard t i fid smd5 st)
  have rep: "represents J (contents (db (store w))) c" using assms(4) by (simp add: threads_ok_def)
  from save_meta_shard_ok(1,2) [OF rep _ save_shard(4)] save_shard assms(3,4) show ?thesis
    by (intro exI [of _ c]) (auto simp: threads_ok_def)
qed

lemma thread_run_ok:
  assumes "thread_run D J w es w'" "by_content J F" "\<forall>e \<in> set es. permitted F e" "threads_ok J entries F [] w c"
  shows "\<exists>c'. threads_ok J entries F (redundant_saves es) w' c'"
  using assms
proof (induction rule: thread_run.induct)
  case (continued w es w' e w'')
  then obtain c' where "threads_ok J entries F (redundant_saves es) w' c'" by auto
  with thread_step_ok [OF continued.hyps(2)] continued.prems show ?case by fastforce
qed auto

end

section \<open>One thread\<close>

text \<open>A thread that runs alone finds at the lock what it found at the look-up.\<close>

lemma alone_step:
  assumes "thread_step D J w e w'" "thread_of e = t" "\<forall>meta. activity_of w t = Saving meta \<longrightarrow> \<not> save_meta_check D meta (store w)"
  shows "redundant e = [] \<and> (\<forall>meta. activity_of w' t = Saving meta \<longrightarrow> \<not> save_meta_check D meta (store w'))"
  using assms by (cases rule: thread_step.cases) auto

lemma alone_exact:
  assumes "thread_run D J (idle_store st) es w" "\<forall>e \<in> set es. thread_of e = t"
  shows "redundant_saves es = []"
proof -
  have "redundant_saves es = [] \<and> (\<forall>meta. activity_of w t = Saving meta \<longrightarrow> \<not> save_meta_check D meta (store w))"
    if "thread_run D J w0 es w" "w0 = idle_store st" "\<forall>e \<in> set es. thread_of e = t" for w0
    using that
  proof (induction rule: thread_run.induct)
    case (continued w es w' e w'')
    with alone_step [OF continued.hyps(2), of t] show ?case by auto
  qed (simp add: idle_store_def)
  with assms show ?thesis by blast
qed

section \<open>Any interleaving\<close>

lemma idle_store_ok:
  assumes "metadata_db D entries view cursor J" "entries handle = []"
  shows "threads_ok J entries F [] (idle_store (MetadataStore_open handle cfg)) Map.empty"
  using assms(2)
  by (simp add: threads_ok_def idle_store_def MetadataStore_open_def represents_empty catalogue_of_def stat_of_empty
      default_SystemStat_def)

text \<open>C2: any number of threads that save, replace, delete and mark files, interleaved in any way the lock
  allows, starting on an empty database.  If they save by content (the same metadata for the same
  MD5, different paths for different files), then at every moment all look-ups by MD5 and by path
  agree with one catalogue of the files saved and not deleted, and the statistics exceed the count
  and the size of that catalogue by exactly the saves that another thread had forestalled between
  the look-up and the lock: those are counted twice.  A thread alone has none of them.\<close>

theorem threads_agree:
  assumes db: "metadata_db D entries view cursor J" and empty: "entries handle = []" and F: "by_content J F"
    and run: "thread_run D J (idle_store (MetadataStore_open handle cfg)) es w" "\<forall>e \<in> set es. permitted F e"
  shows "\<exists>c. catalogue_of F c \<and> (\<forall>k. hex_md5 k \<longrightarrow> get_meta D J (store w) k = c k)
    \<and> (\<forall>k meta. c k = Some meta \<longrightarrow> \<not> is_md5 (path meta) \<longrightarrow> get_meta D J (store w) (path meta) = Some meta)
    \<and> file_count (get_stat (store w)) = of_nat (card (dom c)) + of_nat (length (redundant_saves es))
    \<and> total_size (get_stat (store w)) = (\<Sum>k \<in> dom c. fsize (the (c k))) + sum_list (map fsize (redundant_saves es))
    \<and> (\<forall>t. (\<forall>e \<in> set es. thread_of e = t) \<longrightarrow> redundant_saves es = [])"
proof -
  obtain c where c: "threads_ok J entries F (redundant_saves es) w c"
    using metadata_db.thread_run_ok [OF db run(1) F run(2) idle_store_ok [OF db empty]] by blast
  then have rep: "represents J (map_of (entries (db (store w)))) c" by (simp add: threads_ok_def)
  have alone: "\<forall>t. (\<forall>e \<in> set es. thread_of e = t) \<longrightarrow> redundant_saves es = []"
    using alone_exact [OF run(1)] by blast
  have stat: "file_count (get_stat (store w)) = of_nat (card (dom c)) + of_nat (length (redundant_saves es))"
      "total_size (get_stat (store w)) = (\<Sum>k \<in> dom c. fsize (the (c k))) + sum_list (map fsize (redundant_saves es))"
      "catalogue_of F c"
    using c by (simp_all add: threads_ok_def get_stat_def stat_of_def)
  show ?thesis
    using metadata_db.get_meta_by_md5 [OF db rep] metadata_db.get_meta_by_path [OF db rep]
    by (intro exI [of _ c] conjI allI impI stat) (simp_all only: alone [rule_format])
qed

section \<open>A race\<close>

definition content_meta :: "string \<Rightarrow> MetaFile" where
  "content_meta k = default_MetaFile\<lparr>md5 := k, path := ''p/'' @ k, name := ''x.txt'', scene := ''img'', fsize := 5, mtime := 7\<rparr>"

lemma content_meta_by_content: "by_content ref_json content_meta"
  by (simp add: by_content_def content_meta_def storable_def forget_shard_paths_def default_MetaFile_def ref_json_def)

text \<open>Both threads look before either commits.\<close>

definition race :: "MetaFile \<Rightarrow> MetaFile \<Rightarrow> thread_event list" where
  "race m m' = [Look 0 m, Look 1 m', Commit 0 m False, Commit 1 m' True]"

definition raced :: "MetaFile \<Rightarrow> MetaFile \<Rightarrow> write_op list metadata_store" where
  "raced m m' = snd (save_meta_commit log_db ref_json m' (snd (save_meta_commit log_db ref_json m sample_empty)))"

lemma save_commit_log:
  "save_meta_commit log_db J m st = (True, st\<lparr>db := db st @ save_batch J m, cached_stat :=
     \<lparr>file_count = file_count (cached_stat st) + 1, total_size = total_size (cached_stat st) + fsize m\<rparr>\<rparr>)"
  by (simp add: save_meta_commit_def log_db_ops)

lemma race_run:
  assumes "md5 m' = md5 m" "hex_md5 (md5 m)"
  shows "thread_run log_db ref_json (idle_store sample_empty) (race m m') (idle_store (raced m m'))"
proof -
  let ?w0 = "idle_store sample_empty" and ?st1 = "snd (save_meta_commit log_db ref_json m sample_empty)"
  let ?w1 = "set_activity 0 (Saving m) ?w0" let ?w2 = "set_activity 1 (Saving m') ?w1"
  let ?w3 = "set_activity 0 Idle (?w2\<lparr>store := ?st1\<rparr>)" let ?w4 = "set_activity 1 Idle (?w3\<lparr>store := raced m m'\<rparr>)"
  have empty: "\<not> save_meta_check log_db x sample_empty" for x
    by (simp add: save_meta_check_def log_db_ops sample_empty_def MetadataStore_open_def log_entries_def)
  have full: "save_meta_check log_db m' ?st1"
    using assms hex_md5_neq_keys [OF assms(2)]
    by (simp add: save_meta_check_def save_commit_log log_db_ops log_entries_append apply_batch_def save_batch_def)
  have "thread_step log_db ref_json ?w0 (Look 0 m) ?w1" "thread_step log_db ref_json ?w1 (Look 1 m') ?w2"
    by (rule look_absent; simp add: idle_store_def empty)+
  moreover have "thread_step log_db ref_json ?w2 (Commit 0 m False) ?w3"
    using commit [of ?w2 0 m log_db ref_json ?st1] by (simp add: idle_store_def empty save_commit_log)
  moreover have "thread_step log_db ref_json ?w3 (Commit 1 m' True) ?w4"
    using commit [of ?w3 1 m' log_db ref_json "raced m m'"] full by (simp add: raced_def save_commit_log)
  ultimately have "thread_run log_db ref_json ?w0 ([] @ [Look 0 m] @ [Look 1 m'] @ [Commit 0 m False] @ [Commit 1 m' True]) ?w4"
    unfolding append_assoc [symmetric] by (blast intro: started continued)
  moreover have "?w4 = idle_store (raced m m')"
    by (simp add: set_activity_def idle_store_def fun_eq_iff)
  ultimately show ?thesis by (simp add: race_def)
qed

theorem threads_agree_witness:
  "\<exists>c. catalogue_of content_meta c \<and> get_meta log_db ref_json (raced (content_meta (sample_md5 CHR ''a'')) (content_meta (sample_md5 CHR ''a''))) (sample_md5 CHR ''a'') = c (sample_md5 CHR ''a'')
     \<and> file_count (get_stat (raced (content_meta (sample_md5 CHR ''a'')) (content_meta (sample_md5 CHR ''a'')))) = of_nat (card (dom c)) + 1"
proof -
  let ?m = "content_meta (sample_md5 CHR ''a'')"
  have hex: "hex_md5 (sample_md5 CHR ''a'')" by (simp add: sample_md5_def hex_md5_def isxdigit_def)
  have md5: "md5 ?m = sample_md5 CHR ''a''" by (simp add: content_meta_def)
  have run: "thread_run log_db ref_json (idle_store (MetadataStore_open [] default_metaConfig)) (race ?m ?m) (idle_store (raced ?m ?m))"
    using race_run [of ?m ?m] hex by (simp add: md5 sample_empty_def)
  have perm: "\<forall>e \<in> set (race ?m ?m). permitted content_meta e" by (simp add: race_def md5 hex)
  have empty: "log_entries [] = []" by (simp add: log_entries_def)
  from threads_agree [OF ref_meta.metadata_db_axioms empty content_meta_by_content run perm] hex
  show ?thesis by (auto simp: race_def idle_store_def)
qed

section \<open>Uploads of one file in different seconds\<close>

text \<open>When the two threads save the same content with different times, the entry of the first in the
  scene index stays behind, and the listing has the file twice.\<close>

lemma race_lists_twice:
  defines "m \<equiv> content_meta (sample_md5 CHR ''a'')"
  shows "thread_run log_db ref_json (idle_store sample_empty) (race m (m\<lparr>mtime := 9\<rparr>)) (idle_store (raced m (m\<lparr>mtime := 9\<rparr>)))"
    and "list_dir log_db ref_json (raced m (m\<lparr>mtime := 9\<rparr>)) ''img'' 0 10 1 = Some [m\<lparr>mtime := 9\<rparr>, m\<lparr>mtime := 9\<rparr>]"
proof -
  have "hex_md5 (md5 m)" by (simp add: m_def content_meta_def sample_md5_def hex_md5_def isxdigit_def)
  then show "thread_run log_db ref_json (idle_store sample_empty) (race m (m\<lparr>mtime := 9\<rparr>)) (idle_store (raced m (m\<lparr>mtime := 9\<rparr>)))"
    by (intro race_run) simp_all
  have "snd (snd (scan (list_body log_db ref_json (raced m (m\<lparr>mtime := 9\<rparr>)) (scene_prefix ''img'') 0 10)
      (dropWhile (\<lambda>e. fst e < scene_prefix ''img'') (log_entries (db (raced m (m\<lparr>mtime := 9\<rparr>))))) (0, 0, [])))
    = [m\<lparr>mtime := 9\<rparr>, m\<lparr>mtime := 9\<rparr>]"
    unfolding m_def by code_simp
  then show "list_dir log_db ref_json (raced m (m\<lparr>mtime := 9\<rparr>)) ''img'' 0 10 1 = Some [m\<lparr>mtime := 9\<rparr>, m\<lparr>mtime := 9\<rparr>]"
    by (simp add: ref_meta.list_dir_scan ref_meta.listed_def)
qed

end
