(* ===== verification/Threads.thy ===== *)
theory Threads
  imports Prelude
begin

text \<open>
  Threads that take turns on a shared state, in any order: the locale of the rely-guarantee argument, and
  one that bounds the turns a thread needs.  \<open>FileStoreConc\<close> and \<open>UploadConc\<close> interpret them.
\<close>

section \<open>Interleaved threads\<close>

text \<open>A state of the threads, one for each job, and the state they share; a schedule is the list of
  the threads whose turn it is.\<close>

definition sched_step :: "('j \<Rightarrow> 'p \<Rightarrow> 's \<Rightarrow> 'p \<times> 's) \<Rightarrow> 'j list \<Rightarrow> nat \<Rightarrow> 'p list \<times> 's \<Rightarrow> 'p list \<times> 's" where
  "sched_step step jobs t = (\<lambda>(ps, s).
     if t < length jobs then (case step (jobs ! t) (ps ! t) s of (p, s') \<Rightarrow> (ps[t := p], s')) else (ps, s))"

definition sched_run :: "('j \<Rightarrow> 'p \<Rightarrow> 's \<Rightarrow> 'p \<times> 's) \<Rightarrow> 'j list \<Rightarrow> nat list \<Rightarrow> 'p list \<times> 's \<Rightarrow> 'p list \<times> 's" where
  "sched_run step jobs ts = fold (sched_step step jobs) ts"

locale rely_guarantee =
  fixes step :: "'j \<Rightarrow> 'p \<Rightarrow> 's \<Rightarrow> 'p \<times> 's" and jobs :: "'j list"
    and invar :: "'s \<Rightarrow> bool" and assertion :: "nat \<Rightarrow> 'p \<Rightarrow> 's \<Rightarrow> bool" and guarantee :: "nat \<Rightarrow> 's \<Rightarrow> 's \<Rightarrow> bool"
  assumes own: "t < length jobs \<Longrightarrow> invar s \<Longrightarrow> assertion t p s \<Longrightarrow> step (jobs ! t) p s = (p', s') \<Longrightarrow>
      invar s' \<and> assertion t p' s' \<and> guarantee t s s'"
    and stable: "t < length jobs \<Longrightarrow> u < length jobs \<Longrightarrow> t \<noteq> u \<Longrightarrow> invar s \<Longrightarrow> guarantee u s s' \<Longrightarrow> assertion t p s \<Longrightarrow>
      assertion t p s'"
begin

definition all_ok :: "'p list \<times> 's \<Rightarrow> bool" where
  "all_ok w \<longleftrightarrow> length (fst w) = length jobs \<and> invar (snd w) \<and> (\<forall>t < length jobs. assertion t (fst w ! t) (snd w))"

lemma sched_step_ok:
  assumes "all_ok w"
  shows "all_ok (sched_step step jobs u w)"
proof (cases "u < length jobs")
  case True
  obtain ps s where w: "w = (ps, s)" by (cases w)
  obtain p' s' where run: "step (jobs ! u) (ps ! u) s = (p', s')" by fastforce
  have ok: "length ps = length jobs" "invar s" "\<And>t. t < length jobs \<Longrightarrow> assertion t (ps ! t) s"
    using assms by (auto simp: all_ok_def w)
  from own [OF True ok(2) ok(3) [OF True] run] have step: "invar s'" "assertion u p' s'" "guarantee u s s'" by auto
  then have "assertion t (ps[u := p'] ! t) s'" if "t < length jobs" for t
    using stable [OF that True _ ok(2) step(3) ok(3) [OF that]] ok(1) that by (cases "t = u") auto
  with True ok(1) step(1) show ?thesis by (simp add: all_ok_def sched_step_def w run)
next
  case False
  with assms show ?thesis by (cases w) (simp add: sched_step_def)
qed

lemma sched_run_ok: "all_ok w \<Longrightarrow> all_ok (sched_run step jobs ts w)"
  unfolding sched_run_def by (induction ts arbitrary: w) (auto simp: sched_step_ok)

end

text \<open>A rank that every step of a thread lowers bounds the steps it takes to be done.\<close>

locale bounded_threads = rely_guarantee +
  fixes rank :: "nat \<Rightarrow> 'b \<Rightarrow> nat"
  assumes rank_less: "t < length jobs \<Longrightarrow> invar s \<Longrightarrow> assertion t p s \<Longrightarrow> step (jobs ! t) p s = (p', s') \<Longrightarrow>
      rank t p' \<le> rank t p - 1"
begin

lemma sched_step_rank:
  assumes "all_ok w" "t < length jobs"
  shows "rank t (fst (sched_step step jobs u w) ! t) \<le> rank t (fst w ! t) - (if u = t then 1 else 0)"
  using assms rank_less [OF assms(2)] by (cases w) (auto simp: all_ok_def sched_step_def split: prod.splits)

lemma sched_run_rank:
  assumes "all_ok w" "t < length jobs"
  shows "rank t (fst (sched_run step jobs ts w) ! t) \<le> rank t (fst w ! t) - count_list ts t"
  using assms(1)
proof (induction ts arbitrary: w)
  case (Cons u ts)
  let ?w = "sched_step step jobs u w"
  have run: "sched_run step jobs (u # ts) w = sched_run step jobs ts ?w" by (simp add: sched_run_def)
  have "rank t (fst (sched_run step jobs ts ?w) ! t) \<le> rank t (fst ?w ! t) - count_list ts t"
    by (rule Cons.IH [OF sched_step_ok [OF Cons.prems]])
  with sched_step_rank [OF Cons.prems assms(2), of u] show ?case
    unfolding run by (cases "u = t") simp_all
qed (simp add: sched_run_def)

end

end
