(* ===== verification/FileStoreConc.thy ===== *)
theory FileStoreConc
  imports FileStoreProps Threads "HOL-Library.Code_Target_Nat"
begin

text \<open>
  \<open>FileStore::write_disk\<close> under threads.  The comments of the source argue that no lock is needed: the
  temporary file is private to the thread, and the rename is atomic.  Here a writer is a machine
  whose steps are the system calls of \<open>write_disk\<close>; run alone it computes \<open>write_disk\<close>.  Any number of
  writers are then interleaved in any order.  The argument is one of rely and guarantee: what a step
  of one thread may change, and that the assertions of the others are stable under it.
\<close>

section \<open>A writer\<close>

record write_job =
  job_suffix :: nat
  job_path :: string
  job_data :: string

definition job_temp :: "write_job \<Rightarrow> string" where
  "job_temp j = temp_path (job_path j) (job_suffix j)"

text \<open>Where a writer is: the system call that comes next.  \<open>Make_dirs\<close> has the directories made and
  those still to make; \<open>Clean_up\<close> is the handler of the exceptions.\<close>

datatype writer =
    Quick_exists | Quick_size | Make_dirs "string list" "string list"
  | Open_temp | Write_temp | Close_failed | Remove_temp | Close_temp | Rename_temp
  | Check_exists | Check_size | Remove_target | Log_size | Clean_up | Finished "bool result"

definition after :: "(disk, 'a) io \<Rightarrow> (exn \<Rightarrow> writer) \<Rightarrow> ('a \<Rightarrow> writer) \<Rightarrow> disk \<Rightarrow> writer \<times> disk" where
  "after m thrown cont = (\<lambda>d. case m d of (Inl e, d') \<Rightarrow> (thrown e, d') | (Inr x, d') \<Rightarrow> (cont x, d'))"

definition make_dirs :: "write_job \<Rightarrow> disk \<Rightarrow> writer" where
  "make_dirs j d =
     (if parent_path (job_path j) = [] then Open_temp else Make_dirs [] (key d (parent_path (job_path j))))"

fun writer_step :: "write_job \<Rightarrow> writer \<Rightarrow> disk \<Rightarrow> writer \<times> disk" where
  "writer_step j Quick_exists d =
     after (fs_exists (job_path j)) (\<lambda>e. Finished (Inl e)) (\<lambda>ex. if ex then Quick_size else make_dirs j d) d"
| "writer_step j Quick_size d =
     after (file_size (job_path j)) (\<lambda>e. Finished (Inl e))
       (\<lambda>n. if n = length (job_data j) then Finished (Inr True) else make_dirs j d) d"
| "writer_step j (Make_dirs k []) d = (Open_temp, d)"
| "writer_step j (Make_dirs k (x # xs)) d =
     (case node_at d (k @ [x]) of
        Some Dir \<Rightarrow> (Make_dirs (k @ [x]) xs, d)
      | Some (File _) \<Rightarrow> (Open_temp, d)
      | None \<Rightarrow> after (guarded ''create_directories'' (\<lambda>d. (Inr (), put_node (k @ [x]) Dir d)))
                 (\<lambda>_. Open_temp) (\<lambda>_. Make_dirs (k @ [x]) xs) d)"
| "writer_step j Open_temp d =
     after (ofs_open (job_temp j)) (\<lambda>_. Clean_up) (\<lambda>ofs. if ofs then Write_temp else Finished (Inr False)) d"
| "writer_step j Write_temp d =
     after (ofs_write (job_temp j) (job_data j)) (\<lambda>_. Clean_up) (\<lambda>good. if good then Close_temp else Close_failed) d"
| "writer_step j Close_failed d = after (ofs_close (job_temp j)) (\<lambda>_. Clean_up) (\<lambda>_. Remove_temp) d"
| "writer_step j Remove_temp d = after (fs_remove (job_temp j)) (\<lambda>_. Clean_up) (\<lambda>_. Finished (Inr False)) d"
| "writer_step j Close_temp d = after (ofs_close (job_temp j)) (\<lambda>_. Clean_up) (\<lambda>_. Rename_temp) d"
| "writer_step j Rename_temp d = after (fs_rename (job_temp j) (job_path j)) (\<lambda>_. Clean_up) (\<lambda>_. Check_exists) d"
| "writer_step j Check_exists d =
     after (fs_exists (job_path j)) (\<lambda>_. Clean_up) (\<lambda>st. if st then Check_size else Remove_target) d"
| "writer_step j Check_size d =
     after (file_size (job_path j)) (\<lambda>_. Clean_up)
       (\<lambda>n. if n \<noteq> length (job_data j) then Remove_target else Finished (Inr True)) d"
| "writer_step j Remove_target d = after (fs_remove (job_path j)) (\<lambda>_. Clean_up) (\<lambda>_. Log_size) d"
| "writer_step j Log_size d = after (file_size (job_path j)) (\<lambda>_. Clean_up) (\<lambda>_. Finished (Inr False)) d"
| "writer_step j Clean_up d = after (fs_remove (job_path j)) (\<lambda>e. Finished (Inl e)) (\<lambda>_. Finished (Inr False)) d"
| "writer_step j (Finished r) d = (Finished r, d)"

section \<open>A writer alone\<close>

text \<open>What remains of \<open>write_disk\<close> at each place.\<close>

definition attempt :: "write_job \<Rightarrow> (disk, bool) io \<Rightarrow> (disk, bool) io" where
  "attempt j m = io_catch m (\<lambda>e. io_bind (fs_remove (job_path j)) (\<lambda>_. io_return False))"

definition finish_write :: "write_job \<Rightarrow> (disk, bool) io" where
  "finish_write j = io_bind (ofs_close (job_temp j)) (\<lambda>_. io_bind (fs_rename (job_temp j) (job_path j)) (\<lambda>_.
     verify_size (job_path j) (job_data j)))"

definition drop_temp :: "write_job \<Rightarrow> (disk, bool) io" where
  "drop_temp j = io_bind (ofs_close (job_temp j)) (\<lambda>_. io_bind (fs_remove (job_temp j)) (\<lambda>_. io_return False))"

fun rest :: "write_job \<Rightarrow> writer \<Rightarrow> (disk, bool) io" where
  "rest j Quick_exists = write_disk (job_suffix j) (job_path j) (job_data j)"
| "rest j Quick_size = io_bind (file_size (job_path j)) (\<lambda>n. if n = length (job_data j) then io_return True
     else io_bind (with_ec (create_directories (parent_path (job_path j)))) (\<lambda>_.
       attempt j (write_and_rename (job_temp j) (job_path j) (job_data j))))"
| "rest j (Make_dirs k xs) = io_bind (with_ec (mkdirs k xs)) (\<lambda>_. attempt j (write_and_rename (job_temp j) (job_path j) (job_data j)))"
| "rest j Open_temp = attempt j (write_and_rename (job_temp j) (job_path j) (job_data j))"
| "rest j Write_temp = attempt j (io_bind (ofs_write (job_temp j) (job_data j)) (\<lambda>good. if \<not> good then drop_temp j else finish_write j))"
| "rest j Close_failed = attempt j (drop_temp j)"
| "rest j Remove_temp = attempt j (io_bind (fs_remove (job_temp j)) (\<lambda>_. io_return False))"
| "rest j Close_temp = attempt j (finish_write j)"
| "rest j Rename_temp = attempt j (io_bind (fs_rename (job_temp j) (job_path j)) (\<lambda>_. verify_size (job_path j) (job_data j)))"
| "rest j Check_exists = attempt j (verify_size (job_path j) (job_data j))"
| "rest j Check_size = attempt j (io_bind (file_size (job_path j)) (\<lambda>n. if n \<noteq> length (job_data j)
     then io_bind (fs_remove (job_path j)) (\<lambda>_. io_bind (file_size (job_path j)) (\<lambda>_. io_return False)) else io_return True))"
| "rest j Remove_target = attempt j (io_bind (fs_remove (job_path j)) (\<lambda>_. io_bind (file_size (job_path j)) (\<lambda>_. io_return False)))"
| "rest j Log_size = attempt j (io_bind (file_size (job_path j)) (\<lambda>_. io_return False))"
| "rest j Clean_up = io_bind (fs_remove (job_path j)) (\<lambda>_. io_return False)"
| "rest j (Finished r) = (\<lambda>d. (r, d))"

lemmas rest_simps = attempt_def io_bind_def io_catch_def io_return_def with_ec_def after_def

lemma reads_keep_cwd:
  "fs_exists p d = (r, d') \<Longrightarrow> cwd d' = cwd d" "file_size p d = (n, d') \<Longrightarrow> cwd d' = cwd d"
  by (auto simp: fs_exists_def file_size_def fs_error_def guarded_def sys_def io_bind_def io_throw_def
      split: list.splits if_splits option.splits node.splits)

lemma dirs_rest:
  assumes "cwd d' = cwd d"
  shows "rest j (make_dirs j d) d' = io_bind (with_ec (create_directories (parent_path (job_path j)))) (\<lambda>_.
     attempt j (write_and_rename (job_temp j) (job_path j) (job_data j))) d'"
  using assms by (simp add: make_dirs_def create_directories_def fs_error_def io_throw_def io_bind_def with_ec_def key_def)

lemma write_disk_attempt:
  "write_disk (job_suffix j) (job_path j) (job_data j) =
     io_bind (same_size (job_path j) (job_data j)) (\<lambda>same. if same then io_return True
       else io_bind (with_ec (create_directories (parent_path (job_path j)))) (\<lambda>_.
         attempt j (write_and_rename (job_temp j) (job_path j) (job_data j))))"
  unfolding write_disk_def attempt_def job_temp_def by (rule refl)

lemma attempt_return: "attempt j (io_return b) = rest j (Finished (Inr b))"
  by (rule ext) (simp add: rest_simps)

lemma after_attempt:
  assumes "after m (\<lambda>_. Clean_up) g d = (w', d')" "\<And>x. rest j (g x) = attempt j (f x)"
  shows "rest j w' d' = attempt j (io_bind m f) d"
  using assms by (auto simp: rest_simps split: prod.splits sum.splits)

lemma write_and_rename_open:
  "write_and_rename (job_temp j) (job_path j) (job_data j) =
     io_bind (ofs_open (job_temp j)) (\<lambda>ofs. if \<not> ofs then io_return False
       else io_bind (ofs_write (job_temp j) (job_data j)) (\<lambda>good. if \<not> good then drop_temp j else finish_write j))"
  unfolding write_and_rename_def drop_temp_def finish_write_def by (rule refl)

lemma verify_size_exists:
  "verify_size p data = io_bind (fs_exists p) (\<lambda>st.
     if st then io_bind (file_size p) (\<lambda>n. if n \<noteq> length data
       then io_bind (fs_remove p) (\<lambda>_. io_bind (file_size p) (\<lambda>_. io_return False)) else io_return True)
     else io_bind (fs_remove p) (\<lambda>_. io_bind (file_size p) (\<lambda>_. io_return False)))"
proof -
  have assoc: "io_bind (io_bind m f) g = io_bind m (\<lambda>x. io_bind (f x) g)" for m :: "(disk, nat) io" and f :: "nat \<Rightarrow> (disk, bool) io" and g
    by (rule ext) (simp add: io_bind_def split: prod.split sum.split)
  have ret: "io_bind (io_return x) g = g x" for x :: bool and g :: "bool \<Rightarrow> (disk, bool) io"
    by (rule ext) (simp add: io_bind_def io_return_def)
  have split: "io_bind (if c then m else m') g = (if c then io_bind m g else io_bind m' g)" for c and m m' :: "(disk, bool) io" and g
    by simp
  show ?thesis unfolding verify_size_def split assoc ret by simp
qed

text \<open>A step changes the place and the disk, but not what the rest computes.\<close>

lemma writer_step_rest: "writer_step j w d = (w', d') \<Longrightarrow> rest j w' d' = rest j w d"
proof (cases w)
  case Quick_exists
  assume run: "writer_step j w d = (w', d')"
  obtain r d1 where ex: "fs_exists (job_path j) d = (r, d1)" by fastforce
  note keep = reads_keep_cwd(1) [OF ex]
  show ?thesis
  proof (cases r)
    case (Inl e)
    with run ex Quick_exists show ?thesis by (auto simp: after_def write_disk_attempt same_size_def io_bind_def)
  next
    case (Inr b)
    obtain n d2 where sz: "file_size (job_path j) d1 = (n, d2)" by fastforce
    have "write_disk (job_suffix j) (job_path j) (job_data j) d = rest j (if b then Quick_size else make_dirs j d) d1"
      unfolding write_disk_attempt using dirs_rest [OF keep, of j] Inr ex sz
      by (cases n; cases b) (simp_all add: same_size_def io_bind_def io_return_def)
    with run ex Inr Quick_exists show ?thesis by (auto simp: after_def)
  qed
next
  case Quick_size
  assume run: "writer_step j w d = (w', d')"
  obtain r d1 where sz: "file_size (job_path j) d = (r, d1)" by fastforce
  with run Quick_size dirs_rest [OF reads_keep_cwd(2) [OF sz], of j] show ?thesis
    by (cases r) (auto simp: after_def io_bind_def io_return_def)
next
  case (Make_dirs k xs)
  assume "writer_step j w d = (w', d')"
  with Make_dirs show ?thesis
    by (cases xs) (auto simp: rest_simps fs_error_def io_throw_def split: option.splits node.splits prod.splits sum.splits)
next
  case Clean_up
  assume "writer_step j w d = (w', d')"
  with Clean_up show ?thesis by (auto simp: rest_simps split: prod.splits sum.splits)
next
  case Open_temp
  assume run: "writer_step j w d = (w', d')"
  show ?thesis unfolding Open_temp rest.simps write_and_rename_open
    by (rule after_attempt) (use run Open_temp in \<open>auto simp: attempt_return\<close>)
next
  case Check_exists
  assume run: "writer_step j w d = (w', d')"
  show ?thesis unfolding Check_exists rest.simps verify_size_exists
    by (rule after_attempt) (use run Check_exists in auto)
qed (simp_all add: drop_temp_def finish_write_def attempt_return after_attempt)

text \<open>The calls that may still come; a thread makes at most one for each directory and twelve more.\<close>

fun rank_at :: "nat \<Rightarrow> writer \<Rightarrow> nat" where
  "rank_at n (Finished _) = 0"
| "rank_at n Clean_up = 1"
| "rank_at n Log_size = 2"
| "rank_at n Remove_target = 3"
| "rank_at n Check_size = 4"
| "rank_at n Check_exists = 5"
| "rank_at n Rename_temp = 6"
| "rank_at n Close_temp = 7"
| "rank_at n Remove_temp = 2"
| "rank_at n Close_failed = 3"
| "rank_at n Write_temp = 8"
| "rank_at n Open_temp = 9"
| "rank_at n (Make_dirs k xs) = 10 + length xs"
| "rank_at n Quick_size = 11 + n"
| "rank_at n Quick_exists = 12 + n"

definition dir_count :: "write_job \<Rightarrow> disk \<Rightarrow> nat" where
  "dir_count j d = length (key d (parent_path (job_path j)))"

lemma after_fst: "after m f g d = (w, d') \<Longrightarrow> (\<exists>e. w = f e) \<or> (\<exists>x. w = g x)"
  by (auto simp: after_def split: prod.splits sum.splits)

lemma writer_step_rank:
  assumes "writer_step j w d = (w', d')"
  shows "rank_at (dir_count j d) w' \<le> rank_at (dir_count j d) w - 1"
proof (cases w)
  case (Make_dirs k xs)
  with assms show ?thesis
    by (cases xs) (auto simp: dir_count_def dest!: after_fst split: option.splits node.splits)
qed (use assms in \<open>auto simp: make_dirs_def dir_count_def dest!: after_fst split: if_splits\<close>)

lemma after_cwd: "after m f g d = (w, d') \<Longrightarrow> (\<And>r d1. m d = (r, d1) \<Longrightarrow> cwd d1 = cwd d) \<Longrightarrow> cwd d' = cwd d"
  by (auto simp: after_def split: prod.splits sum.splits)

lemma calls_keep_cwd:
  "ofs_open p d = (r1, d') \<Longrightarrow> cwd d' = cwd d" "ofs_write p data d = (r1, d') \<Longrightarrow> cwd d' = cwd d"
  "ofs_close p d = (r2, d') \<Longrightarrow> cwd d' = cwd d" "fs_rename p q d = (r2, d') \<Longrightarrow> cwd d' = cwd d"
  "fs_remove p d = (r1, d') \<Longrightarrow> cwd d' = cwd d"
  "guarded c (\<lambda>d. (Inr (), put_node k Dir d)) d = (r2, d') \<Longrightarrow> cwd d' = cwd d"
  by (auto simp: ofs_open_def ofs_write_def ofs_close_def fs_rename_def fs_remove_def fs_error_def guarded_def sys_def
      io_bind_def io_throw_def Let_def split: list.splits if_splits option.splits node.splits)

lemma writer_step_cwd: "writer_step j w d = (w', d') \<Longrightarrow> cwd d' = cwd d"
  by (induction j w d rule: writer_step.induct)
    (auto elim!: after_cwd dest: reads_keep_cwd calls_keep_cwd split: option.splits node.splits)

text \<open>Alone, a writer ends after boundedly many steps with the result and the disk of \<open>write_disk\<close>.\<close>

lemma writer_alone:
  "rank_at (dir_count j d) w \<le> n \<Longrightarrow>
     sched_run writer_step [j] (replicate n 0) ([w], d) = ([Finished (fst (rest j w d))], snd (rest j w d))"
proof (induction n arbitrary: w d)
  case 0
  then show ?case by (cases w) (simp_all add: sched_run_def)
next
  case (Suc n)
  obtain w' d' where run: "writer_step j w d = (w', d')" by fastforce
  have "rank_at (dir_count j d') w' \<le> n"
    using writer_step_rank [OF run] writer_step_cwd [OF run] Suc.prems by (simp add: dir_count_def key_def)
  from Suc.IH [OF this] have "sched_run writer_step [j] (replicate n 0) ([w'], d') = ([Finished (fst (rest j w d))], snd (rest j w d))"
    by (simp add: writer_step_rest [OF run])
  then show ?case by (simp add: sched_run_def sched_step_def run del: fold_replicate)
qed

text \<open>Adequacy of the machine, against the sequential definition: a writer that is alone, whatever faults its calls
  meet, ends with the result or the exception of \<open>write_disk\<close> and leaves the same disk, after at most
  one call for each directory on the way and twelve more.\<close>

lemma writer_is_write_disk:
  assumes "12 + dir_count j d \<le> n" "write_disk (job_suffix j) (job_path j) (job_data j) d = (r, d')"
  shows "sched_run writer_step [j] (replicate n 0) ([Quick_exists], d) = ([Finished r], d')"
  using writer_alone [of j d Quick_exists n] assms by simp

lemma writer_is_write_disk_witness:
  "\<exists>d'. sched_run writer_step [\<lparr>job_suffix = 7, job_path = ''a.txt'', job_data = ''hi''\<rparr>] (replicate 20 0) ([Quick_exists], sample_disk [])
      = ([Finished (Inr True)], d') \<and> lookup d' ''a.txt'' = Some (File ''hi'')"
proof -
  let ?j = "\<lparr>job_suffix = 7, job_path = ''a.txt'', job_data = ''hi''\<rparr>"
  obtain d' where d': "write_disk 7 ''a.txt'' ''hi'' (sample_disk []) = (Inr True, d')" "lookup d' ''a.txt'' = Some (File ''hi'')"
    using sample_write by blast
  have "12 + dir_count ?j (sample_disk []) \<le> 20" by (simp add: dir_count_def path_eval)
  from writer_is_write_disk [OF this] d' show ?thesis by (simp del: fold_replicate)
qed

section \<open>Writers that do not get in each other's way\<close>

text \<open>The file and the temporary file of a job.\<close>

definition target :: "disk \<Rightarrow> write_job \<Rightarrow> string list" where
  "target d j = key d (job_path j)"

definition scratch :: "disk \<Rightarrow> write_job \<Rightarrow> string list" where
  "scratch d j = key d (job_temp j)"

text \<open>A healthy disk on which every file can be created; the temporary files of the jobs are distinct, as
  the random suffixes mean to make them; jobs for one file have the same data, as files named by their
  MD5 have; and no file is in the way of another one.\<close>

definition compatible :: "disk \<Rightarrow> write_job list \<Rightarrow> bool" where
  "compatible d jobs \<longleftrightarrow> wf_disk d \<and> faults d = []
     \<and> (\<forall>j \<in> set jobs. creatable d (job_path j) \<and> parent_path (job_path j) \<noteq> [] \<and> node_at d (scratch d j) \<noteq> Some Dir)
     \<and> distinct (map (scratch d) jobs)
     \<and> (\<forall>i \<in> set jobs. \<forall>j \<in> set jobs. (target d i = target d j \<longrightarrow> job_data i = job_data j) \<and> scratch d i \<noteq> target d j
          \<and> \<not> strict_prefix (target d i) (target d j) \<and> \<not> strict_prefix (scratch d i) (target d j))"

definition holds_data :: "disk \<Rightarrow> disk \<Rightarrow> write_job \<Rightarrow> bool" where
  "holds_data d0 d j \<longleftrightarrow> (\<exists>s. node_at d (target d0 j) = Some (File s) \<and> length s = length (job_data j))"

definition disk_inv :: "disk \<Rightarrow> write_job list \<Rightarrow> disk \<Rightarrow> bool" where
  "disk_inv d0 jobs d \<longleftrightarrow> compatible d0 jobs \<and> wf_disk d \<and> faults d = [] \<and> cwd d = cwd d0
     \<and> changes (target d0 ` set jobs \<union> scratch d0 ` set jobs) d0 d
     \<and> (\<forall>j \<in> set jobs. node_at d (target d0 j) \<in> {node_at d0 (target d0 j), Some (File (job_data j))}
          \<and> clear_way d (butlast (target d0 j)) \<and> node_at d (scratch d0 j) \<noteq> Some Dir)"

fun writer_ok :: "disk \<Rightarrow> write_job \<Rightarrow> writer \<Rightarrow> disk \<Rightarrow> bool" where
  "writer_ok d0 j Quick_exists d \<longleftrightarrow> True"
| "writer_ok d0 j Quick_size d \<longleftrightarrow> node_at d (target d0 j) \<noteq> None"
| "writer_ok d0 j (Make_dirs k xs) d \<longleftrightarrow> k @ xs = butlast (target d0 j) \<and> node_at d k = Some Dir"
| "writer_ok d0 j Open_temp d \<longleftrightarrow> node_at d (butlast (target d0 j)) = Some Dir"
| "writer_ok d0 j Write_temp d \<longleftrightarrow> node_at d (scratch d0 j) = Some (File [])"
| "writer_ok d0 j Close_temp d \<longleftrightarrow> node_at d (scratch d0 j) = Some (File (job_data j))"
| "writer_ok d0 j Rename_temp d \<longleftrightarrow> node_at d (scratch d0 j) = Some (File (job_data j))"
| "writer_ok d0 j Check_exists d \<longleftrightarrow> holds_data d0 d j"
| "writer_ok d0 j Check_size d \<longleftrightarrow> holds_data d0 d j"
| "writer_ok d0 j (Finished r) d \<longleftrightarrow> r = Inr True \<and> holds_data d0 d j"
| "writer_ok d0 j _ d \<longleftrightarrow> False"

definition writer_guar :: "disk \<Rightarrow> write_job \<Rightarrow> disk \<Rightarrow> disk \<Rightarrow> bool" where
  "writer_guar d0 j d d' \<longleftrightarrow> changes {target d0 j, scratch d0 j} d d'
     \<and> node_at d' (target d0 j) \<in> {node_at d (target d0 j), Some (File (job_data j))}"

lemma job_facts:
  assumes "compatible d0 jobs" "j \<in> set jobs" "cwd d = cwd d0"
  shows "\<not> dir_only (job_path j)" "job_path j \<noteq> []" "\<not> dir_only (job_temp j)" "job_temp j \<noteq> []"
    and "target d0 j \<noteq> []" "scratch d0 j \<noteq> []" "butlast (scratch d0 j) = butlast (target d0 j)" "scratch d0 j \<noteq> target d0 j"
    and "key d (job_path j) = target d0 j" "key d (job_temp j) = scratch d0 j"
    and "key d (parent_path (job_path j)) = butlast (target d0 j)"
    and "node_at d0 (target d0 j) \<noteq> Some Dir" "parent_path (job_path j) \<noteq> []"
proof -
  have j: "creatable d0 (job_path j)" "parent_path (job_path j) \<noteq> []" using assms(1,2) by (auto simp: compatible_def)
  then show nd: "\<not> dir_only (job_path j)" and "node_at d0 (target d0 j) \<noteq> Some Dir" "parent_path (job_path j) \<noteq> []"
    by (auto simp: creatable_def target_def)
  note shape = temp_path_shape [OF nd]
  show "job_path j \<noteq> []" "\<not> dir_only (job_temp j)" "job_temp j \<noteq> []" "scratch d0 j \<noteq> target d0 j"
      "scratch d0 j \<noteq> []" "butlast (scratch d0 j) = butlast (target d0 j)"
    using shape by (auto simp: job_temp_def scratch_def target_def)
  show "target d0 j \<noteq> []" using key_not_Nil [OF nd] by (simp add: target_def)
  show "key d (job_path j) = target d0 j" "key d (job_temp j) = scratch d0 j"
    using assms(3) by (simp_all add: target_def scratch_def key_def)
  show "key d (parent_path (job_path j)) = butlast (target d0 j)"
    using resolve_parent [OF nd j(2)] assms(3) by (simp add: key_def target_def)
qed

lemma strict_prefix_butlast: "k \<noteq> [] \<Longrightarrow> prefix j (butlast k) \<longleftrightarrow> strict_prefix j k"
  by (cases k rule: rev_cases) (auto simp: strict_prefix_def prefix_snoc)

text \<open>A job leaves the files of the others alone.\<close>

lemma changes_other:
  assumes c: "compatible d0 jobs" and i: "i \<in> set jobs" and j: "j \<in> set jobs" and ch: "changes {target d0 j, scratch d0 j} d d'"
    and k: "k \<in> {target d0 i, scratch d0 i}" "k \<noteq> target d0 j" "k \<noteq> scratch d0 j"
  shows "node_at d' k = node_at d k"
proof (rule changes_off [OF ch])
  have no: "\<not> strict_prefix k (target d0 j)" using c i j k(1) by (auto simp: compatible_def)
  have "\<not> prefix k (scratch d0 j)"
  proof
    assume "prefix k (scratch d0 j)"
    with k(3) have "strict_prefix k (scratch d0 j)" by (simp add: strict_prefix_def)
    then have "prefix k (butlast (target d0 j))"
      using strict_prefix_butlast job_facts(6,7) [OF c j refl] by metis
    with no strict_prefix_butlast job_facts(5) [OF c j refl] show False by metis
  qed
  with no k(2) show "\<not> on_way {target d0 j, scratch d0 j} k" by (auto simp: on_way_def strict_prefix_def)
qed

lemma disk_inv_not_dir:
  assumes "disk_inv d0 jobs d" "j \<in> set jobs"
  shows "node_at d (target d0 j) \<noteq> Some Dir" "node_at d (scratch d0 j) \<noteq> Some Dir"
proof -
  have "compatible d0 jobs" using assms(1) by (simp add: disk_inv_def)
  from job_facts(12) [OF this assms(2) refl] assms show "node_at d (target d0 j) \<noteq> Some Dir" "node_at d (scratch d0 j) \<noteq> Some Dir"
    by (auto simp: disk_inv_def)
qed

lemma writer_stable:
  assumes inv: "disk_inv d0 jobs d" and i: "i \<in> set jobs" and j: "j \<in> set jobs" and ne: "scratch d0 i \<noteq> scratch d0 j"
    and g: "writer_guar d0 j d d'" and ok: "writer_ok d0 i w d"
  shows "writer_ok d0 i w d'"
proof -
  have c: "compatible d0 jobs" using inv by (simp add: disk_inv_def)
  have ch: "changes {target d0 j, scratch d0 j} d d'"
      and tgt: "node_at d' (target d0 j) \<in> {node_at d (target d0 j), Some (File (job_data j))}"
    using g by (auto simp: writer_guar_def)
  have sep: "scratch d0 i \<noteq> target d0 j" "target d0 i \<noteq> scratch d0 j"
      and same: "target d0 i = target d0 j \<Longrightarrow> job_data i = job_data j"
    using c i j unfolding compatible_def by metis+
  have scr: "node_at d' (scratch d0 i) = node_at d (scratch d0 i)"
    by (rule changes_other [OF c i j ch]) (use ne sep in auto)
  have tgt_i: "node_at d' (target d0 i) \<in> {node_at d (target d0 i), Some (File (job_data i))}"
  proof (cases "target d0 i = target d0 j")
    case True
    with tgt same show ?thesis by simp
  next
    case False
    have "node_at d' (target d0 i) = node_at d (target d0 i)"
      by (rule changes_other [OF c i j ch]) (use False sep in auto)
    then show ?thesis by simp
  qed
  have dir: "node_at d' k = Some Dir" if "node_at d k = Some Dir" for k
    using changes_node [OF ch _ that] that disk_inv_not_dir [OF inv j] by blast
  have data: "holds_data d0 d i \<Longrightarrow> holds_data d0 d' i" using tgt_i by (auto simp: holds_data_def)
  show ?thesis using ok scr tgt_i dir data by (cases w) auto
qed

text \<open>What a step has to show of its own thread.\<close>

definition step_good :: "disk \<Rightarrow> write_job \<Rightarrow> disk \<Rightarrow> writer \<Rightarrow> disk \<Rightarrow> bool" where
  "step_good d0 j d w' d' \<longleftrightarrow> wf_disk d' \<and> faults d' = [] \<and> node_at d' (scratch d0 j) \<noteq> Some Dir
     \<and> writer_guar d0 j d d' \<and> writer_ok d0 j w' d'"

lemma step_goodD:
  assumes "step_good d0 j d w' d'"
  shows "changes {target d0 j, scratch d0 j} d d'"
    and "node_at d' (target d0 j) \<in> {node_at d (target d0 j), Some (File (job_data j))}"
  using assms by (auto simp: step_good_def writer_guar_def)

lemma good_file:
  assumes inv: "disk_inv d0 jobs d" and i: "i \<in> set jobs" and j: "j \<in> set jobs" and good: "step_good d0 j d w' d'"
  shows "node_at d' (target d0 i) \<in> {node_at d0 (target d0 i), Some (File (job_data i))}"
    and "node_at d' (scratch d0 i) \<noteq> Some Dir"
proof -
  note ch = step_goodD(1) [OF good]
  have c: "compatible d0 jobs" and old: "node_at d (target d0 i) \<in> {node_at d0 (target d0 i), Some (File (job_data i))}"
      "node_at d (scratch d0 i) \<noteq> Some Dir"
    using inv i by (auto simp: disk_inv_def)
  have sep: "scratch d0 i \<noteq> target d0 j" "target d0 i \<noteq> scratch d0 j" "target d0 i = target d0 j \<Longrightarrow> job_data i = job_data j"
    using c i j unfolding compatible_def by metis+
  show "node_at d' (target d0 i) \<in> {node_at d0 (target d0 i), Some (File (job_data i))}"
  proof (cases "target d0 i = target d0 j")
    case True
    with step_goodD(2) [OF good] sep(3) old(1) show ?thesis by auto
  next
    case False
    have "node_at d' (target d0 i) = node_at d (target d0 i)"
      by (rule changes_other [OF c i j ch]) (use False sep in auto)
    with old(1) show ?thesis by simp
  qed
  show "node_at d' (scratch d0 i) \<noteq> Some Dir"
  proof (cases "scratch d0 i = scratch d0 j")
    case True
    with good show ?thesis by (simp add: step_good_def)
  next
    case False
    have "node_at d' (scratch d0 i) = node_at d (scratch d0 i)"
      by (rule changes_other [OF c i j ch]) (use False sep in auto)
    with old(2) show ?thesis by simp
  qed
qed

lemma good_way:
  assumes inv: "disk_inv d0 jobs d" and i: "i \<in> set jobs" and j: "j \<in> set jobs" and good: "step_good d0 j d w' d'"
  shows "clear_way d' (butlast (target d0 i))"
  unfolding clear_way_def
proof (intro allI impI)
  fix k s
  assume k: "prefix k (butlast (target d0 i))"
  have c: "compatible d0 jobs" and old: "clear_way d (butlast (target d0 i))" using inv i by (auto simp: disk_inv_def)
  have "\<not> strict_prefix (target d0 j) (target d0 i)" "\<not> strict_prefix (scratch d0 j) (target d0 i)"
    using c i j unfolding compatible_def by metis+
  moreover have "strict_prefix k (target d0 i)" using k strict_prefix_butlast job_facts(5) [OF c i refl] by blast
  ultimately have "k \<notin> {target d0 j, scratch d0 j}" by auto
  then have "node_at d' k = node_at d k \<or> node_at d' k = Some Dir" using step_goodD(1) [OF good] by (auto simp: changes_def)
  with old k show "node_at d' k \<noteq> Some (File s)" by (auto simp: clear_way_def)
qed

lemma disk_inv_step:
  assumes inv: "disk_inv d0 jobs d" and j: "j \<in> set jobs" and good: "step_good d0 j d w' d'"
  shows "disk_inv d0 jobs d'"
proof -
  let ?K = "target d0 ` set jobs \<union> scratch d0 ` set jobs"
  have "changes ?K d0 d" using inv by (simp add: disk_inv_def)
  moreover have "changes ?K d d'" by (rule changes_mono [OF step_goodD(1) [OF good]]) (use j in auto)
  ultimately have ch: "changes ?K d0 d'" by (rule changes_trans)
  then have "cwd d' = cwd d0" by (simp add: changes_def)
  with ch inv good good_file [OF inv _ j good] good_way [OF inv _ j good] show ?thesis
    by (simp add: disk_inv_def step_good_def)
qed

text \<open>The steps of a thread that change the disk: a directory made, the temporary file written, the rename.\<close>

lemma own_put:
  assumes inv: "disk_inv d0 jobs d" and j: "j \<in> set jobs" and par: "node_at d (butlast (target d0 j)) = Some Dir"
    and ok: "writer_ok d0 j w' (put_node (scratch d0 j) (File s) d)"
  shows "step_good d0 j d w' (put_node (scratch d0 j) (File s) d)"
proof -
  have c: "compatible d0 jobs" and wf: "wf_disk d" "faults d = []" and cwd: "cwd d = cwd d0"
    using inv by (auto simp: disk_inv_def)
  from par ok wf disk_inv_not_dir [OF inv j] job_facts [OF c j cwd] show ?thesis
    by (auto simp: step_good_def writer_guar_def node_at_put intro!: wf_put changes_put)
qed

lemma own_mkdir:
  assumes inv: "disk_inv d0 jobs d" and j: "j \<in> set jobs" and ok: "writer_ok d0 j (Make_dirs k (x # xs)) d"
    and none: "node_at d (k @ [x]) = None"
  shows "step_good d0 j d (Make_dirs (k @ [x]) xs) (put_node (k @ [x]) Dir d)"
proof -
  have c: "compatible d0 jobs" and wf: "wf_disk d" "faults d = []" and cwd: "cwd d = cwd d0"
    using inv by (auto simp: disk_inv_def)
  note job = job_facts [OF c j cwd]
  have k: "k @ x # xs = butlast (target d0 j)" "node_at d k = Some Dir" using ok by auto
  then have pre: "prefix (k @ [x]) (butlast (target d0 j))" by (metis append.assoc append_Cons append_Nil prefixI)
  then have way: "strict_prefix (k @ [x]) (target d0 j)" "strict_prefix (k @ [x]) (scratch d0 j)"
    using strict_prefix_butlast job(5,6,7) by metis+
  then have ne: "target d0 j \<noteq> k @ [x]" "scratch d0 j \<noteq> k @ [x]" by (simp_all only: strict_prefix_def) metis+
  have "wf_disk (put_node (k @ [x]) Dir d)" using wf(1) k(2) by (intro wf_put) auto
  moreover have "changes {target d0 j, scratch d0 j} d (put_node (k @ [x]) Dir d)"
    using way(1) none by (intro changes_put) (auto simp: on_way_def strict_prefix_def)
  ultimately show ?thesis
    using k wf(2) ne disk_inv_not_dir [OF inv j] job(5) by (auto simp: step_good_def writer_guar_def node_at_put)
qed

lemma own_rename:
  assumes inv: "disk_inv d0 jobs d" and j: "j \<in> set jobs" and ok: "writer_ok d0 j Rename_temp d"
  shows "writable d (job_path j)"
    and "step_good d0 j d Check_exists (put_node (target d0 j) (File (job_data j)) (del_node (scratch d0 j) d))"
proof -
  let ?d = "del_node (scratch d0 j) d"
  have c: "compatible d0 jobs" and wf: "wf_disk d" "faults d = []" and cwd: "cwd d = cwd d0"
    using inv by (auto simp: disk_inv_def)
  note job = job_facts [OF c j cwd] and nd = disk_inv_not_dir [OF inv j]
  have par: "node_at d (butlast (target d0 j)) = Some Dir"
    using ok wf_parent [OF wf(1), of "scratch d0 j"] job by auto
  then show "writable d (job_path j)" using job nd by (simp add: writable_def)
  have "butlast (target d0 j) \<noteq> scratch d0 j"
    using job(6,7) by (metis append_butlast_last_id append_self_conv list.distinct(1))
  then have "wf_disk (put_node (target d0 j) (File (job_data j)) ?d)"
    using ok wf(1) par nd job by (intro wf_put wf_del) (auto simp: node_at_del)
  moreover have "changes {target d0 j, scratch d0 j} d (put_node (target d0 j) (File (job_data j)) ?d)"
    by (intro changes_put changes_del) auto
  ultimately show "step_good d0 j d Check_exists (put_node (target d0 j) (File (job_data j)) ?d)"
    using wf(2) job by (simp add: step_good_def writer_guar_def node_at_put node_at_del holds_data_def)
qed

lemma own_make_dirs:
  assumes inv: "disk_inv d0 jobs d" and j: "j \<in> set jobs" and ok: "writer_ok d0 j (Make_dirs k xs) d"
    and run: "writer_step j (Make_dirs k xs) d = (w', d')"
  shows "step_good d0 j d w' d' \<or> d' = d \<and> writer_ok d0 j w' d"
proof (cases xs)
  case Nil
  with run ok show ?thesis by auto
next
  case (Cons x ys)
  have f: "faults d = []" and clear: "clear_way d (butlast (target d0 j))" using inv j by (auto simp: disk_inv_def)
  have k: "k @ x # ys = butlast (target d0 j)" using ok Cons by simp
  show ?thesis
  proof (cases "node_at d (k @ [x])")
    case None
    with run Cons f own_mkdir [OF inv j _ None, of ys] ok show ?thesis by (auto simp: after_def)
  next
    case (Some n)
    have "prefix (k @ [x]) (butlast (target d0 j))" using k by (metis append.assoc append_Cons append_Nil prefixI)
    with clear Some have "n = Dir" by (cases n) (auto simp: clear_way_def)
    with Some Cons run ok show ?thesis by auto
  qed
qed

lemma writer_own:
  assumes inv: "disk_inv d0 jobs d" and j: "j \<in> set jobs" and ok: "writer_ok d0 j w d" and run: "writer_step j w d = (w', d')"
  shows "step_good d0 j d w' d'"
proof -
  have c: "compatible d0 jobs" and wf: "wf_disk d" and f: "faults d = []" and cwd: "cwd d = cwd d0"
    using inv by (auto simp: disk_inv_def)
  note job = job_facts [OF c j cwd] and nd = disk_inv_not_dir [OF inv j]
  have look: "lookup d (job_path j) = node_at d (target d0 j)" "lookup d (job_temp j) = node_at d (scratch d0 j)"
    using job by (simp_all add: lookup_def split: option.split node.split)
  have same: "step_good d0 j d w1 d" if "writer_ok d0 j w1 d" for w1
    using that wf f nd by (simp add: step_good_def writer_guar_def)
  have dirs: "writer_ok d0 j (make_dirs j d) d" using job by (simp add: make_dirs_def)
  show ?thesis
  proof (cases w)
    case Quick_exists
    with run f look same dirs show ?thesis by (auto simp: after_def fs_exists_def split: if_splits)
  next
    case Quick_size
    with ok nd obtain s where "node_at d (target d0 j) = Some (File s)" by (cases "node_at d (target d0 j)") (auto, metis node.exhaust)
    with Quick_size run f look same dirs show ?thesis by (auto simp: after_def file_size_def holds_data_def split: if_splits)
  next
    case (Make_dirs k xs)
    with own_make_dirs [OF inv j] ok run same show ?thesis by blast
  next
    case Open_temp
    with ok job nd have "writable d (job_temp j)" by (simp add: writable_def)
    with Open_temp run f job ok own_put [OF inv j] show ?thesis by (auto simp: after_def ofs_open_def io_bind_def node_at_put)
  next
    case Write_temp
    with ok wf_parent [OF wf, of "scratch d0 j"] job have "node_at d (butlast (target d0 j)) = Some Dir" by auto
    with Write_temp run f job ok own_put [OF inv j] show ?thesis
      by (auto simp: after_def ofs_write_def io_bind_def Let_def content_def node_at_put)
  next
    case Rename_temp
    with own_rename [OF inv j] ok run f look job show ?thesis by (auto simp: after_def fs_rename_def)
  qed (use run f ok look same in \<open>auto simp: after_def ofs_close_def fs_exists_def file_size_def io_bind_def Let_def holds_data_def\<close>)
qed

interpretation writers: bounded_threads writer_step jobs "disk_inv d0 jobs" "\<lambda>t. writer_ok d0 (jobs ! t)"
    "\<lambda>t. writer_guar d0 (jobs ! t)" "\<lambda>t. rank_at (dir_count (jobs ! t) d0)" for d0 jobs
proof unfold_locales
  fix t d w w' d'
  assume t: "t < length jobs" and inv: "disk_inv d0 jobs d" and ok: "writer_ok d0 (jobs ! t) w d"
    and run: "writer_step (jobs ! t) w d = (w', d')"
  have good: "step_good d0 (jobs ! t) d w' d'" by (rule writer_own [OF inv _ ok run]) (use t in simp)
  with disk_inv_step [OF inv _ good] t show "disk_inv d0 jobs d' \<and> writer_ok d0 (jobs ! t) w' d' \<and> writer_guar d0 (jobs ! t) d d'"
    by (simp add: step_good_def)
  have "dir_count (jobs ! t) d = dir_count (jobs ! t) d0" using inv by (simp add: disk_inv_def dir_count_def key_def)
  with writer_step_rank [OF run] show "rank_at (dir_count (jobs ! t) d0) w' \<le> rank_at (dir_count (jobs ! t) d0) w - 1" by simp
next
  fix t u d d' w
  assume tu: "t < length jobs" "u < length jobs" "t \<noteq> u" and inv: "disk_inv d0 jobs d"
    and g: "writer_guar d0 (jobs ! u) d d'" and ok: "writer_ok d0 (jobs ! t) w d"
  have ne: "scratch d0 (jobs ! t) \<noteq> scratch d0 (jobs ! u)"
    using inv tu by (auto simp: disk_inv_def compatible_def distinct_conv_nth)
  show "writer_ok d0 (jobs ! t) w d'" by (rule writer_stable [OF inv nth_mem [OF tu(1)] nth_mem [OF tu(2)] ne g ok])
qed

lemma disk_inv_start:
  assumes "compatible d jobs"
  shows "disk_inv d jobs d"
proof -
  have "wf_disk d" "faults d = []" using assms unfolding compatible_def by blast+
  moreover have "clear_way d (butlast (target d j))" "node_at d (scratch d j) \<noteq> Some Dir" if "j \<in> set jobs" for j
    using assms that unfolding compatible_def creatable_def target_def by blast+
  ultimately show ?thesis using assms by (simp add: disk_inv_def)
qed

lemma rank_at_0: "rank_at n w = 0 \<longleftrightarrow> (\<exists>r. w = Finished r)"
  by (cases w) auto

lemma writers_start:
  assumes "compatible d jobs"
  shows "writers.all_ok jobs d (replicate (length jobs) Quick_exists, d)"
  using disk_inv_start [OF assms] by (simp add: writers.all_ok_def)

lemma writers_run:
  assumes "compatible d jobs" "sched_run writer_step jobs ts (replicate (length jobs) Quick_exists, d) = (ws, d')"
  shows "disk_inv d jobs d'" "length ws = length jobs" "t < length jobs \<Longrightarrow> writer_ok d (jobs ! t) (ws ! t) d'"
  using writers.sched_run_ok [OF writers_start [OF assms(1)], of ts] by (auto simp: assms(2) writers.all_ok_def)

text \<open>C7: any number of threads in \<open>write_disk\<close>, their system calls interleaved in any order, on a healthy
  disk, with temporary files of their own and the same data where the target is the same.  At every
  moment each target is as it was or holds its data completely, so no reader sees a part of a file;
  nothing else changes but the temporary files and the directories on the way; a thread that is done
  has reported success and its target has the size of its data; and a thread is done after at most
  one call for each directory and twelve more, whatever the others do.\<close>

theorem concurrent_writes:
  assumes compat: "compatible d jobs"
    and run: "sched_run writer_step jobs ts (replicate (length jobs) Quick_exists, d) = (ws, d')"
  shows "length ws = length jobs \<and> changes (target d ` set jobs \<union> scratch d ` set jobs) d d'
    \<and> (\<forall>t < length jobs. lookup d' (job_path (jobs ! t)) \<in> {lookup d (job_path (jobs ! t)), Some (File (job_data (jobs ! t)))}
        \<and> (\<forall>r. ws ! t = Finished r \<longrightarrow> r = Inr True \<and> has_size d' (job_path (jobs ! t)) (job_data (jobs ! t)))
        \<and> (12 + dir_count (jobs ! t) d \<le> count_list ts t \<longrightarrow> (\<exists>r. ws ! t = Finished r)))"
proof -
  note inv = writers_run(1) [OF assms] and len = writers_run(2) [OF assms] and ok = writers_run(3) [OF assms]
  have ch: "changes (target d ` set jobs \<union> scratch d ` set jobs) d d'" and cwd: "cwd d' = cwd d" using inv by (auto simp: disk_inv_def)
  have each: "lookup d' (job_path (jobs ! t)) \<in> {lookup d (job_path (jobs ! t)), Some (File (job_data (jobs ! t)))}
        \<and> (\<forall>r. ws ! t = Finished r \<longrightarrow> r = Inr True \<and> has_size d' (job_path (jobs ! t)) (job_data (jobs ! t)))
        \<and> (12 + dir_count (jobs ! t) d \<le> count_list ts t \<longrightarrow> (\<exists>r. ws ! t = Finished r))" if t: "t < length jobs" for t
  proof (intro conjI allI impI)
    let ?j = "jobs ! t"
    have mem: "?j \<in> set jobs" using t by simp
    have look: "lookup e (job_path ?j) = node_at e (target d ?j)" if "cwd e = cwd d" for e
      using job_facts [OF compat mem that] by (simp add: lookup_def split: option.split node.split)
    show "lookup d' (job_path ?j) \<in> {lookup d (job_path ?j), Some (File (job_data ?j))}"
      using inv mem look [OF cwd] look [OF refl] by (auto simp: disk_inv_def)
    show "r = Inr True" "has_size d' (job_path ?j) (job_data ?j)" if "ws ! t = Finished r" for r
      using ok [OF t] that look [OF cwd] by (auto simp: holds_data_def has_size_def)
    show "\<exists>r. ws ! t = Finished r" if "12 + dir_count ?j d \<le> count_list ts t"
    proof -
      have "rank_at (dir_count ?j d) (ws ! t) = 0"
        using writers.sched_run_rank [OF writers_start [OF compat] t, of ts] that t by (simp add: run)
      then show ?thesis unfolding rank_at_0 .
    qed
  qed
  with ch len show ?thesis by blast
qed

section \<open>Two writers\<close>

definition two_writers :: "write_job list" where
  "two_writers = [\<lparr>job_suffix = 1, job_path = ''store/a'', job_data = ''hi''\<rparr>,
     \<lparr>job_suffix = 2, job_path = ''store/a'', job_data = ''hi''\<rparr>]"

lemma two_targets:
  "target (sample_disk fs) \<lparr>job_suffix = r, job_path = ''store/a'', job_data = s\<rparr> = [''srv'', ''store'', ''a'']"
  "scratch (sample_disk fs) \<lparr>job_suffix = r, job_path = ''store/a'', job_data = s\<rparr> = [''srv'', ''store'', ''a.tmp.'' @ generate_temp_suffix r]"
proof -
  have "\<not> dir_only ''store/a''" by (simp add: path_eval)
  then show "scratch (sample_disk fs) \<lparr>job_suffix = r, job_path = ''store/a'', job_data = s\<rparr>
      = [''srv'', ''store'', ''a.tmp.'' @ generate_temp_suffix r]"
    using temp_path_shape(2) [of "''store/a''" "sample_disk fs" r] by (simp add: scratch_def job_temp_def path_eval)
qed (simp add: target_def path_eval)

lemma two_compatible: "compatible (sample_disk []) two_writers"
proof -
  have "creatable (sample_disk []) ''store/a''" "parent_path ''store/a'' \<noteq> []" by (simp_all add: path_eval)
  moreover have "generate_temp_suffix 1 \<noteq> generate_temp_suffix 2"
    by (simp add: generate_temp_suffix_def to_string_nat_inject)
  ultimately show ?thesis
    by (simp add: compatible_def two_writers_def two_targets strict_prefix_def)
qed

theorem concurrent_writes_witness:
  "\<exists>d'. sched_run writer_step two_writers (concat (replicate 20 [0, 1])) ([Quick_exists, Quick_exists], sample_disk [])
      = ([Finished (Inr True), Finished (Inr True)], d') \<and> lookup d' ''store/a'' = Some (File ''hi'')"
proof -
  let ?ts = "concat (replicate 20 [0, 1]) :: nat list"
  obtain ws d' where run: "sched_run writer_step two_writers ?ts (replicate (length two_writers) Quick_exists, sample_disk []) = (ws, d')"
    by fastforce
  note all = concurrent_writes [OF two_compatible run]
  have n: "length two_writers = 2" by (simp add: two_writers_def)
  have len: "length ws = 2" using all n by simp
  have each: "ws ! t = Finished (Inr True) \<and> lookup d' ''store/a'' = Some (File ''hi'')" if t: "t < 2" for t
  proof -
    have j: "job_path (two_writers ! t) = ''store/a''" "job_data (two_writers ! t) = ''hi''"
      using t by (auto simp: two_writers_def less_2_cases_iff)
    have "dir_count (two_writers ! t) (sample_disk []) = 2" by (simp add: dir_count_def j path_eval)
    moreover have "count_list ?ts t = 20" using t by (auto simp: less_2_cases_iff eval_nat_numeral)
    moreover have "lookup (sample_disk []) ''store/a'' = None" by (simp add: path_eval)
    ultimately show ?thesis using all t n j by (auto simp: has_size_def)
  qed
  have "ws = [Finished (Inr True), Finished (Inr True)]"
    using each [of 0] each [of 1] len by (auto simp: list_eq_iff_nth_eq less_2_cases_iff)
  with run each [of 0] show ?thesis by (simp add: n eval_nat_numeral)
qed

text \<open>With a failing disk the writers do get in each other's way: a thread has reported success, and then
  another one, whose data were lost when it closed its temporary file, renames that file over the
  target, finds the wrong size and removes the target.  The file that was reported stored is gone.\<close>

lemma failing_writer_removes:
  "\<exists>d1 d'. sched_run writer_step two_writers (replicate 6 1 @ replicate 12 0)
        ([Quick_exists, Quick_exists], sample_disk (replicate 11 None @ [Some 0])) = ([Finished (Inr True), Close_temp], d1)
     \<and> lookup d1 ''store/a'' = Some (File ''hi'')
     \<and> sched_run writer_step two_writers (replicate 8 1) ([Finished (Inr True), Close_temp], d1)
         = ([Finished (Inr True), Finished (Inr False)], d')
     \<and> lookup d' ''store/a'' = None"
proof -
  let ?d = "sample_disk (replicate 11 None @ [Some 0])"
  define d1 d' where "d1 = snd (sched_run writer_step two_writers (replicate 6 1 @ replicate 12 0) ([Quick_exists, Quick_exists], ?d))"
    and "d' = snd (sched_run writer_step two_writers (replicate 8 1) ([Finished (Inr True), Close_temp], d1))"
  have "fst (sched_run writer_step two_writers (replicate 6 1 @ replicate 12 0) ([Quick_exists, Quick_exists], ?d))
      = [Finished (Inr True), Close_temp]" by code_simp
  moreover have "fst (sched_run writer_step two_writers (replicate 8 1) ([Finished (Inr True), Close_temp], d1))
      = [Finished (Inr True), Finished (Inr False)]" unfolding d1_def by code_simp
  moreover have "lookup d1 ''store/a'' = Some (File ''hi'')" unfolding d1_def by code_simp
  moreover have "lookup d' ''store/a'' = None" unfolding d'_def d1_def by code_simp
  ultimately show ?thesis by (metis d1_def d'_def prod.collapse)
qed

end
