(* ===== verification/ChunkConc.thy ===== *)
theory ChunkConc
  imports MergeProps FileStoreConc
begin

text \<open>
  Chunks of one file that several threads upload at the same time: each is in \<open>write_disk\<close> for its own
  number, and the chunk check (\<open>FileCtl::handleCheckChunk\<close>) may come at any moment.  When the threads are
  done, all chunks are listed.  But the check reads the number at the beginning of a name, and the
  temporary file of a chunk begins with its number too: a chunk is listed as soon as its upload begins,
  and a merge takes it twice.
\<close>

section \<open>Chunk writers\<close>

definition chunk_job :: "StoreConfig \<Rightarrow> string \<Rightarrow> nat \<times> nat \<times> string \<Rightarrow> write_job" where
  "chunk_job cfg m = (\<lambda>(r, i, data). \<lparr>job_suffix = r, job_path = chunk_dir cfg m @ ''/'' @ to_string_nat i, job_data = data\<rparr>)"

abbreviation chunk_index :: "nat \<times> nat \<times> string \<Rightarrow> nat" where
  "chunk_index c \<equiv> fst (snd c)"

text \<open>The chunk directory can be made, and no directory is in it.\<close>

definition chunk_space :: "disk \<Rightarrow> string \<Rightarrow> bool" where
  "chunk_space d dir \<longleftrightarrow> wf_disk d \<and> faults d = [] \<and> clear_way d (key d dir) \<and> (\<forall>x. node_at d (key d dir @ [x]) \<noteq> Some Dir)"

definition temp_name :: "nat \<Rightarrow> nat \<Rightarrow> string" where
  "temp_name i r = to_string_nat i @ ''.tmp.'' @ generate_temp_suffix r"

lemma temp_name_plain: "plain_name (temp_name i r)"
  using temp_suffix_no_slash [of r] to_string_nat_plain(1,3) [of i] by (auto simp: plain_name_def temp_name_def append_eq_Cons_conv)

lemma temp_name_stoi: "i < 2 ^ 31 \<Longrightarrow> stoi (temp_name i r) = Inr (int i)"
  unfolding temp_name_def by (rule stoi_to_string_nat) (simp_all add: is_digit_def)

lemma temp_name_not_number: "temp_name i r \<noteq> to_string_nat k"
proof
  assume "temp_name i r = to_string_nat k"
  then have "CHR ''.'' \<in> set (to_string_nat k)" by (metis in_set_conv_decomp append.assoc append_Cons temp_name_def)
  then show False using to_string_nat_digits by (force simp: is_digit_def)
qed

lemma chunk_job_keys:
  assumes "root_dir cfg \<noteq> []"
  shows "target d (chunk_job cfg m c) = key d (chunk_dir cfg m) @ [to_string_nat (chunk_index c)]"
    and "scratch d (chunk_job cfg m c) = key d (chunk_dir cfg m) @ [temp_name (chunk_index c) (fst c)]"
    and "\<not> dir_only (job_path (chunk_job cfg m c))" "parent_path (job_path (chunk_job cfg m c)) \<noteq> []"
    and "dir_count (chunk_job cfg m c) d = length (key d (chunk_dir cfg m))"
proof -
  obtain r i data where c: "c = (r, i, data)" by (cases c)
  note num = chunk_key [OF to_string_nat_plain(1) assms] and tmp = chunk_key(1) [OF temp_name_plain assms, of d m i r]
  show t: "target d (chunk_job cfg m c) = key d (chunk_dir cfg m) @ [to_string_nat (chunk_index c)]"
    using num(1) by (simp add: target_def chunk_job_def c)
  show "scratch d (chunk_job cfg m c) = key d (chunk_dir cfg m) @ [temp_name (chunk_index c) (fst c)]"
    using tmp by (simp add: scratch_def job_temp_def chunk_job_def c temp_path_def temp_name_def)
  show p: "\<not> dir_only (job_path (chunk_job cfg m c))" "parent_path (job_path (chunk_job cfg m c)) \<noteq> []"
    using num(2) by (simp_all add: chunk_job_def c parent_path_not_Nil)
  show "dir_count (chunk_job cfg m c) d = length (key d (chunk_dir cfg m))"
    using resolve_parent [OF p, of "cwd d"] t by (simp add: dir_count_def key_def target_def)
qed

text \<open>Writers for different chunks do not get in each other's way.\<close>

lemma chunk_jobs_compatible:
  assumes root: "root_dir cfg \<noteq> []" and space: "chunk_space d (chunk_dir cfg m)"
    and dist: "distinct (map chunk_index cs)" and small: "\<forall>c \<in> set cs. chunk_index c < 2 ^ 31"
  shows "compatible d (map (chunk_job cfg m) cs)"
proof -
  note keys = chunk_job_keys [OF root]
  have inj: "chunk_index c = chunk_index c'" if "c \<in> set cs" "c' \<in> set cs" "temp_name (chunk_index c) (fst c) = temp_name (chunk_index c') (fst c')" for c c'
    using temp_name_stoi [of "chunk_index c" "fst c"] temp_name_stoi [of "chunk_index c'" "fst c'"] small that by simp
  have same: "c = c'" if "c \<in> set cs" "c' \<in> set cs" "chunk_index c = chunk_index c'" for c c'
    using dist that by (auto simp: distinct_map inj_on_def)
  have "distinct cs" using dist by (simp add: distinct_map)
  then have "distinct (map (scratch d \<circ> chunk_job cfg m) cs)"
    using inj same by (auto simp: distinct_map inj_on_def keys)
  moreover have "creatable d (job_path (chunk_job cfg m c))" for c
    using keys(1,3,4) space by (simp add: creatable_def chunk_space_def flip: target_def)
  moreover have "\<not> strict_prefix (xs @ [x]) (xs @ [y])" for xs :: "string list" and x y
    by (auto simp: strict_prefix_def)
  ultimately show ?thesis
    using space keys same temp_name_not_number
    by (simp add: compatible_def chunk_space_def to_string_nat_inject) metis
qed

section \<open>What the check lists\<close>

lemma chunk_run:
  assumes root: "root_dir cfg \<noteq> []" and space: "chunk_space d (chunk_dir cfg m)"
    and cs: "distinct (map chunk_index cs)" "\<forall>c \<in> set cs. chunk_index c < 2 ^ 31"
    and run: "sched_run writer_step (map (chunk_job cfg m) cs) ts (replicate (length cs) Quick_exists, d) = (ws, d')"
    and t: "t < length cs"
  shows "wf_disk d'" "faults d' = []" "key d' (chunk_dir cfg m) = key d (chunk_dir cfg m)"
    and "writer_ok d (chunk_job cfg m (cs ! t)) (ws ! t) d'"
    and "12 + length (key d (chunk_dir cfg m)) \<le> count_list ts t \<Longrightarrow> \<exists>r. ws ! t = Finished r"
proof -
  let ?jobs = "map (chunk_job cfg m) cs"
  note compat = chunk_jobs_compatible [OF root space cs]
  have run': "sched_run writer_step ?jobs ts (replicate (length ?jobs) Quick_exists, d) = (ws, d')" using run by simp
  note all = writers_run [OF compat run']
  show "wf_disk d'" "faults d' = []" "key d' (chunk_dir cfg m) = key d (chunk_dir cfg m)"
    using all(1) by (auto simp: disk_inv_def key_def)
  show "writer_ok d (chunk_job cfg m (cs ! t)) (ws ! t) d'" using all(3) [of t] t by simp
  show "\<exists>r. ws ! t = Finished r" if "12 + length (key d (chunk_dir cfg m)) \<le> count_list ts t"
    using writers.sched_run_rank [OF writers_start [OF compat], of t ts] that t
    by (simp add: run chunk_job_keys(5) [OF root]) (simp add: rank_at_0)
qed

text \<open>C17: the chunks of one file, each with a number of its own, uploaded by any number of threads at the
  same time on a healthy disk: however the system calls of \<open>write_disk\<close> are interleaved, when every thread
  has had its turns each has reported success, each chunk file has the size of its data, and the chunk
  check lists the numbers of all of them.\<close>

theorem parallel_chunks_listed:
  assumes J: "json_codec (env_json E)" and root: "root_dir (env_cfg E) \<noteq> []"
    and space: "chunk_space d (chunk_dir (env_cfg E) m)"
    and cs: "distinct (map chunk_index cs)" "\<forall>c \<in> set cs. chunk_index c < 2 ^ 31"
    and run: "sched_run writer_step (map (chunk_job (env_cfg E) m) cs) ts (replicate (length cs) Quick_exists, d) = (ws, d')"
    and turns: "\<forall>t < length cs. 12 + length (key d (chunk_dir (env_cfg E) m)) \<le> count_list ts t"
    and s: "files s = d'" and ctx: "query ctx ''md5'' = Some m" "m \<noteq> []" and some: "cs \<noteq> []"
  shows "\<exists>res xs. handleCheckChunk E ctx s = (Inr res, s)
    \<and> json_parse (env_json E) (res_body res) = Some (success_body (JObj [(''list'', JArr (map JInt xs))]) [])
    \<and> (\<forall>t < length cs. ws ! t = Finished (Inr True) \<and> int (chunk_index (cs ! t)) \<in> set xs
        \<and> has_size d' (job_path (chunk_job (env_cfg E) m (cs ! t))) (snd (snd (cs ! t))))"
proof -
  let ?cfg = "env_cfg E" and ?dir = "chunk_dir (env_cfg E) m"
  note step = chunk_run [OF root space cs run]
  have disk: "wf_disk d'" "faults d' = []" "key d' ?dir = key d ?dir" using step(1-3) [of 0] some by simp_all
  have dir: "?dir \<noteq> []" by (simp add: chunk_dir_def)
  have each: "ws ! t = Finished (Inr True) \<and> int (chunk_index (cs ! t)) \<in> chunk_numbers d' ?dir
      \<and> has_size d' (job_path (chunk_job ?cfg m (cs ! t))) (snd (snd (cs ! t)))" if t: "t < length cs" for t
  proof -
    let ?j = "chunk_job ?cfg m (cs ! t)"
    have data: "job_data ?j = snd (snd (cs ! t))" by (simp add: chunk_job_def split: prod.split)
    obtain r where r: "ws ! t = Finished r" using step(5) [OF t] turns t by blast
    with step(4) [OF t] obtain u where u: "r = Inr True" "node_at d' (target d ?j) = Some (File u)" "length u = length (job_data ?j)"
      by (auto simp: holds_data_def)
    have key: "target d ?j = key d' (job_path ?j)"
      using chunk_job_keys(1) [OF root, of d m] chunk_job_keys(1) [OF root, of d' m] disk(3) by (simp add: target_def)
    then have "has_size d' (job_path ?j) (snd (snd (cs ! t)))"
      using u chunk_job_keys(3) [OF root, of m "cs ! t"] by (auto simp: has_size_def lookup_file data dir_only_def filename_def)
    moreover have "int (chunk_index (cs ! t)) \<in> chunk_numbers d' ?dir"
      using chunk_numbers_file [OF disk(1) dir, of "chunk_index (cs ! t)" "[]" u] u(2) cs(2) t chunk_job_keys(1) [OF root, of d m]
      by (simp add: disk(3))
    ultimately show ?thesis using r u(1) by simp
  qed
  with check_chunk_answer [OF J _ _ ctx, of s] disk(1,2) s show ?thesis by auto
qed

text \<open>The flaw: when a thread has just opened its temporary file, the check already lists its chunk.\<close>

theorem chunk_listed_too_early:
  assumes J: "json_codec (env_json E)" and root: "root_dir (env_cfg E) \<noteq> []"
    and space: "chunk_space d (chunk_dir (env_cfg E) m)" and i: "i < 2 ^ 31"
    and run: "sched_run writer_step [chunk_job (env_cfg E) m (r, i, data)] ts ([Quick_exists], d) = ([Write_temp], d')"
    and s: "files s = d'" and ctx: "query ctx ''md5'' = Some m" "m \<noteq> []"
  shows "\<exists>res xs. handleCheckChunk E ctx s = (Inr res, s)
    \<and> json_parse (env_json E) (res_body res) = Some (success_body (JObj [(''list'', JArr (map JInt xs))]) [])
    \<and> int i \<in> set xs"
proof -
  let ?dir = "chunk_dir (env_cfg E) m"
  have run': "sched_run writer_step (map (chunk_job (env_cfg E) m) [(r, i, data)]) ts (replicate (length [(r, i, data)]) Quick_exists, d)
      = ([Write_temp], d')" using run by simp
  have small: "distinct (map chunk_index [(r, i, data)])" "\<forall>c \<in> set [(r, i, data)]. chunk_index c < 2 ^ 31" using i by simp_all
  note step = chunk_run [OF root space small run', of 0]
  have "node_at d' (key d' ?dir @ [temp_name i r]) = Some (File [])"
    using step(3,4) chunk_job_keys(2) [OF root, of d m "(r, i, data)"] by simp
  then have "int i \<in> chunk_numbers d' ?dir"
    using chunk_numbers_file [of d' ?dir i "''.tmp.'' @ generate_temp_suffix r" "[]"] step(1) i
    by (simp add: temp_name_def chunk_dir_def is_digit_def)
  with check_chunk_answer [OF J _ _ ctx, of s] step(1,2) s show ?thesis by auto
qed

section \<open>Two chunks\<close>

definition two_chunks :: "(nat \<times> nat \<times> string) list" where
  "two_chunks = [(1, 0, ''ab''), (2, 1, ''c'')]"

lemma sample_chunk_space: "chunk_space (sample_disk []) (chunk_dir sample_cfg ''abcd'')"
  unfolding chunk_space_def by (simp add: chunk_dir_def sample_cfg_def default_StoreConfig_def path_eval)

theorem parallel_chunks_listed_witness:
  "\<exists>d' res xs. sched_run writer_step (map (chunk_job sample_cfg ''abcd'') two_chunks) (concat (replicate 20 [0, 1]))
        ([Quick_exists, Quick_exists], sample_disk []) = ([Finished (Inr True), Finished (Inr True)], d')
     \<and> handleCheckChunk sample_env ((sample_ctx [])\<lparr>query := [''md5'' \<mapsto> ''abcd'']\<rparr>) (sample_server\<lparr>files := d'\<rparr>)
         = (Inr res, sample_server\<lparr>files := d'\<rparr>)
     \<and> json_parse ref_json (res_body res) = Some (success_body (JObj [(''list'', JArr (map JInt xs))]) [])
     \<and> 0 \<in> set xs \<and> 1 \<in> set xs"
proof -
  let ?ts = "concat (replicate 20 [0, 1]) :: nat list" and ?jobs = "map (chunk_job sample_cfg ''abcd'') two_chunks"
  obtain ws d' where run: "sched_run writer_step ?jobs ?ts (replicate (length two_chunks) Quick_exists, sample_disk []) = (ws, d')"
    by fastforce
  have cfg: "env_cfg sample_env = sample_cfg" "env_json sample_env = ref_json" by (simp_all add: sample_env_def)
  have root: "root_dir sample_cfg \<noteq> []" by (simp add: sample_cfg_def)
  have cs: "distinct (map chunk_index two_chunks)" "\<forall>c \<in> set two_chunks. chunk_index c < 2 ^ 31" "length two_chunks = 2" "two_chunks \<noteq> []"
    by (simp_all add: two_chunks_def)
  have "length (key (sample_disk []) (chunk_dir sample_cfg ''abcd'')) = 4"
    by (simp add: chunk_dir_def sample_cfg_def default_StoreConfig_def path_eval)
  then have turns: "\<forall>t < length two_chunks. 12 + length (key (sample_disk []) (chunk_dir sample_cfg ''abcd'')) \<le> count_list ?ts t"
    by (auto simp: cs(3) less_2_cases_iff eval_nat_numeral)
  obtain res xs where all: "handleCheckChunk sample_env ((sample_ctx [])\<lparr>query := [''md5'' \<mapsto> ''abcd'']\<rparr>) (sample_server\<lparr>files := d'\<rparr>)
         = (Inr res, sample_server\<lparr>files := d'\<rparr>)"
      "json_parse ref_json (res_body res) = Some (success_body (JObj [(''list'', JArr (map JInt xs))]) [])"
      "\<forall>t < 2. ws ! t = Finished (Inr True) \<and> int (chunk_index (two_chunks ! t)) \<in> set xs"
    using parallel_chunks_listed [of sample_env "sample_disk []" "''abcd''" two_chunks, unfolded cfg, OF ref_codec.json_codec_axioms
        root sample_chunk_space cs(1,2) run turns, of "sample_server\<lparr>files := d'\<rparr>" "(sample_ctx [])\<lparr>query := [''md5'' \<mapsto> ''abcd'']\<rparr>"] cs(3,4)
    by auto
  have "length ws = 2"
    using writers_run(2) [OF chunk_jobs_compatible [OF root sample_chunk_space cs(1,2)], of ?ts] run cs(3) by simp
  with all(3) have "ws = [Finished (Inr True), Finished (Inr True)]"
    by (auto simp: list_eq_iff_nth_eq less_2_cases_iff)
  moreover from all(3) have "0 \<in> set xs" "1 \<in> set xs" by (auto simp: less_2_cases_iff two_chunks_def)
  moreover from run have "sched_run writer_step ?jobs ?ts ([Quick_exists, Quick_exists], sample_disk []) = (ws, d')"
    by (simp add: cs(3) eval_nat_numeral)
  ultimately show ?thesis using all(1,2) by blast
qed

text \<open>A run in which the first chunk is listed before it is there: after seven steps its temporary file has been
  opened.\<close>

theorem chunk_listed_too_early_witness:
  "\<exists>d' res xs. sched_run writer_step [chunk_job sample_cfg ''abcd'' (1, 0, ''ab'')] (replicate 7 0) ([Quick_exists], sample_disk [])
        = ([Write_temp], d')
     \<and> lookup d' ''store/_tmp/abcd/0'' = None
     \<and> handleCheckChunk sample_env ((sample_ctx [])\<lparr>query := [''md5'' \<mapsto> ''abcd'']\<rparr>) (sample_server\<lparr>files := d'\<rparr>)
         = (Inr res, sample_server\<lparr>files := d'\<rparr>)
     \<and> json_parse ref_json (res_body res) = Some (success_body (JObj [(''list'', JArr (map JInt xs))]) [])
     \<and> 0 \<in> set xs"
proof -
  define w where "w = sched_run writer_step [chunk_job sample_cfg ''abcd'' (1, 0, ''ab'')] (replicate 7 0) ([Quick_exists], sample_disk [])"
  have "fst w = [Write_temp]" "lookup (snd w) ''store/_tmp/abcd/0'' = None" unfolding w_def by code_simp+
  moreover from this(1) have run: "sched_run writer_step [chunk_job sample_cfg ''abcd'' (1, 0, ''ab'')] (replicate 7 0)
      ([Quick_exists], sample_disk []) = ([Write_temp], snd w)" by (simp add: w_def prod_eq_iff)
  moreover have cfg: "env_cfg sample_env = sample_cfg" "env_json sample_env = ref_json" by (simp_all add: sample_env_def)
  ultimately show ?thesis
    using chunk_listed_too_early [of sample_env "sample_disk []" "''abcd''" 0, unfolded cfg, OF ref_codec.json_codec_axioms
        _ sample_chunk_space _ run, of "sample_server\<lparr>files := snd w\<rparr>" "(sample_ctx [])\<lparr>query := [''md5'' \<mapsto> ''abcd'']\<rparr>"]
    by (auto simp: sample_cfg_def)
qed

section \<open>A temporary file in a merge\<close>

definition stale_disk :: disk where
  "stale_disk = merge_disk\<lparr>nodes := nodes merge_disk @ [([''srv'', ''store'', '' _tmp'', merge_md5, ''9.tmp.100007''], File ''ni'')]\<rparr>"

lemma stale_scan:
  "\<exists>es. directory_iterator (merge_dir sample_cfg merge_md5) stale_disk = (Inr es, stale_disk)
     \<and> sort (List.map_filter shard_index_of es) = [9, 9, 10]"
proof -
  have "case directory_iterator (merge_dir sample_cfg merge_md5) stale_disk of
      (Inr es, d) \<Rightarrow> d = stale_disk \<and> sort (List.map_filter shard_index_of es) = [9, 9, 10] | _ \<Rightarrow> False"
    by code_simp
  then show ?thesis by (auto split: prod.splits sum.splits)
qed

lemma stale_merge:
  "\<exists>p n d'. merge_files sample_cfg merge_md5 ''a.txt'' ''default'' [9, 9, 10] stale_disk = (Inr (p, n), d')
     \<and> lookup d' ''store/default/01/23/0123456789abcdef0123456789abcdef.txt'' = Some (File ''nine,nine,ten'')"
proof -
  have "case merge_files sample_cfg merge_md5 ''a.txt'' ''default'' [9, 9, 10] stale_disk of
      (Inr r, d') \<Rightarrow> lookup d' ''store/default/01/23/0123456789abcdef0123456789abcdef.txt'' = Some (File ''nine,nine,ten'')
    | _ \<Rightarrow> False"
    by code_simp
  then show ?thesis by (auto split: prod.splits sum.splits)
qed

text \<open>The merge collects its numbers in the same way: with the remains of an upload of chunk 9 beside chunk 9,
  the merged file has the chunk twice.\<close>

lemma merge_repeats_chunk:
  "lookup (files (snd (merge_chunks sample_env ctx merge_md5 ''a.txt'' ''default'' (sample_server\<lparr>files := stale_disk\<rparr>))))
     ''store/default/01/23/0123456789abcdef0123456789abcdef.txt'' = Some (File ''nine,nine,ten'')"
proof -
  obtain es where es: "directory_iterator (merge_dir sample_cfg merge_md5) stale_disk = (Inr es, stale_disk)"
      "sort (List.map_filter shard_index_of es) = [9, 9, 10]" using stale_scan by blast
  obtain p n d' where d': "merge_files sample_cfg merge_md5 ''a.txt'' ''default'' [9, 9, 10] stale_disk = (Inr (p, n), d')"
      "lookup d' ''store/default/01/23/0123456789abcdef0123456789abcdef.txt'' = Some (File ''nine,nine,ten'')" using stale_merge by blast
  have "List.map_filter shard_index_of es \<noteq> []" using es(2) by auto
  with es d' show ?thesis
    by (simp add: merge_chunks_def sample_env_def on_disk_def io_bind_def Let_def keep_meta_def send_state)
qed

end
