(* ===== verification/UploadConc.thy ===== *)
theory UploadConc
  imports FileCtlProps Threads
begin

text \<open>
  The counter of concurrent uploads under threads.  \<open>handleUpload\<close> takes a number with \<open>fetch_add\<close>, and
  gives it back with \<open>fetch_sub\<close> when it was too large; in between the counter is too high, and other
  threads may look at it.  The counter is unbounded here; it is between zero and the number of the
  threads, far from the ends of the \<open>int\<close> it is in the code.  A thread is a machine whose steps are these two atomic operations.
\<close>

section \<open>Admission\<close>

datatype admission = Arrived | Too_many | Refused | Admitted

fun admission_step :: "unit \<Rightarrow> admission \<Rightarrow> int \<Rightarrow> admission \<times> int" where
  "admission_step j Arrived current = (if MAX_CONCURRENT_UPLOADS \<le> current then Too_many else Admitted, current + 1)"
| "admission_step j Too_many current = (Refused, current - 1)"
| "admission_step j p current = (p, current)"

text \<open>A thread alone does to the counter what \<open>handleUpload\<close> does.\<close>

lemma admission_alone:
  "snd (sched_run admission_step [()] [0, 0] ([Arrived], concurrent_uploads s)) = concurrent_uploads (snd (handleUpload E ctx s))"
proof (cases "20 \<le> concurrent_uploads s")
  case True
  then show ?thesis by (simp add: sched_run_def sched_step_def handleUpload_busy send_state MAX_CONCURRENT_UPLOADS_def)
next
  case False
  then show ?thesis by (simp add: sched_run_def sched_step_def handleUpload_admitted MAX_CONCURRENT_UPLOADS_def)
qed

section \<open>The invariant of the counter\<close>

text \<open>The counter is the number of threads that took a number and did not give it back, and a thread is
  turned away only when twenty are admitted.\<close>

definition slots_inv :: "nat \<Rightarrow> admission list \<times> int \<Rightarrow> bool" where
  "slots_inv n w \<longleftrightarrow> length (fst w) = n
     \<and> snd w = int (count_list (fst w) Admitted) + int (count_list (fst w) Too_many)
     \<and> count_list (fst w) Admitted \<le> 20
     \<and> (0 < count_list (fst w) Too_many + count_list (fst w) Refused \<longrightarrow> count_list (fst w) Admitted = 20)"

lemma slots_step:
  assumes "slots_inv (length jobs) w"
  shows "slots_inv (length jobs) (sched_step admission_step jobs t w)"
proof (cases "t < length jobs")
  case True
  obtain ps c where w: "w = (ps, c)" by (cases w)
  with True assms have t: "t < length ps" by (simp add: slots_inv_def)
  note count = count_list_update [OF t]
  obtain p c' where run: "admission_step (jobs ! t) (ps ! t) c = (p, c')" by fastforce
  with True have "sched_step admission_step jobs t w = (ps[t := p], c')" by (simp add: sched_step_def w)
  with assms run count [of p Admitted] count [of p Too_many] count [of p Refused] show ?thesis
    by (cases "ps ! t") (auto simp: slots_inv_def w MAX_CONCURRENT_UPLOADS_def split: if_splits)
next
  case False
  with assms show ?thesis by (cases w) (simp add: sched_step_def)
qed

interpretation slots: invariant_machine "sched_step admission_step jobs" "slots_inv (length jobs)" for jobs
  by unfold_locales (rule slots_step)

text \<open>A thread needs at most two turns.\<close>

fun admission_rank :: "admission \<Rightarrow> nat" where
  "admission_rank Arrived = 2"
| "admission_rank Too_many = 1"
| "admission_rank _ = 0"

interpretation turns: bounded_threads admission_step jobs "\<lambda>_. True" "\<lambda>_ _ _. True" "\<lambda>_ _ _. True" "\<lambda>_. admission_rank" for jobs
proof unfold_locales
  fix t s p p' s'
  assume "admission_step (jobs ! t) p s = (p', s')"
  then show "admission_rank p' \<le> admission_rank p - 1" by (cases p) (auto split: if_splits)
qed simp_all

section \<open>Twenty uploads and no more\<close>

text \<open>C26: however the uploads of \<open>n\<close> threads are interleaved, never more than twenty are admitted; and when each
  has had its two turns, exactly twenty are, or all if there are fewer.  No thread is refused because
  another one is just giving its number back, and all numbers above twenty are given back.\<close>

theorem upload_slots_exact:
  assumes "sched_run admission_step (replicate n ()) ts (replicate n Arrived, 0) = (ps, c)"
  shows "count_list ps Admitted \<le> 20
    \<and> ((\<forall>t < n. 2 \<le> count_list ts t) \<longrightarrow> count_list ps Admitted = min 20 n \<and> c = int (min 20 n))"
proof -
  let ?w = "(replicate n Arrived, 0) :: admission list \<times> int"
  have "slots_inv (length (replicate n ())) ?w" by (simp add: slots_inv_def count_list_0_iff)
  from slots.run_invar [OF this, of ts] have inv: "slots_inv n (ps, c)" using assms by (simp add: sched_run_def)
  have "count_list ps Admitted = min 20 n \<and> c = int (min 20 n)" if two: "\<forall>t < n. 2 \<le> count_list ts t"
  proof -
    have "turns.all_ok (replicate n ()) ?w" by (simp add: turns.all_ok_def)
    from turns.sched_run_rank [OF this, of _ ts] have "admission_rank (ps ! t) = 0" if "t < n" for t
      using assms that two [rule_format, OF that] by (metis (no_types, lifting) admission_rank.simps(1) diff_is_0_eq fst_conv
          le_zero_eq length_replicate nth_replicate)
    then have "admission_rank p = 0" if "p \<in> set ps" for p
      using that inv by (auto simp: in_set_conv_nth slots_inv_def)
    then have none: "Arrived \<notin> set ps" "Too_many \<notin> set ps" by force+
    show ?thesis
    proof (cases "Refused \<in> set ps")
      case True
      then have "0 < count_list ps Refused" by (simp add: count_list_0_iff flip: neq0_conv)
      with inv none count_le_length [of ps Admitted] show ?thesis by (auto simp: slots_inv_def count_list_0_iff)
    next
      case False
      with none have "p = Admitted" if "p \<in> set ps" for p using that by (cases p) auto
      then have "count_list ps Admitted = length ps" by (induction ps) auto
      with inv none show ?thesis by (simp add: slots_inv_def count_list_0_iff)
    qed
  qed
  moreover have "count_list ps Admitted \<le> 20" using inv by (simp add: slots_inv_def)
  ultimately show ?thesis by blast
qed

theorem upload_slots_exact_witness:
  "\<exists>ps. sched_run admission_step (replicate 3 ()) [0, 1, 2, 2, 1, 0] (replicate 3 Arrived, 0) = (ps, 3) \<and> count_list ps Admitted = 3"
proof -
  obtain ps c where run: "sched_run admission_step (replicate 3 ()) [0, 1, 2, 2, 1, 0] (replicate 3 Arrived, 0) = (ps, c)"
    by fastforce
  have "\<forall>t < 3. 2 \<le> count_list [0, 1, 2, 2, 1, 0 :: nat] t" by (auto simp: eval_nat_numeral less_Suc_eq)
  with upload_slots_exact [OF run] run show ?thesis by simp
qed

end
