(* ===== verification/FileGuard.thy ===== *)
theory FileGuard
  imports FileSystem
begin

text \<open>
  \<open>file/FileGuard.h\<close>: the guard that removes an uploaded file when it goes out of scope before the
  upload is committed.  No other file uses it yet.  An exception cannot leave a destructor: the
  program is terminated, which is \<open>None\<close>.
\<close>

record FileGuard =
  guard_path :: string
  commit :: bool

definition new_guard :: "string \<Rightarrow> FileGuard" where
  "new_guard p = \<lparr>guard_path = p, commit = False\<rparr>"

definition FileGuard_destroy :: "FileGuard \<Rightarrow> disk \<Rightarrow> disk option" where
  "FileGuard_destroy g d =
     (if \<not> commit g \<and> guard_path g \<noteq> []
      then (case fs_remove (guard_path g) d of (Inl _, _) \<Rightarrow> None | (Inr _, d') \<Rightarrow> Some d')
      else Some d)"

text \<open>A committed guard keeps the disk as it is; whatever the faults, the disk stays well formed and
  only the path of the guard changes.\<close>

lemma guard_frame:
  assumes "wf_disk d" "FileGuard_destroy g d = Some d'"
  shows "wf_disk d' \<and> changes {key d (guard_path g)} d d' \<and> (commit g \<longrightarrow> d' = d)"
proof -
  let ?K = "{key d (guard_path g)}"
  have start: "state_ok d ?K (\<lambda>_. True) d" using assms(1) by (simp add: state_ok_def changes_def)
  have "state_ok d ?K (\<lambda>_. True) d'" if "fs_remove (guard_path g) d = (Inr b, d')" for b
    by (rule triple_Inr [OF triple_fs_remove start that]) simp
  with assms start show ?thesis
    by (auto simp: FileGuard_destroy_def state_ok_def split: if_splits prod.splits sum.splits)
qed

text \<open>Without faults, a guard that was not committed removes its file, and does nothing when the file
  is gone already.\<close>

lemma guard_removes:
  assumes "faults d = []" "\<not> commit g" "lookup d (guard_path g) = Some (File s)"
  shows "FileGuard_destroy g d = Some (del_node (key d (guard_path g)) d)"
proof -
  have "guard_path g \<noteq> []" using assms(3) by (simp add: lookup_file)
  with assms show ?thesis by (simp add: FileGuard_destroy_def fs_remove_def guarded_def sys_def io_bind_def)
qed

lemma guard_gone: "faults d = [] \<Longrightarrow> lookup d (guard_path g) = None \<Longrightarrow> FileGuard_destroy g d = Some d"
  by (simp add: FileGuard_destroy_def fs_remove_def guarded_def sys_def io_bind_def)

text \<open>But when the removal fails, the destructor ends the program: a fault of the system call is
  enough.\<close>

lemma guard_terminates:
  assumes "faults d = Some n # fs" "\<not> commit g" "guard_path g \<noteq> []"
  shows "FileGuard_destroy g d = None"
  using assms by (simp add: FileGuard_destroy_def fs_remove_def guarded_def sys_def io_bind_def io_throw_def)

end
