(* ===== verification/Singleton.thy ===== *)
theory Singleton
  imports Prelude
begin

text \<open>
  \<open>common/Singleton.h\<close>: \<open>getInstance\<close> creates the one instance of a class by \<open>std::call_once\<close>, also when
  several threads call it at the same time.  The router is used through it: \<open>main\<close> registers the routes
  at the instance, and every session dispatches at the instance.  What the standard says of
  \<open>call_once\<close> is in the steps: one caller runs the function while the others wait, a function that throws
  leaves the flag unset for the next caller, and after one that returns the others pass.
\<close>

section \<open>The class and its callers\<close>

datatype once_flag = Not_run | Active | Run

text \<open>\<open>s_flag\<close>, the pointer \<open>_instance\<close> and the number of objects created; an object is named by its number.\<close>

record singleton =
  s_flag :: once_flag
  the_instance :: "nat option"
  created :: nat

definition init_singleton :: singleton where
  "init_singleton = \<lparr>s_flag = Not_run, the_instance = None, created = 0\<rparr>"

text \<open>\<open>_instance = std::shared_ptr<T>(new T)\<close>.\<close>

definition new_instance :: "singleton \<Rightarrow> singleton" where
  "new_instance s = s\<lparr>the_instance := Some (created s), created := created s + 1\<rparr>"

text \<open>A call by one thread alone, with a constructor that does not throw.\<close>

definition getInstance :: "singleton \<Rightarrow> nat option \<times> singleton" where
  "getInstance s =
     (let s' = (if s_flag s = Run then s else (new_instance s)\<lparr>s_flag := Run\<rparr>)
      in (the_instance s', s'))"

text \<open>Where a thread is: before \<open>call_once\<close>, in its function, after it, or done, with a pointer or with an
  exception of the constructor.\<close>

datatype caller = Calling | Creating | Returning | Got "nat option" | Threw

inductive caller_step :: "caller \<Rightarrow> singleton \<Rightarrow> caller \<Rightarrow> singleton \<Rightarrow> bool" where
  enter: "s_flag s = Not_run \<Longrightarrow> caller_step Calling s Creating (s\<lparr>s_flag := Active\<rparr>)"
| pass: "s_flag s = Run \<Longrightarrow> caller_step Calling s Returning s"
| create: "caller_step Creating s Returning ((new_instance s)\<lparr>s_flag := Run\<rparr>)"
| throw: "caller_step Creating s Threw (s\<lparr>s_flag := Not_run\<rparr>)"
| return: "caller_step Returning s (Got (the_instance s)) s"

inductive_cases caller_stepE: "caller_step c s c' s'"

inductive once_step :: "caller list \<times> singleton \<Rightarrow> caller list \<times> singleton \<Rightarrow> bool" where
  turn: "i < length cs \<Longrightarrow> caller_step (cs ! i) s c' s' \<Longrightarrow> once_step (cs, s) (cs[i := c'], s')"

inductive_cases once_stepE: "once_step w w'"

abbreviation once_steps :: "caller list \<times> singleton \<Rightarrow> caller list \<times> singleton \<Rightarrow> bool" where
  "once_steps \<equiv> once_step\<^sup>*\<^sup>*"

definition callers :: "nat \<Rightarrow> caller list \<times> singleton" where
  "callers n = (replicate n Calling, init_singleton)"

fun finished :: "caller \<Rightarrow> bool" where
  "finished (Got _) \<longleftrightarrow> True"
| "finished Threw \<longleftrightarrow> True"
| "finished _ \<longleftrightarrow> False"

section \<open>One instance\<close>

text \<open>The flag tells how many threads are in the function and how many objects there are.\<close>

fun flag_ok :: "once_flag \<Rightarrow> nat \<Rightarrow> nat option \<Rightarrow> nat \<Rightarrow> bool" where
  "flag_ok Not_run active inst n \<longleftrightarrow> active = 0 \<and> inst = None \<and> n = 0"
| "flag_ok Active active inst n \<longleftrightarrow> active = 1 \<and> inst = None \<and> n = 0"
| "flag_ok Run active inst n \<longleftrightarrow> active = 0 \<and> inst = Some 0 \<and> n = 1"

definition once_inv :: "caller list \<times> singleton \<Rightarrow> bool" where
  "once_inv w \<longleftrightarrow> flag_ok (s_flag (snd w)) (count_list (fst w) Creating) (the_instance (snd w)) (created (snd w))
     \<and> (\<forall>c \<in> set (fst w). (c = Returning \<longrightarrow> s_flag (snd w) = Run) \<and> (\<forall>p. c = Got p \<longrightarrow> s_flag (snd w) = Run \<and> p = Some 0))"

lemma creating_active:
  assumes "once_inv (cs, s)" "i < length cs" "cs ! i = Creating"
  shows "s_flag s = Active"
proof -
  have "Creating \<in> set cs" using assms(2,3) nth_mem by fastforce
  then have "count_list cs Creating \<noteq> 0" by (simp add: count_list_0_iff)
  with assms(1) show ?thesis by (cases "s_flag s") (auto simp: once_inv_def)
qed

lemma once_step_inv:
  assumes "once_step w w'" "once_inv w"
  shows "once_inv w'"
  using assms(1)
proof cases
  case (turn i cs s c' s')
  note count = count_list_update [OF turn(3), of c' Creating]
  have mem: "set (cs[i := c']) \<subseteq> insert c' (set cs)" by (rule set_update_subset_insert)
  have old: "\<And>c. c \<in> set cs \<Longrightarrow> (c = Returning \<longrightarrow> s_flag s = Run) \<and> (\<forall>p. c = Got p \<longrightarrow> s_flag s = Run \<and> p = Some 0)"
    and flag: "flag_ok (s_flag s) (count_list cs Creating) (the_instance s) (created s)"
    using assms(2) by (auto simp: once_inv_def turn(1))
  from turn(4) show ?thesis
  proof cases
    case enter
    with count flag old mem show ?thesis by (auto simp: once_inv_def turn(2))
  next
    case pass
    with count flag old mem show ?thesis by (fastforce simp: once_inv_def turn(2))
  next
    case create
    with creating_active [of cs s i] assms(2) turn(1,3) have "s_flag s = Active" by simp
    with create count flag old mem show ?thesis by (fastforce simp: once_inv_def turn(2) new_instance_def)
  next
    case throw
    with creating_active [of cs s i] assms(2) turn(1,3) have "s_flag s = Active" by simp
    with throw count flag old mem show ?thesis by (fastforce simp: once_inv_def turn(2))
  next
    case return
    with old [OF nth_mem [OF turn(3)]] have "s_flag s = Run" by simp
    with return count flag old mem show ?thesis by (fastforce simp: once_inv_def turn(2))
  qed
qed

lemma first_turn: "caller_step c s c' s' \<Longrightarrow> once_step (c # cs, s) (c' # cs, s')"
  using turn [of 0 "c # cs" s c' s'] by simp

lemma once_steps_inv: "once_steps w w' \<Longrightarrow> once_inv w \<Longrightarrow> once_inv w'"
  by (induction rule: rtranclp_induct) (auto intro: once_step_inv)

lemma callers_inv: "once_inv (callers n)"
  by (auto simp: once_inv_def callers_def init_singleton_def count_list_0_iff)

section \<open>Every caller finishes\<close>

text \<open>A caller takes at most three steps of its own.\<close>

fun caller_rank :: "caller \<Rightarrow> nat" where
  "caller_rank Calling = 3"
| "caller_rank Creating = 2"
| "caller_rank Returning = 1"
| "caller_rank _ = 0"

definition callers_rank :: "caller list \<times> singleton \<Rightarrow> nat" where
  "callers_rank w = sum_list (map caller_rank (fst w))"

lemma caller_step_rank: "caller_step c s c' s' \<Longrightarrow> caller_rank c' < caller_rank c"
  by (auto elim!: caller_stepE)

lemma once_step_rank: "once_step w w' \<Longrightarrow> callers_rank w' < callers_rank w"
  by (auto elim!: once_stepE simp: callers_rank_def map_update sum_list_update_less caller_step_rank)

lemma once_run_rank: "(once_step ^^ k) w w' \<Longrightarrow> k + callers_rank w' \<le> callers_rank w"
proof (induction k arbitrary: w')
  case (Suc k)
  then obtain v where "(once_step ^^ k) w v" "once_step v w'" by auto
  with Suc.IH [of v] once_step_rank [of v w'] show ?case by simp
qed simp

text \<open>While a caller has not finished, one of them has a step: a waiting caller waits for one that is in
  the function.\<close>

lemma once_progress:
  assumes "once_inv (cs, s)" "c \<in> set cs" "\<not> finished c"
  shows "\<exists>w. once_step (cs, s) w"
proof -
  obtain i where i: "i < length cs" "cs ! i = c" using assms(2) by (auto simp: in_set_conv_nth)
  show ?thesis
  proof (cases "c = Calling \<and> s_flag s = Active")
    case True
    then have "count_list cs Creating = 1" using assms(1) by (simp add: once_inv_def)
    then have "Creating \<in> set cs" by (metis count_list_0_iff zero_neq_one)
    then obtain k where "k < length cs" "cs ! k = Creating" by (auto simp: in_set_conv_nth)
    with turn [of k cs s] create [of s] show ?thesis by auto
  next
    case False
    then have "\<exists>c' s'. caller_step c s c' s'"
      using assms(3) by (cases c; cases "s_flag s") (auto intro: caller_step.intros)
    with i turn [of i cs s] show ?thesis by auto
  qed
qed

lemma once_end:
  assumes "once_inv (cs, s)" "\<nexists>w. once_step (cs, s) w" "c \<in> set cs"
  shows "c = Threw \<or> c = Got (Some 0)"
proof -
  have "finished c" using once_progress [OF assms(1,3)] assms(2) by blast
  with assms(1,3) show ?thesis by (cases c) (auto simp: once_inv_def)
qed

section \<open>Properties\<close>

text \<open>However the calls of any number of threads are interleaved, and whichever of them throw, at most one
  object is created, every thread that returned has a pointer to it, every run is over after at most
  three steps for each thread, and at its end every thread has the pointer or the exception of its own
  attempt.\<close>

theorem one_instance:
  assumes "(once_step ^^ k) (callers n) (cs, s)"
  shows "k \<le> 3 * n \<and> created s \<le> 1 \<and> (\<forall>p. Got p \<in> set cs \<longrightarrow> p = the_instance s \<and> p = Some 0)
    \<and> ((\<nexists>w. once_step (cs, s) w) \<longrightarrow> (\<forall>c \<in> set cs. c = Threw \<or> c = Got (the_instance s)))"
proof -
  have inv: "once_inv (cs, s)" by (rule once_steps_inv [OF relpowp_imp_rtranclp [OF assms] callers_inv])
  then have "created s \<le> 1" by (cases "s_flag s") (auto simp: once_inv_def)
  moreover have got: "p = the_instance s \<and> p = Some 0" if "Got p \<in> set cs" for p
    using inv that by (cases "s_flag s") (auto simp: once_inv_def)
  moreover have "k \<le> 3 * n" using once_run_rank [OF assms] by (simp add: callers_rank_def callers_def sum_list_replicate)
  ultimately show ?thesis using once_end [OF inv] got by blast
qed

text \<open>The call alone is the run of one thread that does not throw.\<close>

lemma getInstance_run:
  assumes "s_flag s \<noteq> Active"
  shows "once_steps ([Calling], s) ([Got (fst (getInstance s))], snd (getInstance s))"
proof -
  have "once_steps ([Calling], s) ([Returning], snd (getInstance s))"
  proof (cases "s_flag s")
    case Not_run
    with first_turn [OF enter, of s "[]"] first_turn [OF create [of "s\<lparr>s_flag := Active\<rparr>"], of "[]"]
    show ?thesis by (auto simp: getInstance_def Let_def new_instance_def intro: converse_rtranclp_into_rtranclp)
  next
    case Run
    with first_turn [OF pass, of s "[]"] show ?thesis by (auto simp: getInstance_def Let_def)
  qed (use assms in simp)
  moreover have "once_step ([Returning], snd (getInstance s)) ([Got (fst (getInstance s))], snd (getInstance s))"
    using first_turn [OF return [of "snd (getInstance s)"], of "[]"] by (simp add: getInstance_def Let_def)
  ultimately show ?thesis by (rule rtranclp.rtrancl_into_rtrancl)
qed

text \<open>After the first call every later one gives the same pointer and changes nothing: the routes registered
  by \<open>main\<close> are those that the sessions see.\<close>

lemma getInstance_again: "getInstance (snd (getInstance s)) = getInstance s"
  by (simp add: getInstance_def Let_def)

theorem one_instance_witness:
  "\<exists>cs s. (once_step ^^ 3) (callers 2) (cs, s) \<and> cs = [Got (Some 0), Calling] \<and> created s \<le> 1"
proof -
  let ?s1 = "init_singleton\<lparr>s_flag := Active\<rparr>" and ?s2 = "(new_instance (init_singleton\<lparr>s_flag := Active\<rparr>))\<lparr>s_flag := Run\<rparr>"
  have "once_step (callers 2) ([Creating, Calling], ?s1)"
    using first_turn [OF enter, of init_singleton "[Calling]"] by (simp add: callers_def init_singleton_def eval_nat_numeral)
  moreover have "once_step ([Creating, Calling], ?s1) ([Returning, Calling], ?s2)"
    using first_turn [OF create [of ?s1], of "[Calling]"] by simp
  moreover have "once_step ([Returning, Calling], ?s2) ([Got (Some 0), Calling], ?s2)"
    using first_turn [OF return [of ?s2], of "[Calling]"] by (simp add: new_instance_def init_singleton_def)
  ultimately have run: "(once_step ^^ 3) (callers 2) ([Got (Some 0), Calling], ?s2)"
    by (auto simp: eval_nat_numeral relcompp_apply)
  with one_instance [OF run] show ?thesis by blast
qed

end
