(* ===== verification/TestSuite.thy ===== *)
theory TestSuite
  imports MetadataScan UrlUtils
begin

text \<open>
  The tests of the repository, \<open>test/url_utils_test.cpp\<close> and \<open>test/meta_test.cc\<close>, run on the model:
  every test is a \<open>bool\<close>, the conjunction of its assertions in their order.  The URL tests are
  evaluated.  The tests of the metadata store take the database and the JSON library as
  parameters; they are shown to pass on every database that keeps the contract and whose writes
  do not fail, so the expectations of the authors agree with the model, and the contract is enough
  for them.
\<close>

section \<open>UrlUtils\<close>

definition SplitTarget_NormalCases :: bool where
  "SplitTarget_NormalCases \<longleftrightarrow>
     splitTarget ''/path?a=1&b=2'' = (''/path'', ''a=1&b=2'')
     \<and> splitTarget ''/api/user/detail'' = (''/api/user/detail'', [])
     \<and> splitTarget ''?name=test&age=18'' = ([], ''name=test&age=18'')
     \<and> splitTarget [] = ([], [])
     \<and> splitTarget ''/file?version=1?type=txt'' = (''/file'', ''version=1?type=txt'')"

text \<open>The two names of the tests in UTF-8.\<close>

definition zhang_san :: string where
  "zhang_san = [CHR 0xE5, CHR 0xBC, CHR 0xA0, CHR 0xE4, CHR 0xB8, CHR 0x89]"

definition nian :: string where
  "nian = [CHR 0xE5, CHR 0xB9, CHR 0xB4]"

definition Decode_NormalCases :: bool where
  "Decode_NormalCases \<longleftrightarrow>
     decode ''%2Fpath%20test%41%E5%BC%A0%E4%B8%89'' = Inr (''/path testA'' @ zhang_san)
     \<and> decode [] = Inr []
     \<and> decode ''normal-string_123'' = Inr ''normal-string_123''"

fun throws_UrlParseException :: "'a result \<Rightarrow> bool" where
  "throws_UrlParseException (Inl (UrlParseException _)) = True"
| "throws_UrlParseException _ = False"

definition Decode_ExceptionCases :: bool where
  "Decode_ExceptionCases \<longleftrightarrow>
     throws_UrlParseException (decode ''/path%2'') \<and> throws_UrlParseException (decode ''/path%g3'')
     \<and> throws_UrlParseException (decode ''%2gtest'')"

text \<open>\<open>params[key]\<close>: a key that is not there reads as the empty string.\<close>

definition at_key :: "(string \<rightharpoonup> string) \<Rightarrow> string \<Rightarrow> string" where
  "at_key m k = (case m k of None \<Rightarrow> [] | Some v \<Rightarrow> v)"

text \<open>An assertion on the parsed q; an exception fails the test.\<close>

definition parsed :: "string \<Rightarrow> ((string \<rightharpoonup> string) \<Rightarrow> bool) \<Rightarrow> bool" where
  "parsed q expect = (case parseQuery q of Inl _ \<Rightarrow> False | Inr m \<Rightarrow> expect m)"

definition ParseQuery_NormalCases :: bool where
  "ParseQuery_NormalCases \<longleftrightarrow>
     parsed ''a=1&b=2&c=3'' (\<lambda>m. card (dom m) = 3 \<and> at_key m ''a'' = ''1'' \<and> at_key m ''b'' = ''2'' \<and> at_key m ''c'' = ''3'')
     \<and> parsed [] (\<lambda>m. dom m = {})
     \<and> parsed ''a=&b=2&c='' (\<lambda>m. at_key m ''a'' = [] \<and> at_key m ''b'' = ''2'' \<and> at_key m ''c'' = [])
     \<and> parsed ''=123&b=456'' (\<lambda>m. at_key m [] = ''123'' \<and> at_key m ''b'' = ''456'')
     \<and> parsed ''a=1&a=999&b=2'' (\<lambda>m. at_key m ''a'' = ''999'' \<and> at_key m ''b'' = ''2'')"

text \<open>\<open>fullUrl.substr(fullUrl.find(pat))\<close>; a failing search throws, which is \<open>None\<close>.\<close>

fun from_first :: "string \<Rightarrow> string \<Rightarrow> string option" where
  "from_first pat [] = (if pat = [] then Some [] else None)"
| "from_first pat (c # cs) = (if prefix pat (c # cs) then Some (c # cs) else from_first pat cs)"

definition FullUrlParse_EndToEnd :: bool where
  "FullUrlParse_EndToEnd \<longleftrightarrow>
     (case from_first ''/api'' (''http://localhost:8080/api/user?name='' @ zhang_san @ ''%20san&age=18#info'') of
        None \<Rightarrow> False
      | Some target \<Rightarrow>
          (case splitTarget target of
             (p, q) \<Rightarrow>
               p = ''/api/user'' \<and> q = ''name='' @ zhang_san @ ''%20san&age=18''
               \<and> parsed q (\<lambda>m. at_key m ''name'' = zhang_san @ '' san'' \<and> at_key m ''age'' = ''18'')))
     \<and> (case splitTarget ''/file/download?filename=report%202025%26%E5%B9%B4.xlsx'' of
          (p, q) \<Rightarrow>
            p = ''/file/download'' \<and> q = ''filename=report%202025%26%E5%B9%B4.xlsx''
            \<and> parsed q (\<lambda>m. at_key m ''filename'' = ''report 2025&'' @ nian @ ''.xlsx''))"

section \<open>MetadataStore\<close>

definition test_meta :: MetaFile where
  "test_meta = default_MetaFile\<lparr>md5 := ''1234567890abcdef1234567890abcdef'', path := ''/group1/test.txt'',
     scene := ''default'', mtime := 1680000000, fsize := 1024, status := NORMAL\<rparr>"

text \<open>\<open>SetUp\<close>: the store opened on a database in a new directory; an exception fails the test.\<close>

definition SetUp :: "string + 'db \<Rightarrow> ('db metadata_store \<Rightarrow> bool) \<Rightarrow> bool" where
  "SetUp opened test = (case MetadataStore_new opened default_metaConfig of Inl _ \<Rightarrow> False | Inr store \<Rightarrow> test store)"

definition SaveAndGetMeta :: "('db, 'it) leveldb_api \<Rightarrow> json_api \<Rightarrow> 'db metadata_store \<Rightarrow> bool" where
  "SaveAndGetMeta D J store =
     (case save_meta D J test_meta store of
        (save_ok, store1) \<Rightarrow>
          save_ok
          \<and> (case get_meta D J store1 (md5 test_meta) of
               None \<Rightarrow> False
             | Some got \<Rightarrow> md5 got = md5 test_meta \<and> path got = path test_meta \<and> fsize got = fsize test_meta
                 \<and> status got = status test_meta)
          \<and> (case get_meta D J store1 (path test_meta) of None \<Rightarrow> False | Some got \<Rightarrow> md5 got = md5 test_meta)
          \<and> get_meta D J store1 ''invalid_file_id'' = None)"

definition Exists :: "('db, 'it) leveldb_api \<Rightarrow> json_api \<Rightarrow> 'db metadata_store \<Rightarrow> bool" where
  "Exists D J store \<longleftrightarrow>
     \<not> exists_meta D J store (md5 test_meta)
     \<and> (case save_meta D J test_meta store of
          (_, store1) \<Rightarrow> exists_meta D J store1 (md5 test_meta) \<and> exists_meta D J store1 (path test_meta)
            \<and> \<not> exists_meta D J store1 ''invalid_md5'')"

text \<open>\<open>has_status\<close> reads the status through the optional; an empty one is undefined and fails.\<close>

definition has_status :: "MetaFile option \<Rightarrow> FileStatus \<Rightarrow> bool" where
  "has_status m s = (case m of None \<Rightarrow> False | Some x \<Rightarrow> status x = s)"

definition UpdateStatus :: "('db, 'it) leveldb_api \<Rightarrow> json_api \<Rightarrow> 'db metadata_store \<Rightarrow> bool" where
  "UpdateStatus D J store =
     (case save_meta D J test_meta store of
        (_, store1) \<Rightarrow>
          has_status (get_meta D J store1 (md5 test_meta)) NORMAL
          \<and> (case update_status D J (md5 test_meta) DELETED store1 of
               (update_ok, store2) \<Rightarrow> update_ok = Inr True \<and> has_status (get_meta D J store2 (md5 test_meta)) DELETED))"

definition DeleteMeta :: "('db, 'it) leveldb_api \<Rightarrow> json_api \<Rightarrow> 'db metadata_store \<Rightarrow> bool" where
  "DeleteMeta D J store =
     (case save_meta D J test_meta store of
        (_, store1) \<Rightarrow>
          exists_meta D J store1 (md5 test_meta)
          \<and> (case delete_meta D J (md5 test_meta) store1 of
               (delete_ok, store2) \<Rightarrow> delete_ok \<and> \<not> exists_meta D J store2 (md5 test_meta)
                 \<and> get_meta D J store2 (md5 test_meta) = None))"

definition StatAndRepairStat :: "('db, 'it) leveldb_api \<Rightarrow> json_api \<Rightarrow> 'db metadata_store \<Rightarrow> bool" where
  "StatAndRepairStat D J store \<longleftrightarrow>
     file_count (get_stat store) = 0 \<and> total_size (get_stat store) = 0
     \<and> (case save_meta D J test_meta store of
          (_, store1) \<Rightarrow>
            file_count (get_stat store1) = 1 \<and> total_size (get_stat store1) = 1024
            \<and> (case delete_meta D J (md5 test_meta) store1 of
                 (_, store2) \<Rightarrow>
                   (case repair_stat D J store2 of
                      None \<Rightarrow> False
                    | Some store3 \<Rightarrow> file_count (get_stat store3) = 0 \<and> total_size (get_stat store3) = 0)))"

definition numbered_meta :: "nat \<Rightarrow> MetaFile" where
  "numbered_meta i = test_meta\<lparr>md5 := ''1234567890abcdef1234567890abcde'' @ to_string_nat i, scene := ''default'',
     status := NORMAL, mtime := 1680000000 + of_nat i, fsize := 1024 + of_nat i\<rparr>"

fun save_numbered ::
  "('db, 'it) leveldb_api \<Rightarrow> json_api \<Rightarrow> MetaFile list \<Rightarrow> 'db metadata_store \<Rightarrow> bool \<times> 'db metadata_store" where
  "save_numbered D J [] store = (True, store)"
| "save_numbered D J (meta # metas) store =
     (case save_meta D J meta store of
        (save_ok, store1) \<Rightarrow>
          if save_ok \<and> exists_meta D J store1 (md5 meta) then save_numbered D J metas store1 else (False, store1))"

definition ListDir :: "('db, 'it) leveldb_api \<Rightarrow> json_api \<Rightarrow> 'db metadata_store \<Rightarrow> bool" where
  "ListDir D J store =
     (case save_numbered D J (map numbered_meta [0..<5]) store of
        (saved, store1) \<Rightarrow>
          saved
          \<and> (case list_dir D J store1 ''default'' 1 2 1 of
               None \<Rightarrow> False
             | Some asc \<Rightarrow> length asc = 2 \<and> sint (mtime (asc ! 0)) \<le> sint (mtime (asc ! 1)))
          \<and> (case list_dir D J store1 ''default'' 0 3 2 of
               None \<Rightarrow> False
             | Some desc \<Rightarrow> length desc = 3 \<and> sint (mtime (desc ! 1)) \<le> sint (mtime (desc ! 0)))
          \<and> list_dir D J store1 ''default'' (-1) 0 1 = Some [])"

section \<open>The URL tests pass\<close>

lemma split_tests_pass: "SplitTarget_NormalCases"
  by code_simp

lemma decode_tests_pass: "Decode_NormalCases" "Decode_ExceptionCases"
  by code_simp+

lemma parse_three: "parseQuery ''a=1&b=2&c=3'' = Inr [''a'' \<mapsto> ''1'', ''b'' \<mapsto> ''2'', ''c'' \<mapsto> ''3'']"
  using parse_query_loop_render [of "[(''a'', ''1''), (''b'', ''2''), (''c'', ''3'')]" Map.empty]
  by (simp add: parseQuery_def plain_key_def unreserved_def is_digit_def)

lemma query_tests_pass: "ParseQuery_NormalCases"
proof -
  have "card (dom [''a'' \<mapsto> ''1'', ''b'' \<mapsto> ''2'', ''c'' \<mapsto> ''3'']) = 3" by simp
  then have "parsed ''a=1&b=2&c=3'' (\<lambda>m. card (dom m) = 3 \<and> at_key m ''a'' = ''1'' \<and> at_key m ''b'' = ''2'' \<and> at_key m ''c'' = ''3'')"
    by (simp add: parsed_def parse_three at_key_def)
  moreover have "parsed [] (\<lambda>m. dom m = {})" by (simp add: parsed_def parseQuery_def)
  moreover have "parsed ''a=&b=2&c='' (\<lambda>m. at_key m ''a'' = [] \<and> at_key m ''b'' = ''2'' \<and> at_key m ''c'' = [])"
      "parsed ''=123&b=456'' (\<lambda>m. at_key m [] = ''123'' \<and> at_key m ''b'' = ''456'')"
      "parsed ''a=1&a=999&b=2'' (\<lambda>m. at_key m ''a'' = ''999'' \<and> at_key m ''b'' = ''2'')"
    by code_simp+
  ultimately show ?thesis unfolding ParseQuery_NormalCases_def by blast
qed

lemma end_to_end_passes: "FullUrlParse_EndToEnd"
  by code_simp

section \<open>A database whose writes succeed\<close>

definition saves :: "json_api \<Rightarrow> MetaFile list \<Rightarrow> (string \<rightharpoonup> string) \<Rightarrow> (string \<rightharpoonup> string)" where
  "saves J metas = fold (\<lambda>meta. apply_batch (save_batch J meta)) metas"

locale healthy_db = metadata_db D entries view cursor J
  for D :: "('db, 'it) leveldb_api" and entries view cursor and J :: json_api +
  assumes writes: "fst (db_Write D d ops)" and puts: "fst (db_Put D d k v)"
begin

lemma writes_ok: "\<exists>d'. db_Write D d ops = (True, d') \<and> contents d' = apply_batch ops (contents d)"
  using writes [of d ops] write_ok [of d ops] by (metis prod.collapse)

lemma puts_ok: "\<exists>d'. db_Put D d k v = (True, d') \<and> contents d' = (contents d)(k \<mapsto> v)"
  using puts [of d k v] put_ok [of d k v] by (metis prod.collapse)

text \<open>What the operations do when no write fails.\<close>

lemma save_new:
  assumes "contents (db st) (md5 meta) = None"
  shows "\<exists>st'. save_meta D J meta st = (True, st') \<and> contents (db st') = apply_batch (save_batch J meta) (contents (db st))"
  using writes_ok [of "db st" "save_batch J meta"] assms
  by (auto simp: save_meta_def save_meta_check_def save_meta_commit_def get)

lemma save_succeeds:
  assumes ok: "store_ok J entries st c" and "storable J meta" "path_free meta c" "c (md5 meta) = None"
  shows "\<exists>st'. save_meta D J meta st = (True, st') \<and> store_ok J entries st' (c(md5 meta \<mapsto> meta))"
proof -
  have "contents (db st) (md5 meta) = None"
    using assms(1,2,4) representsD(1) by (fastforce simp: store_ok_def storable_def)
  with save_new obtain st' where "save_meta D J meta st = (True, st')" by blast
  with save_meta_ok [OF assms(1-3) this] assms(4) show ?thesis by (simp add: spec_save_def domIff)
qed

lemma delete_succeeds:
  assumes ok: "store_ok J entries st c" and "hex_md5 k" "c k = Some meta"
  shows "\<exists>st'. delete_meta D J k st = (True, st') \<and> store_ok J entries st' (c(k := None))"
proof -
  have rep: "represents J (contents (db st)) c" using ok by (simp add: store_ok_def)
  obtain st' where "delete_meta D J k st = (True, st')"
    using delete_meta_result(2) [OF rep assms(2,3)] writes_ok [of "db st" "delete_batch k meta"] by auto
  with delete_meta_ok [OF ok assms(2)] show ?thesis by blast
qed

lemma update_succeeds:
  assumes ok: "store_ok J entries st c" and "hex_md5 k" "c k = Some meta" "named_status s"
  shows "\<exists>st'. update_status D J k s st = (Inr True, st') \<and> store_ok J entries st' (spec_update_status k s c)"
proof -
  have rep: "represents J (contents (db st)) c" using ok by (simp add: store_ok_def)
  obtain st' where "update_status D J k s st = (Inr True, st')"
    using representsD(1) [OF rep assms(2)] assms(3) deserialize_serialize [OF representsD(5) [OF rep assms(3)]]
      puts_ok [of "db st" k "serialize J (meta\<lparr>status := s\<rparr>)"]
    by (auto simp: update_status_def get)
  with update_status_ok [OF ok assms(2,4)] show ?thesis by blast
qed

end

interpretation healthy_log: healthy_db log_db log_entries fst snd ref_json
  by unfold_locales (simp_all add: log_db_def)

section \<open>The tests pass\<close>

lemma test_meta_simps [simp]:
  "md5 test_meta = ''1234567890abcdef1234567890abcdef''" "path test_meta = ''/group1/test.txt''" "scene test_meta = ''default''"
  "status test_meta = NORMAL" "fsize test_meta = 1024"
  by (simp_all add: test_meta_def default_MetaFile_def)

lemma test_hex: "hex_md5 ''1234567890abcdef1234567890abcdef''"
  by (simp add: hex_md5_def isxdigit_def is_digit_def)

lemma sorted_entries_eq:
  fixes xs ys :: "('k :: linorder \<times> 'v) list"
  assumes "sorted_wrt (<) (map fst xs)" "sorted_wrt (<) (map fst ys)" "set xs = set ys"
  shows "xs = ys"
proof (rule map_inj_on)
  show "map fst xs = map fst ys" using assms by (intro strict_sorted_equal) simp_all
  show "inj_on fst (set xs \<union> set ys)"
    using assms strict_sorted_iff [of "map fst ys"] by (simp add: distinct_map)
qed

lemma append_less_append: "xs @ ys < xs @ zs \<longleftrightarrow> ys < zs" for xs :: "'a :: linorder list"
  by (induction xs) auto

context healthy_db
begin

lemma test_storable: "storable J test_meta"
  by (rule storable_ascii) (simp_all add: test_hex test_meta_def default_MetaFile_def to_json_def ascii_def)

text \<open>The fixture: an empty store, and the store with the one file of the tests.\<close>

lemma opened_ok:
  assumes "entries handle = []"
  shows "store_ok J entries (MetadataStore_open handle cfg) Map.empty"
  using assms by (intro reach_store_ok reach.opened)

lemma saved_ok:
  assumes "store_ok J entries st Map.empty"
  shows "\<exists>st1. save_meta D J test_meta st = (True, st1) \<and> store_ok J entries st1 [md5 test_meta \<mapsto> test_meta]"
  using save_succeeds [OF assms test_storable] by (simp add: path_free_def)

lemma get_saved:
  assumes "store_ok J entries st [md5 test_meta \<mapsto> test_meta]"
  shows "get_meta D J st (md5 test_meta) = Some test_meta" "get_meta D J st (path test_meta) = Some test_meta"
    "\<not> is_md5 p \<Longrightarrow> p \<noteq> path test_meta \<Longrightarrow> get_meta D J st p = None"
proof -
  have rep: "represents J (contents (db st)) [md5 test_meta \<mapsto> test_meta]" using assms by (simp add: store_ok_def)
  show "get_meta D J st (md5 test_meta) = Some test_meta" using get_meta_by_md5 [OF rep] test_hex by simp
  show "get_meta D J st (path test_meta) = Some test_meta"
    by (rule get_meta_by_path [OF rep]) (simp_all add: is_md5_def)
  show "get_meta D J st p = None" if "\<not> is_md5 p" "p \<noteq> path test_meta"
    by (rule get_meta_no_path [OF rep _ that(1)]) (use that(2) in \<open>auto split: if_splits\<close>)
qed

lemma get_none:
  assumes "store_ok J entries st c" "c (md5 test_meta) = None"
  shows "get_meta D J st (md5 test_meta) = None"
  using assms get_meta_by_md5 [of st c] test_hex by (simp add: store_ok_def)

lemma basic_tests:
  assumes ok: "store_ok J entries st Map.empty"
  shows "SaveAndGetMeta D J st" "Exists D J st" "UpdateStatus D J st" "DeleteMeta D J st" "StatAndRepairStat D J st"
proof -
  obtain st1 where save: "save_meta D J test_meta st = (True, st1)" and ok1: "store_ok J entries st1 [md5 test_meta \<mapsto> test_meta]"
    using saved_ok [OF ok] by blast
  obtain st2 where del: "delete_meta D J (md5 test_meta) st1 = (True, st2)" and ok2: "store_ok J entries st2 Map.empty"
    using delete_succeeds [OF ok1, of "md5 test_meta" test_meta] test_hex by auto
  obtain st3 where upd: "update_status D J (md5 test_meta) DELETED st1 = (Inr True, st3)"
      and ok3: "store_ok J entries st3 (spec_update_status (md5 test_meta) DELETED [md5 test_meta \<mapsto> test_meta])"
    using update_succeeds [OF ok1, of "md5 test_meta" test_meta DELETED] test_hex by auto
  note got = get_saved [OF ok1]
  show "SaveAndGetMeta D J st" using save got by (simp add: SaveAndGetMeta_def is_md5_def)
  show "Exists D J st" using save got get_none [OF ok] by (simp add: Exists_def exists_meta_def is_md5_def)
  show "DeleteMeta D J st" using save got del get_none [OF ok2] by (simp add: DeleteMeta_def exists_meta_def)
  have "get_meta D J st3 (md5 test_meta) = Some (test_meta\<lparr>status := DELETED\<rparr>)"
    using ok3 get_meta_by_md5 [of st3 "spec_update_status (md5 test_meta) DELETED [md5 test_meta \<mapsto> test_meta]" "md5 test_meta"] test_hex
    by (simp add: store_ok_def spec_update_status_def)
  then show "UpdateStatus D J st" using save got upd by (simp add: UpdateStatus_def has_status_def)
  have "repair_stat D J st2 = Some (st2\<lparr>cached_stat := stat_of (normal_files Map.empty)\<rparr>)"
    using ok2 by (intro repair_stat_eq) (simp add: store_ok_def)
  moreover have "normal_files Map.empty = Map.empty" by (rule ext) (simp add: normal_files_def)
  moreover have "stat_of [md5 test_meta \<mapsto> test_meta] = \<lparr>file_count = 1, total_size = 1024\<rparr>"
    by (simp add: stat_of_def)
  ultimately show "StatAndRepairStat D J st"
    using ok ok1 save del
    by (simp add: StatAndRepairStat_def store_ok_def get_stat_def stat_of_empty default_SystemStat_def)
qed

text \<open>Saves of new files, whatever their paths: the records and the scene entries.\<close>

lemma save_numbered_run:
  assumes "distinct (map md5 metas)" "\<forall>meta \<in> set metas. storable J meta \<and> contents (db st) (md5 meta) = None"
  shows "\<exists>st'. save_numbered D J metas st = (True, st')
    \<and> contents (db st') = saves J metas (contents (db st))"
  using assms
proof (induction metas arbitrary: st)
  case (Cons meta metas)
  obtain st1 where run: "save_meta D J meta st = (True, st1)" "contents (db st1) = apply_batch (save_batch J meta) (contents (db st))"
    using save_new [of st meta] Cons.prems(2) by auto
  have sto: "storable J meta" and hex: "hex_md5 (md5 meta)" using Cons.prems(2) by (auto simp: storable_def)
  have "contents (db st1) (md5 meta) = Some (serialize J meta)"
    using hex by (simp add: run(2) apply_batch_def save_batch_def)
  then have "exists_meta D J st1 (md5 meta)"
    using hex deserialize_serialize [OF sto] by (simp add: exists_meta_def get_meta_def hex_md5_is_md5 get)
  moreover have "contents (db st1) (md5 x) = None" if "x \<in> set metas" for x
  proof -
    have "hex_md5 (md5 x)" "md5 x \<noteq> md5 meta" "contents (db st) (md5 x) = None"
      using that Cons.prems by (auto simp: storable_def image_iff)
    then show ?thesis by (simp add: run(2) apply_batch_def save_batch_def)
  qed
  ultimately show ?case using Cons.IH [of st1] Cons.prems run by (simp add: saves_def)
qed (simp add: saves_def)

lemma saved_entries:
  assumes "\<forall>meta \<in> set metas. storable J meta" "distinct (map md5 metas)"
  shows "(\<forall>meta \<in> set metas. saves J metas Map.empty (md5 meta) = Some (serialize J meta))
    \<and> (\<forall>q k. saves J metas Map.empty (scene_raw q) = Some k \<longleftrightarrow>
         (\<exists>meta \<in> set metas. scene_raw q = meta_scene_key meta \<and> k = md5 meta))"
  using assms
proof (induction metas rule: rev_induct)
  case (snoc x metas)
  let ?m = "saves J metas Map.empty"
  have IH: "\<forall>meta \<in> set metas. ?m (md5 meta) = Some (serialize J meta)"
      "?m (scene_raw q) = Some k \<longleftrightarrow> (\<exists>meta \<in> set metas. scene_raw q = meta_scene_key meta \<and> k = md5 meta)" for q k
    using snoc by auto
  have m: "saves J (metas @ [x]) Map.empty = ?m(md5 x \<mapsto> serialize J x, path_key (path x) \<mapsto> md5 x, meta_scene_key x \<mapsto> md5 x)"
    by (simp add: saves_def apply_batch_def save_batch_def meta_scene_key_def)
  have hex: "\<forall>meta \<in> set (metas @ [x]). hex_md5 (md5 meta)" using snoc.prems(1) by (simp add: storable_def)
  have new: "md5 y \<noteq> md5 x" "meta_scene_key y \<noteq> meta_scene_key x" if "y \<in> set metas" for y
  proof -
    show "md5 y \<noteq> md5 x" using that snoc.prems(2) by (auto simp: image_iff)
    then show "meta_scene_key y \<noteq> meta_scene_key x"
      using scene_key_md5 [of "md5 y" "md5 x"] hex that by (auto simp: meta_scene_key_def)
  qed
  obtain q0 where q0: "meta_scene_key x = scene_raw q0" using SCENE_of_key by blast
  show ?case
  proof (intro conjI ballI allI)
    show "saves J (metas @ [x]) Map.empty (md5 meta) = Some (serialize J meta)" if "meta \<in> set (metas @ [x])" for meta
      using that IH(1) hex new(1) by (auto simp: m meta_scene_key_def)
    show "saves J (metas @ [x]) Map.empty (scene_raw q) = Some k \<longleftrightarrow>
        (\<exists>meta \<in> set (metas @ [x]). scene_raw q = meta_scene_key meta \<and> k = md5 meta)" for q k
      using IH(2) [of q k] new(2) hex by (auto simp: m q0)
  qed
qed (simp add: saves_def)

lemma list_saved:
  assumes st: "contents (db st) = saves J metas Map.empty"
    and metas: "\<forall>meta \<in> set metas. storable J meta \<and> scene meta = dir" "distinct (map md5 metas)"
      "sorted_wrt (<) (map meta_scene_key metas)"
    and page: "0 \<le> offset" "limit \<noteq> 0"
  shows "list_dir D J st dir offset limit order = Some (page offset limit ((if order = 1 then id else rev) metas))"
proof -
  let ?E = "with_prefix (scene_prefix dir) (entries (db st))" and ?F = "map (\<lambda>meta. (meta_scene_key meta, md5 meta)) metas"
  have sto: "\<forall>meta \<in> set metas. storable J meta" using metas(1) by blast
  note saved = saved_entries [OF sto metas(2), folded st]
  have pre: "prefix (scene_prefix dir) (meta_scene_key meta)" if "meta \<in> set metas" for meta
    using that metas(1) by (simp add: meta_scene_key_def scene_key_def)
  have "(k, v) \<in> set ?E \<longleftrightarrow> (k, v) \<in> set ?F" for k v
  proof -
    have "(k, v) \<in> set ?E \<longleftrightarrow> contents (db st) k = Some v \<and> prefix (scene_prefix dir) k"
      by (simp add: with_prefix_def map_of_eq_Some_iff entries_distinct)
    also have "\<dots> \<longleftrightarrow> (\<exists>meta \<in> set metas. k = meta_scene_key meta \<and> v = md5 meta)" (is "?A \<longleftrightarrow> ?B")
    proof
      assume ?A
      then obtain q where "k = scene_raw q" by (auto simp: prefix_def scene_prefix_def scene_raw_def)
      with \<open>?A\<close> saved show ?B by metis
    next
      assume ?B
      with pre saved SCENE_of_key show ?A by metis
    qed
    finally show ?thesis by auto
  qed
  then have "set ?E = set ?F" by auto
  then have E: "?E = ?F"
    using entries_sorted [of "db st"] metas(3)
    by (intro sorted_entries_eq) (simp_all add: with_prefix_def sorted_wrt_map sorted_wrt_filter)
  have look: "get_meta D J st (md5 meta) = Some meta" if "meta \<in> set metas" for meta
    using saved that sto deserialize_serialize [of meta] by (simp add: get_meta_def hex_md5_is_md5 get storable_def)
  define g where "g e = the (get_meta D J st (snd e))" for e :: "string \<times> string"
  have "map g ?F = metas" using look by (simp add: g_def map_idI)
  with list_dir_block [of dir st g offset limit order] page look show ?thesis by (simp add: E g_def)
qed

lemma numbered_upt: "map numbered_meta [0..<5] = [numbered_meta 0, numbered_meta 1, numbered_meta 2, numbered_meta 3, numbered_meta 4]"
  by (simp add: upt_rec eval_nat_numeral)

lemma numbered_facts:
  "\<forall>meta \<in> set (map numbered_meta [0..<5]). storable J meta \<and> scene meta = ''default''"
  "distinct (map md5 (map numbered_meta [0..<5]))" "sorted_wrt (<) (map meta_scene_key (map numbered_meta [0..<5]))"
proof -
  have "storable J (numbered_meta i)" if "i < 10" for i
  proof -
    have "to_string_nat i = [digit_char i]" using that by (subst to_string_nat.simps) simp
    with is_digit_digit_char [OF that] show ?thesis
      by (intro storable_ascii)
        (simp_all add: numbered_meta_def hex_md5_def isxdigit_def is_digit_def test_meta_def default_MetaFile_def to_json_def ascii_def)
  qed
  then show "\<forall>meta \<in> set (map numbered_meta [0..<5]). storable J meta \<and> scene meta = ''default''"
    by (simp add: numbered_meta_def [of _] del: upt_Suc upt_rec_numeral)
  show "distinct (map md5 (map numbered_meta [0..<5]))" by code_simp
  have key: "meta_scene_key (numbered_meta i) = scene_prefix ''default'' @ to_string_int (sint (mtime (numbered_meta i))) @ '':'' @ md5 (numbered_meta i)" for i
    by (simp add: meta_scene_key_def scene_key_def numbered_meta_def)
  have times: "to_string_int (sint (mtime (numbered_meta 0))) = ''1680000000''" "to_string_int (sint (mtime (numbered_meta 1))) = ''1680000001''"
      "to_string_int (sint (mtime (numbered_meta 2))) = ''1680000002''" "to_string_int (sint (mtime (numbered_meta 3))) = ''1680000003''"
      "to_string_int (sint (mtime (numbered_meta 4))) = ''1680000004''"
    by (simp_all add: numbered_meta_def to_string_int_def to_string_nat.simps [of "numeral _"] to_string_nat.simps [of "Suc 0"]
        digit_char_def char_of_def bit_iff_odd)
  show "sorted_wrt (<) (map meta_scene_key (map numbered_meta [0..<5]))"
    unfolding numbered_upt list.map key times by (simp add: append_less_append less_char_def)
qed

lemma list_test:
  assumes "entries (db st) = []"
  shows "ListDir D J st"
proof -
  obtain st1 where run: "save_numbered D J (map numbered_meta [0..<5]) st = (True, st1)"
      and st1: "contents (db st1) = saves J (map numbered_meta [0..<5]) Map.empty"
    using save_numbered_run [OF numbered_facts(2), of st] numbered_facts(1) assms by auto
  have asc: "list_dir D J st1 ''default'' 1 2 1 = Some [numbered_meta 1, numbered_meta 2]"
    using list_saved [OF st1 numbered_facts, of 1 2 1] by (simp add: page_def numbered_upt)
  have desc: "list_dir D J st1 ''default'' 0 3 2 = Some [numbered_meta 4, numbered_meta 3, numbered_meta 2]"
    using list_saved [OF st1 numbered_facts, of 0 3 2] by (simp add: page_def numbered_upt)
  have "sint (mtime (numbered_meta 1)) \<le> sint (mtime (numbered_meta 2))" "sint (mtime (numbered_meta 3)) \<le> sint (mtime (numbered_meta 4))"
    by (simp_all add: numbered_meta_def)
  with asc desc show ?thesis unfolding ListDir_def run by (simp add: list_dir_def)
qed

end

text \<open>C18: the tests of \<open>meta_test.cc\<close> pass, from the fixture on, on every database that keeps the LevelDB
  contract, starts empty and does not fail a write, and with every JSON library that keeps its
  contract: saving and finding by MD5 and by path, existence, status, deletion, statistics with their
  repair, and the pages of a listing in both orders, also when five files share one path.\<close>

theorem meta_tests_pass:
  assumes "healthy_db D entries view cursor J" "entries handle = []"
  shows "SetUp (Inr handle) (SaveAndGetMeta D J) \<and> SetUp (Inr handle) (Exists D J) \<and> SetUp (Inr handle) (UpdateStatus D J)
    \<and> SetUp (Inr handle) (DeleteMeta D J) \<and> SetUp (Inr handle) (StatAndRepairStat D J) \<and> SetUp (Inr handle) (ListDir D J)"
proof -
  let ?st = "MetadataStore_open handle default_metaConfig"
  have fixture: "SetUp (Inr handle) test = test ?st" for test
    by (simp add: SetUp_def MetadataStore_new_def)
  have "entries (db ?st) = []" using assms(2) by (simp add: MetadataStore_open_def)
  with healthy_db.basic_tests [OF assms(1) healthy_db.opened_ok [OF assms]] healthy_db.list_test [OF assms(1)]
  show ?thesis unfolding fixture by blast
qed

theorem meta_tests_pass_witness:
  "SetUp (Inr []) (SaveAndGetMeta log_db ref_json) \<and> SetUp (Inr []) (ListDir log_db ref_json)"
  using meta_tests_pass [OF healthy_log.healthy_db_axioms, of "[]"] by (simp add: log_entries_def)

end
