(* ===== verification/Spec2Isabelle.thy ===== *)
theory Spec2Isabelle
  imports UrlUtils Utils MetadataProps FileStoreProps Router MergeProps SessionProps SystemCtl LogDemo App
    MetadataLock MetadataConc FileStoreConc ChunkConc UploadConc FileGuard Singleton TestSuite
begin

text \<open>
  A verification of cdfs, a file server in C++ over LevelDB, Boost.Beast, Boost.Asio, nlohmann::json
  and \<open>std::filesystem\<close>.

  \<^bold>\<open>The program.\<close>  \<open>test/server_test.cc\<close> starts an acceptor (\<open>server/cServer\<close>) and worker threads.
  Every connection is an \<open>HttpSession\<close> that reads a request, hands it to the \<open>Router\<close> and writes the
  response.  The router splits the target (\<open>UrlUtils\<close>), parses the query and calls the handler of an
  exact route or of the longest prefix.  \<open>FileCtl\<close> handles checks, uploads, downloads, chunk uploads
  and merges; it parses forms (\<open>MultipartParser\<close>), stores bytes on disk (\<open>FileStore\<close>) and metadata in
  LevelDB (\<open>MetadataStore\<close>).  \<open>SystemCtl\<close> answers the status page from the global counters and
  \<open>/proc\<close>.  The \<open>Logger\<close> formats lines in a fixed buffer.

  \<^bold>\<open>Theories\<close>, from the bottom up; the sources are those under \<open>src/\<close>.

  \<^item> \<open>Prelude\<close>: exceptions as values, the state monad with exceptions \<open>io\<close> and its Hoare triples,
    strings as byte lists with the members of \<open>std::string\<close>, \<open>std::stoi\<close> and relatives, the locale
    of machines with an invariant.  \<open>Threads\<close>: threads that take turns, by rely and guarantee, with a bound
    on their turns (the locales \<open>rely_guarantee\<close> and \<open>bounded_threads\<close>).
  \<^item> \<open>UrlUtils\<close> (\<open>server/UrlUtils.cc\<close>), \<open>Utils\<close> (\<open>common/util.h\<close>, \<open>common/Timestamp\<close>): when decoding
    throws, round trips of encoding and of queries, agreement of the two decoders, byte order.
  \<^item> \<open>LevelDB\<close>, \<open>Json\<close>: the library calls as records of operations; what the program relies on is in
    the locales \<open>leveldb\<close> and \<open>json_codec\<close>, which a log-structured store and a printer with its
    parser meet.
  \<^item> \<open>MetaFile\<close>, \<open>MetadataStore\<close> (\<open>file/MetaFile.h\<close>, \<open>file/MetadataStore.cpp\<close>): the records and every
    operation of the store.  \<open>MetadataSpec\<close> has the abstract catalogue, the relation \<open>represents\<close>
    between a database and a catalogue, and the locale \<open>metadata_db\<close> in which each operation is shown
    to simulate the catalogue's; \<open>MetadataScan\<close> the loops over iterators; \<open>MetadataProps\<close> the
    properties: refinement for every reachable store, the effect of each operation, that the loops
    end on any database with bounded results, and the flaws (statistics that wrap around, a listing
    in the wrong order).  \<open>MetadataLock\<close> has \<open>list_dir\<close> with its lock, which it takes a second time
    in \<open>get_meta\<close>: undefined by the standard exactly when there is something to list.  All other
    theories take the second lock as granted.
    \<open>MetadataConc\<close> has the threads: a step relation at the granularity of \<open>rw_lock_\<close>, in which the
    look-up of \<open>save_meta\<close> and the two halves of \<open>update_meta\<close> are steps of their own; under every
    interleaving the look-ups agree with one catalogue, and the statistics are off by exactly the
    saves that lost the race.
  \<^item> \<open>FsPath\<close>, \<open>FileSystem\<close>: paths as strings and a disk as a tree of names, with an oracle that may
    let any system call fail; the rules of the calls as triples.  \<open>FileGuard\<close> (\<open>file/FileGuard.h\<close>) is
    the guard that removes a file unless it is committed.
  \<^item> \<open>CryptoUtils\<close>, \<open>FileStore\<close>, \<open>FileStoreProps\<close> (\<open>file/CryptoUtils.h\<close>, \<open>file/filestore.cpp\<close>): writing
    by temporary file and rename, reading, saving by path and by content, the chunk scan.  Under any
    faults a reported success is true, nothing but the target, its temporary file and the directories
    on the way changes, and a relative path stays below the root; without faults what was saved is
    read back.  \<open>FileStoreConc\<close> cuts \<open>write_disk\<close> into its system calls and interleaves any number of
    threads: no reader ever sees a part of a file, which is what the temporary file and the rename
    are for.
  \<^item> \<open>Multipart\<close>, \<open>HttpContext\<close>, \<open>Mime\<close>, \<open>Router\<close> (\<open>server/MultipartParser\<close>, \<open>server/HttpContext.h\<close>,
    \<open>common/MineMap.h\<close>, \<open>server/Router\<close>): the parser and its round trip, the responses, the choice of
    the handler independently of the order of registration; \<open>std::sort\<close> is the locale \<open>route_sort\<close>.
  \<^item> \<open>FileCtl\<close>, \<open>FileCtlProps\<close>, \<open>UploadProps\<close>, \<open>MergeProps\<close> (\<open>controller/FileCtl.cpp\<close>): the six
    handlers as functions of the metadata store, the disk and the upload counter; what uploads,
    checks, downloads and merges guarantee, and where they fail.  \<open>UploadConc\<close> interleaves the atomic
    operations on the upload counter: twenty uploads are admitted, never more and never fewer.
    \<open>ChunkConc\<close> has the chunks of one file written in parallel: in the end the check lists them all, and one
    that is being written it lists too early; a merge takes such a chunk twice.
  \<^item> \<open>Metrics\<close>, \<open>SystemCtl\<close> (\<open>common/global.cc\<close>, \<open>controller/SystemCtl.h\<close>): the counters at their
    widths and the status page, from the texts of \<open>/proc\<close> to every member of its JSON object; doubles
    are rationals under a rounding function.
  \<^item> \<open>Session\<close>, \<open>SessionProps\<close> (\<open>server/HttpSession.cc\<close>, \<open>server/cServer.cc\<close>): sessions, timers and the
    acceptor as a step relation over the completions Asio delivers, with an equivalent executable
    function; an invariant of all reachable states in the locale \<open>application\<close>, the life of a
    request, the end of a silent client, and how handlers outlive sessions, workers die and an
    exception in the accept handler makes the server deaf.
  \<^item> \<open>Logger\<close> (\<open>common/logStream\<close>, \<open>common/logger\<close>): the buffer as an array in which a write outside is
    undefined (\<open>None\<close>); no message gets there.  \<open>LogDemo\<close> (\<open>test/test_log.cc\<close>) is the program that prints
    the buffer as a C string, and thereby memory that nobody wrote.
  \<^item> \<open>Singleton\<close> (\<open>common/Singleton.h\<close>): \<open>getInstance\<close> under threads and throwing constructors as a step
    relation; one object at most, one pointer for all, and every caller finishes.
  \<^item> \<open>App\<close> (\<open>test/server_test.cc\<close>): the routes and controllers composed into the application of the
    sessions; it interprets \<open>application\<close>, and the end-to-end properties are about it: what was
    uploaded is downloaded, chunks that are uploaded are listed and not merged, and a download
    reaches every file of the machine.
  \<^item> \<open>TestSuite\<close> (\<open>test/url_utils_test.cpp\<close>, \<open>test/meta_test.cc\<close>): the tests of the repository on the
    model; those of the metadata store pass on every database of the locale \<open>healthy_db\<close>, which
    extends \<open>metadata_db\<close> by writes that succeed.

  \<^bold>\<open>Modelling.\<close>  An exception is the left value of a sum, undefined behaviour and a loop that does not
  end are \<open>None\<close>, and the theorems show the results that exclude them.  Sizes and counters have their
  width, but for the upload counter and the counters of \<open>list_dir\<close>, whose values stay far below
  theirs.  Loops over LevelDB iterators are \<open>while_valid\<close>, a partial function with values in
  \<open>option\<close> whose body moves the iterator; they are shown to end.  The other
  loops are total functions, so there is no fuel.  A handler of the server is atomic in \<open>Session\<close> and \<open>App\<close>, and its one response is its result; what the handlers of several
  workers do at the same time is interleaved in \<open>MetadataConc\<close>, \<open>FileStoreConc\<close>, \<open>ChunkConc\<close>
  and \<open>UploadConc\<close>.  Every system call of \<open>std::filesystem\<close> may
  fail, by a list of faults that is part of the disk.

  \<^bold>\<open>Parameters.\<close>  LevelDB, the JSON library, MD5, \<open>std::sort\<close> on the routes, the clock and \<open>localtime_r\<close>,
  random suffixes, the content of \<open>/proc\<close>, the version text of Beast and uninitialised memory are
  arguments; theorems that need something of them name it, and their witnesses run on concrete ones.

  \<^bold>\<open>Not modelled.\<close>  The parsing of HTTP and the sockets (Beast and Asio, seen as the events of the step
  relation); the interleaving of file operations other than those of \<open>write_disk\<close>, and memory order; symbolic links
  and permissions; \<open>server/node.h\<close> and \<open>file/MetaFileSet.h\<close>, which declare functions that are defined
  nowhere; \<open>main.cc\<close>, which prints a greeting, and the empty \<open>common/AsyncLoging.h\<close>; the pages under
  \<open>wwwroot\<close>; include lines and declarations of functions that are modelled at their definitions; and code that is commented out, the larger part of what the map does not cover.
\<close>

end
